theory Spec2Isabelle
  imports Main "HOL-Library.Char_ord" "HOL-Library.List_Lexorder"
begin

section \<open>JavaScript values used by the adapter\<close>

text \<open>
  The adapter \<^verbatim>\<open>SqliteDatabase\<close> of \<^verbatim>\<open>src/sqlite.ts\<close> stores four kinds of records
  in an SQLite file through better-sqlite3. Strings are byte strings (\<open>string\<close>), compared
  bytewise as SQLite's BINARY collation does.

  An optional property of a JavaScript object has three states at run time: missing or
  \<^verbatim>\<open>undefined\<close>, \<^verbatim>\<open>null\<close>, or a value.
\<close>

datatype 'a optional = Undefined | Null | Value 'a

text \<open>The operator \<^verbatim>\<open>x ?? null\<close>, as a bound SQL parameter (\<open>None\<close> is SQL NULL).\<close>

fun or_null :: "'a optional \<Rightarrow> 'a option" where
  "or_null (Value v) = Some v"
| "or_null Undefined = None"
| "or_null Null = None"

text \<open>The expression \<^verbatim>\<open>x ?? undefined\<close> on a column read back from a row.\<close>

fun or_undefined :: "'a option \<Rightarrow> 'a optional" where
  "or_undefined (Some v) = Value v"
| "or_undefined None = Undefined"

text \<open>A column read back from a row and passed on as it is: SQL NULL is \<^verbatim>\<open>null\<close>.\<close>

fun as_is :: "'a option \<Rightarrow> 'a optional" where
  "as_is (Some v) = Value v"
| "as_is None = Null"

text \<open>
  A \<^verbatim>\<open>Date\<close> holds a time value, an integer number of milliseconds with absolute value at
  most 8.64e15, or is the invalid date, whose \<^verbatim>\<open>getTime()\<close> is NaN (\<open>None\<close> here).
  better-sqlite3 binds a number as a double and SQLite stores NaN as NULL.
\<close>

datatype date = Date int | InvalidDate

definition max_time :: int where
  "max_time = 8640000000000000"

fun valid_date :: "date \<Rightarrow> bool" where
  "valid_date (Date t) = (- max_time \<le> t \<and> t \<le> max_time)"
| "valid_date InvalidDate = False"

fun getTime :: "date \<Rightarrow> int option" where
  "getTime (Date t) = Some t"
| "getTime InvalidDate = None"

definition new_Date :: "int \<Rightarrow> date" where
  "new_Date t = (if - max_time \<le> t \<and> t \<le> max_time then Date t else InvalidDate)"

subsection \<open>JSON values, \<^verbatim>\<open>JSON.stringify\<close> and \<^verbatim>\<open>JSON.parse\<close>\<close>

text \<open>
  The payloads \<^verbatim>\<open>body\<close> and \<^verbatim>\<open>replyRestriction\<close> are JSON values. An object is the list
  of its properties in insertion order. A number written without fraction and exponent is
  an integer (\<open>JNum\<close>); any other number literal denotes a floating-point value, which
  is not interpreted here and is kept as its literal (\<open>JFloat\<close>).

  \<^verbatim>\<open>JSON.stringify\<close> and \<^verbatim>\<open>JSON.parse\<close> belong to the language, not to the repository. They
  are defined here on this type so that the adapter can be run on examples; what is not
  carried over from JavaScript is the rounding of numbers to doubles, code units beyond
  eight bits, and the place that JavaScript gives to integer-like keys in an object.
\<close>

datatype json =
    JNull
  | JBool bool
  | JNum int
  | JFloat string
  | JStr string
  | JArr "json list"
  | JObj "(string \<times> json) list"

abbreviation dquote :: char where
  "dquote \<equiv> CHR 0x22"

abbreviation backslash :: char where
  "backslash \<equiv> CHR 0x5C"

definition is_digit :: "char \<Rightarrow> bool" where
  "is_digit c = (48 \<le> (of_char c :: nat) \<and> (of_char c :: nat) \<le> 57)"

definition digit_char :: "nat \<Rightarrow> char" where
  "digit_char n = char_of (48 + n)"

definition digit_val :: "char \<Rightarrow> nat" where
  "digit_val c = of_char c - 48"

definition hex_digit :: "nat \<Rightarrow> char" where
  "hex_digit n = (if n < 10 then char_of (48 + n) else char_of (87 + n))"

definition hex_val :: "char \<Rightarrow> nat option" where
  "hex_val c =
     (let n = (of_char c :: nat) in
      if 48 \<le> n \<and> n \<le> 57 then Some (n - 48)
      else if 97 \<le> n \<and> n \<le> 102 then Some (n - 87)
      else if 65 \<le> n \<and> n \<le> 70 then Some (n - 55)
      else None)"

fun show_nat :: "nat \<Rightarrow> string" where
  "show_nat n = (if n < 10 then [digit_char n] else show_nat (n div 10) @ [digit_char (n mod 10)])"

declare show_nat.simps [simp del]

definition show_int :: "int \<Rightarrow> string" where
  "show_int i = (if i < 0 then CHR ''-'' # show_nat (nat (- i)) else show_nat (nat i))"

fun read_nat :: "nat \<Rightarrow> string \<Rightarrow> nat" where
  "read_nat acc [] = acc"
| "read_nat acc (c # cs) = read_nat (acc * 10 + digit_val c) cs"

fun join :: "'a list \<Rightarrow> 'a list list \<Rightarrow> 'a list" where
  "join sep [] = []"
| "join sep [x] = x"
| "join sep (x # y # ys) = x @ sep @ join sep (y # ys)"

text \<open>
  Quoting of a string by \<^verbatim>\<open>JSON.stringify\<close>: the quote, the backslash and the control
  characters are escaped, everything else is copied.
\<close>

definition escape_char :: "char \<Rightarrow> string" where
  "escape_char c =
     (if c = dquote then [backslash, dquote]
      else if c = backslash then [backslash, backslash]
      else if c = CHR 0x08 then [backslash, CHR ''b'']
      else if c = CHR 0x0C then [backslash, CHR ''f'']
      else if c = CHR 0x0A then [backslash, CHR ''n'']
      else if c = CHR 0x0D then [backslash, CHR ''r'']
      else if c = CHR 0x09 then [backslash, CHR ''t'']
      else if (of_char c :: nat) < 32 then
        [backslash, CHR ''u'', CHR ''0'', CHR ''0'',
         hex_digit (of_char c div 16), hex_digit (of_char c mod 16)]
      else [c])"

definition quote :: "string \<Rightarrow> string" where
  "quote s = dquote # concat (map escape_char s) @ [dquote]"

fun JSON_stringify :: "json \<Rightarrow> string" where
  "JSON_stringify JNull = ''null''"
| "JSON_stringify (JBool b) = (if b then ''true'' else ''false'')"
| "JSON_stringify (JNum i) = show_int i"
| "JSON_stringify (JFloat s) = s"
| "JSON_stringify (JStr s) = quote s"
| "JSON_stringify (JArr vs) = ''['' @ join '','' (map JSON_stringify vs) @ '']''"
| "JSON_stringify (JObj kvs) =
     ''{'' @ join '','' (map (\<lambda>p. quote (fst p) @ '':'' @ JSON_stringify (snd p)) kvs) @ ''}''"

text \<open>The parser. White space is space, tab, line feed and carriage return.\<close>

definition is_ws :: "char \<Rightarrow> bool" where
  "is_ws c = (c = CHR '' '' \<or> c = CHR 0x09 \<or> c = CHR 0x0A \<or> c = CHR 0x0D)"

definition skip_ws :: "string \<Rightarrow> string" where
  "skip_ws cs = dropWhile is_ws cs"

definition unescape :: "char \<Rightarrow> char option" where
  "unescape e =
     (if e = dquote then Some dquote
      else if e = backslash then Some backslash
      else if e = CHR ''/'' then Some (CHR ''/'')
      else if e = CHR ''b'' then Some (CHR 0x08)
      else if e = CHR ''f'' then Some (CHR 0x0C)
      else if e = CHR ''n'' then Some (CHR 0x0A)
      else if e = CHR ''r'' then Some (CHR 0x0D)
      else if e = CHR ''t'' then Some (CHR 0x09)
      else None)"

text \<open>
  \<open>parse_chars\<close> reads a string after its opening quote, up to the closing one. A code
  unit written \<^verbatim>\<open>\uXXXX\<close> is kept in the eight bits of a \<open>char\<close>.
\<close>

definition cons_fst :: "'a \<Rightarrow> ('a list \<times> 'b) option \<Rightarrow> ('a list \<times> 'b) option" where
  "cons_fst x r = (case r of None \<Rightarrow> None | Some (s, t) \<Rightarrow> Some (x # s, t))"

fun parse_chars :: "string \<Rightarrow> (string \<times> string) option" where
  "parse_chars [] = None"
| "parse_chars (c # cs) =
     (if c = dquote then Some ([], cs)
      else if c = backslash then
        (case cs of
           [] \<Rightarrow> None
         | e # r \<Rightarrow>
             (if e = CHR ''u'' then
                (case r of
                   h1 # h2 # h3 # h4 # r' \<Rightarrow>
                     (case (hex_val h1, hex_val h2, hex_val h3, hex_val h4) of
                        (Some a, Some b, Some c, Some d) \<Rightarrow>
                          cons_fst (char_of (((a * 16 + b) * 16 + c) * 16 + d)) (parse_chars r')
                      | _ \<Rightarrow> None)
                 | _ \<Rightarrow> None)
              else
                (case unescape e of
                   None \<Rightarrow> None
                 | Some x \<Rightarrow> cons_fst x (parse_chars r))))
      else if (of_char c :: nat) < 32 then None
      else cons_fst c (parse_chars cs))"

text \<open>
  A number: an optional minus, the integer part (\<^verbatim>\<open>0\<close> or a digit sequence that does
  not start with \<^verbatim>\<open>0\<close>), an optional fraction and an optional exponent.
\<close>

definition scan_int_part :: "string \<Rightarrow> (string \<times> string) option" where
  "scan_int_part cs =
     (case cs of
        [] \<Rightarrow> None
      | c # r \<Rightarrow>
          if c = CHR ''0'' then Some ([c], r)
          else if is_digit c then Some (takeWhile is_digit cs, dropWhile is_digit cs)
          else None)"

definition scan_frac :: "string \<Rightarrow> (string \<times> string) option" where
  "scan_frac cs =
     (case cs of
        c # r \<Rightarrow>
          if c = CHR ''.'' then
            (if takeWhile is_digit r = [] then None
             else Some (c # takeWhile is_digit r, dropWhile is_digit r))
          else Some ([], cs)
      | [] \<Rightarrow> Some ([], cs))"

definition scan_exp :: "string \<Rightarrow> (string \<times> string) option" where
  "scan_exp cs =
     (case cs of
        c # r \<Rightarrow>
          if c = CHR ''e'' \<or> c = CHR ''E'' then
            (let (sgn, r') =
                   (case r of
                      s # t \<Rightarrow> if s = CHR ''+'' \<or> s = CHR ''-'' then ([s], t) else ([], r)
                    | [] \<Rightarrow> ([], r))
             in if takeWhile is_digit r' = [] then None
                else Some (c # sgn @ takeWhile is_digit r', dropWhile is_digit r'))
          else Some ([], cs)
      | [] \<Rightarrow> Some ([], cs))"

definition parse_number :: "string \<Rightarrow> (json \<times> string) option" where
  "parse_number cs =
     (let (sgn, r0) = (case cs of c # r \<Rightarrow> if c = CHR ''-'' then ([c], r) else ([], cs) | [] \<Rightarrow> ([], cs))
      in case scan_int_part r0 of
           None \<Rightarrow> None
         | Some (ip, r1) \<Rightarrow>
             (case scan_frac r1 of
                None \<Rightarrow> None
              | Some (fp, r2) \<Rightarrow>
                  (case scan_exp r2 of
                     None \<Rightarrow> None
                   | Some (ep, r3) \<Rightarrow>
                       if fp = [] \<and> ep = [] then
                         Some (JNum (if sgn = [] then int (read_nat 0 ip) else - int (read_nat 0 ip)), r3)
                       else Some (JFloat (sgn @ ip @ fp @ ep), r3))))"

text \<open>
  \<open>obj_put\<close> defines a property while an object is read: a key read twice keeps its
  place and takes the later value.
\<close>

fun obj_put :: "(string \<times> json) list \<Rightarrow> string \<Rightarrow> json \<Rightarrow> (string \<times> json) list" where
  "obj_put [] k v = [(k, v)]"
| "obj_put (p # ps) k v = (if fst p = k then (k, v) # ps else p # obj_put ps k v)"

text \<open>
  The recursive descent over values, with fuel: every call spends one unit, and a text of
  \<open>n\<close> characters never needs more than \<open>2 * n + 2\<close>.
\<close>

fun parse_value :: "nat \<Rightarrow> string \<Rightarrow> (json \<times> string) option"
  and parse_elements :: "nat \<Rightarrow> json list \<Rightarrow> string \<Rightarrow> (json \<times> string) option"
  and parse_members :: "nat \<Rightarrow> (string \<times> json) list \<Rightarrow> string \<Rightarrow> (json \<times> string) option"
where
  "parse_value 0 cs = None"
| "parse_value (Suc n) cs =
     (case skip_ws cs of
        [] \<Rightarrow> None
      | c # r \<Rightarrow>
          if c = CHR ''{'' then
            (case skip_ws r of
               [] \<Rightarrow> None
             | d # r' \<Rightarrow> if d = CHR ''}'' then Some (JObj [], r') else parse_members n [] (d # r'))
          else if c = CHR ''['' then
            (case skip_ws r of
               [] \<Rightarrow> None
             | d # r' \<Rightarrow> if d = CHR '']'' then Some (JArr [], r') else parse_elements n [] (d # r'))
          else if c = dquote then
            (case parse_chars r of None \<Rightarrow> None | Some (s, r') \<Rightarrow> Some (JStr s, r'))
          else if take 4 (c # r) = ''true'' then Some (JBool True, drop 4 (c # r))
          else if take 5 (c # r) = ''false'' then Some (JBool False, drop 5 (c # r))
          else if take 4 (c # r) = ''null'' then Some (JNull, drop 4 (c # r))
          else parse_number (c # r))"
| "parse_elements 0 acc cs = None"
| "parse_elements (Suc n) acc cs =
     (case parse_value n cs of
        None \<Rightarrow> None
      | Some (v, r) \<Rightarrow>
          (case skip_ws r of
             [] \<Rightarrow> None
           | d # r' \<Rightarrow>
               if d = CHR '','' then parse_elements n (acc @ [v]) r'
               else if d = CHR '']'' then Some (JArr (acc @ [v]), r')
               else None))"
| "parse_members 0 acc cs = None"
| "parse_members (Suc n) acc cs =
     (case skip_ws cs of
        [] \<Rightarrow> None
      | q # r \<Rightarrow>
          if q \<noteq> dquote then None
          else
            (case parse_chars r of
               None \<Rightarrow> None
             | Some (k, r1) \<Rightarrow>
                 (case skip_ws r1 of
                    [] \<Rightarrow> None
                  | d # r2 \<Rightarrow>
                      if d \<noteq> CHR '':'' then None
                      else
                        (case parse_value n r2 of
                           None \<Rightarrow> None
                         | Some (v, r3) \<Rightarrow>
                             (case skip_ws r3 of
                                [] \<Rightarrow> None
                              | e # r4 \<Rightarrow>
                                  if e = CHR '','' then parse_members n (obj_put acc k v) r4
                                  else if e = CHR ''}'' then Some (JObj (obj_put acc k v), r4)
                                  else None)))))"

definition JSON_parse :: "string \<Rightarrow> json option" where
  "JSON_parse s =
     (case parse_value (2 * length s + 2) s of
        None \<Rightarrow> None
      | Some (v, r) \<Rightarrow> if skip_ws r = [] then Some v else None)"

text \<open>Truthiness of a JSON value, as the conditional operator tests it.\<close>

fun truthy :: "json \<Rightarrow> bool" where
  "truthy JNull = False"
| "truthy (JBool b) = b"
| "truthy (JNum i) = (i \<noteq> 0)"
| "truthy (JFloat s) =
     (filter (\<lambda>c. c \<in> set ''123456789'') (takeWhile (\<lambda>c. c \<noteq> CHR ''e'' \<and> c \<noteq> CHR ''E'') s) \<noteq> [])"
| "truthy (JStr s) = (s \<noteq> [])"
| "truthy (JArr vs) = True"
| "truthy (JObj kvs) = True"

section \<open>Records of the interface and rows of the tables\<close>

text \<open>
  The four record types of the \<^verbatim>\<open>Database\<close> interface, and one row type for each table
  created by \<^verbatim>\<open>open()\<close>. A column declared \<^verbatim>\<open>NOT NULL\<close> has its value, a nullable
  column an \<open>option\<close> (\<open>None\<close> is SQL NULL); \<^verbatim>\<open>createdAt\<close> is an INTEGER column.
\<close>

record Chat =
  chat_id :: string
  chat_name :: string
  chat_creatorID :: string
  chat_createdAt :: date

text \<open>\<^verbatim>\<open>Partial<Chat>\<close>, the argument of \<^verbatim>\<open>editChatByID\<close>.\<close>

record Partial_Chat =
  upd_id :: "string optional"
  upd_name :: "string optional"
  upd_creatorID :: "string optional"
  upd_createdAt :: "date optional"

record Message =
  msg_id :: string
  msg_chatID :: string
  msg_senderID :: string
  msg_replyTo :: "string optional"
  msg_threadID :: "string optional"
  msg_scene :: "string optional"
  msg_step :: "string optional"
  msg_body :: json
  msg_replyRestriction :: "json optional"
  msg_createdAt :: date

record ConfirmedStep =
  step_id :: string
  step_threadID :: string
  step_messageID :: string
  step_scene :: string
  step_step :: string
  step_createdAt :: date

record FileMeta =
  file_id :: string
  file_name :: string
  file_size :: int
  file_mimeType :: string
  file_createdAt :: date

record chats_row =
  chats_id :: string
  chats_name :: string
  chats_creatorID :: string
  chats_createdAt :: int

record messages_row =
  messages_id :: string
  messages_chatID :: string
  messages_senderID :: string
  messages_replyTo :: "string option"
  messages_threadID :: "string option"
  messages_scene :: "string option"
  messages_step :: "string option"
  messages_body :: string
  messages_replyRestriction :: "string option"
  messages_createdAt :: int

record confirmed_steps_row =
  confirmed_steps_id :: string
  confirmed_steps_threadID :: string
  confirmed_steps_messageID :: string
  confirmed_steps_scene :: string
  confirmed_steps_step :: string
  confirmed_steps_createdAt :: int

record files_row =
  files_id :: string
  files_name :: string
  files_size :: int
  files_mimeType :: string
  files_createdAt :: int

text \<open>The content of the data file: each table is the list of its rows in rowid order.\<close>

record tables =
  chats :: "chats_row list"
  messages :: "messages_row list"
  confirmed_steps :: "confirmed_steps_row list"
  files :: "files_row list"

definition empty_tables :: tables where
  "empty_tables = \<lparr>chats = [], messages = [], confirmed_steps = [], files = []\<rparr>"

section \<open>Errors and the adapter's state\<close>

text \<open>
  \<open>Error msg\<close> is \<^verbatim>\<open>new Error(msg)\<close>, thrown by the adapter itself; \<open>SyntaxError\<close> is
  what \<^verbatim>\<open>JSON.parse\<close> throws; \<open>SqliteError code\<close> is an error of the engine.
\<close>

datatype error = Error string | SyntaxError | SqliteError string

datatype connection = Connection

text \<open>
  The fields \<open>dbPath\<close>, \<open>pragmas\<close>, \<open>db\<close> and \<open>isOpen\<close> are those of the class.
  The other three describe the engine: \<open>store\<close> is the content of the data file,
  \<open>log\<close> lists what was sent to the engine, in order (the key of a prepared statement
  each time it is executed, the text of any other statement), and \<open>faults\<close> says which
  of the coming statement executions fail with SQLITE_BUSY (\<open>True\<close>: that one fails;
  once the list is used up none fails).
\<close>

record SqliteDatabase =
  dbPath :: string
  pragmas :: "string list"
  db :: "connection option"
  isOpen :: bool
  store :: tables
  log :: "string list"
  faults :: "bool list"

type_synonym 'a outcome = "(error + 'a) \<times> SqliteDatabase"

definition default_pragmas :: "string list" where
  "default_pragmas =
     [''journal_mode = WAL'', ''synchronous = NORMAL'', ''cache_size = -2000'', ''busy_timeout = 5000'']"

text \<open>The constructor, on the data file \<open>t\<close> found at the path.\<close>

definition new_SqliteDatabase :: "string \<Rightarrow> string list option \<Rightarrow> tables \<Rightarrow> SqliteDatabase" where
  "new_SqliteDatabase path prag t =
     \<lparr>dbPath = path,
      pragmas = (case prag of None \<Rightarrow> default_pragmas | Some ps \<Rightarrow> if ps = [] then default_pragmas else ps),
      db = None, isOpen = False, store = t, log = [], faults = []\<rparr>"

subsection \<open>The engine\<close>

text \<open>
  The engine is SQLite behind better-sqlite3. It is not part of the repository; it is
  described by what each statement of \<^verbatim>\<open>prepareStatements\<close> does to the tables:
  \<^item> an INSERT checks \<^verbatim>\<open>NOT NULL\<close> and the primary key and appends a row;
  \<^item> a SELECT gives its rows in the order of the index it is answered from: by id for
    \<^verbatim>\<open>id IN (...)\<close> (the primary key), by \<^verbatim>\<open>createdAt\<close> and then rowid for
    \<^verbatim>\<open>createdAt < ?\<close> on files, and for \<^verbatim>\<open>ORDER BY createdAt DESC\<close> alone from the latest
    \<^verbatim>\<open>createdAt\<close> and, among equal ones, the latest rowid;
  \<^item> text is compared bytewise;
  \<^item> a statement takes at most 32766 parameters (\<open>max_parameters\<close>); a statement with
    more is refused when it is prepared. This is described for the DELETE of
    \<^verbatim>\<open>deleteOldFiles\<close>, whose parameters are the ids that the adapter itself has just read;
    the two batch reads are described for the lists the engine accepts;
  \<^item> a limit and an offset are integers that fit 64 bits;
  \<^item> \<open>dbPath\<close> names a file, and opening it, the pragmas, the schema statements and
    \<^verbatim>\<open>prepare\<close> of the fixed statements do not fail;
  \<^item> any execution of a statement may fail with SQLITE_BUSY, as \<open>faults\<close> says, and
    then changes nothing.

  One execution of a statement: it is logged, and it consumes the head of \<open>faults\<close>.
  The result is whether the engine carried it out.
\<close>

definition engine_call :: "string \<Rightarrow> SqliteDatabase \<Rightarrow> bool \<times> SqliteDatabase" where
  "engine_call q s =
     (case faults s of
        [] \<Rightarrow> (True, s\<lparr>log := log s @ [q]\<rparr>)
      | f # fs \<Rightarrow> (\<not> f, s\<lparr>log := log s @ [q], faults := fs\<rparr>))"

definition busy :: error where
  "busy = SqliteError ''SQLITE_BUSY''"

text \<open>A statement that reads, and a statement that may write or violate a constraint.\<close>

definition stmt_read :: "string \<Rightarrow> (tables \<Rightarrow> 'a) \<Rightarrow> SqliteDatabase \<Rightarrow> 'a outcome" where
  "stmt_read q f s =
     (case engine_call q s of
        (True, s') \<Rightarrow> (Inr (f (store s)), s')
      | (False, s') \<Rightarrow> (Inl busy, s'))"

definition stmt_write :: "string \<Rightarrow> (tables \<Rightarrow> error + 'a \<times> tables) \<Rightarrow> SqliteDatabase \<Rightarrow> 'a outcome" where
  "stmt_write q f s =
     (case engine_call q s of
        (False, s') \<Rightarrow> (Inl busy, s')
      | (True, s') \<Rightarrow>
          (case f (store s) of
             Inl e \<Rightarrow> (Inl e, s')
           | Inr (a, t) \<Rightarrow> (Inr a, s'\<lparr>store := t\<rparr>)))"

definition max_parameters :: nat where
  "max_parameters = 32766"

definition too_many_variables :: error where
  "too_many_variables = SqliteError ''SQLITE_ERROR''"

text \<open>
  Ordering rows: insertion sort by a comparison; rows that compare equal keep the order
  they had.
\<close>

fun insert_by :: "('a \<Rightarrow> 'a \<Rightarrow> bool) \<Rightarrow> 'a \<Rightarrow> 'a list \<Rightarrow> 'a list" where
  "insert_by le x [] = [x]"
| "insert_by le x (y # ys) = (if le x y then x # y # ys else y # insert_by le x ys)"

definition order_by :: "('a \<Rightarrow> 'a \<Rightarrow> bool) \<Rightarrow> 'a list \<Rightarrow> 'a list" where
  "order_by le xs = foldr (insert_by le) xs []"

text \<open>
  \<^verbatim>\<open>LIMIT ? OFFSET ?\<close>: a negative offset counts as 0, a negative limit as no limit.
\<close>

definition limit_offset :: "int \<Rightarrow> int \<Rightarrow> 'a list \<Rightarrow> 'a list" where
  "limit_offset lim off xs =
     (let ys = drop (nat off) xs in if lim < 0 then ys else take (nat lim) ys)"

text \<open>\<^verbatim>\<open>coalesce(?, column)\<close>.\<close>

fun coalesce :: "'a option \<Rightarrow> 'a \<Rightarrow> 'a" where
  "coalesce (Some v) old = v"
| "coalesce None old = old"

text \<open>\<^verbatim>\<open>column < ?\<close> in a WHERE clause: a comparison with NULL selects no row.\<close>

fun less_param :: "int \<Rightarrow> int option \<Rightarrow> bool" where
  "less_param c (Some t) = (c < t)"
| "less_param c None = False"

definition not_null :: error where
  "not_null = SqliteError ''SQLITE_CONSTRAINT_NOTNULL''"

definition primary_key :: error where
  "primary_key = SqliteError ''SQLITE_CONSTRAINT_PRIMARYKEY''"

text \<open>
  The statements on \<^verbatim>\<open>chats\<close>:
  \<^verbatim>\<open>INSERT INTO chats (id, name, creatorID, createdAt) VALUES (?, ?, ?, ?)\<close>,
  \<^verbatim>\<open>SELECT * FROM chats WHERE id = ?\<close> (first row),
  \<^verbatim>\<open>SELECT * FROM chats WHERE creatorID = ? ORDER BY createdAt DESC LIMIT ? OFFSET ?\<close>,
  \<^verbatim>\<open>SELECT COUNT(1) as c FROM chats WHERE creatorID = ?\<close>,
  \<^verbatim>\<open>UPDATE chats SET name = coalesce(?, name), creatorID = coalesce(?, creatorID),
  createdAt = coalesce(?, createdAt) WHERE id = ?\<close>,
  \<^verbatim>\<open>DELETE FROM chats WHERE id = ? RETURNING id, name, creatorID, createdAt\<close> (first row
  returned) and \<^verbatim>\<open>DELETE FROM chats WHERE id = ?\<close>.
\<close>

definition sql_addChat :: "string \<Rightarrow> string \<Rightarrow> string \<Rightarrow> int option \<Rightarrow> tables \<Rightarrow> error + unit \<times> tables" where
  "sql_addChat i n c t T =
     (case t of
        None \<Rightarrow> Inl not_null
      | Some ms \<Rightarrow>
          if i \<in> set (map chats_id (chats T)) then Inl primary_key
          else Inr ((), T\<lparr>chats := chats T @
                 [\<lparr>chats_id = i, chats_name = n, chats_creatorID = c, chats_createdAt = ms\<rparr>]\<rparr>))"

definition sql_getChatByID :: "string \<Rightarrow> tables \<Rightarrow> chats_row option" where
  "sql_getChatByID i T = find (\<lambda>r. chats_id r = i) (chats T)"

definition sql_getChatsByCreatorID :: "string \<Rightarrow> int \<Rightarrow> int \<Rightarrow> tables \<Rightarrow> chats_row list" where
  "sql_getChatsByCreatorID c lim off T =
     limit_offset lim off
       (rev (order_by (\<lambda>a b. chats_createdAt a \<le> chats_createdAt b)
          (filter (\<lambda>r. chats_creatorID r = c) (chats T))))"

definition sql_countChatsByCreatorID :: "string \<Rightarrow> tables \<Rightarrow> nat" where
  "sql_countChatsByCreatorID c T = length (filter (\<lambda>r. chats_creatorID r = c) (chats T))"

definition sql_editChatByID ::
  "string option \<Rightarrow> string option \<Rightarrow> int option \<Rightarrow> string \<Rightarrow> tables \<Rightarrow> error + unit \<times> tables" where
  "sql_editChatByID n c t i T =
     Inr ((), T\<lparr>chats := map (\<lambda>r. if chats_id r = i
                  then r\<lparr>chats_name := coalesce n (chats_name r),
                         chats_creatorID := coalesce c (chats_creatorID r),
                         chats_createdAt := coalesce t (chats_createdAt r)\<rparr>
                  else r) (chats T)\<rparr>)"

definition sql_deleteChatByID :: "string \<Rightarrow> tables \<Rightarrow> error + chats_row option \<times> tables" where
  "sql_deleteChatByID i T =
     Inr (find (\<lambda>r. chats_id r = i) (chats T),
          T\<lparr>chats := filter (\<lambda>r. chats_id r \<noteq> i) (chats T)\<rparr>)"

definition sql_delete_chat :: "string \<Rightarrow> tables \<Rightarrow> error + unit \<times> tables" where
  "sql_delete_chat i T = Inr ((), T\<lparr>chats := filter (\<lambda>r. chats_id r \<noteq> i) (chats T)\<rparr>)"

section \<open>The adapter\<close>

definition closed :: error where
  "closed = Error ''DB closed''"

definition rowToChat :: "chats_row \<Rightarrow> Chat" where
  "rowToChat row =
     \<lparr>chat_id = chats_id row, chat_name = chats_name row,
      chat_creatorID = chats_creatorID row, chat_createdAt = new_Date (chats_createdAt row)\<rparr>"

definition addChat :: "Chat \<Rightarrow> SqliteDatabase \<Rightarrow> unit outcome" where
  "addChat chat s =
     (if db s = None then (Inl closed, s)
      else stmt_write ''addChat''
             (sql_addChat (chat_id chat) (chat_name chat) (chat_creatorID chat) (getTime (chat_createdAt chat))) s)"

definition getChatByID :: "string \<Rightarrow> SqliteDatabase \<Rightarrow> Chat option outcome" where
  "getChatByID i s =
     (if db s = None then (Inl closed, s)
      else case stmt_read ''getChatByID'' (sql_getChatByID i) s of
             (Inl e, s') \<Rightarrow> (Inl e, s')
           | (Inr row, s') \<Rightarrow> (Inr (map_option rowToChat row), s'))"

definition getChatsByCreatorID :: "string \<Rightarrow> int option \<Rightarrow> int option \<Rightarrow> SqliteDatabase \<Rightarrow> Chat list outcome" where
  "getChatsByCreatorID creatorID offset limit s =
     (let off = (case offset of None \<Rightarrow> 0 | Some x \<Rightarrow> x);
          lim = (case limit of None \<Rightarrow> 50 | Some x \<Rightarrow> x)
      in if db s = None then (Inl closed, s)
         else case stmt_read ''getChatsByCreatorID'' (sql_getChatsByCreatorID creatorID lim off) s of
                (Inl e, s') \<Rightarrow> (Inl e, s')
              | (Inr rows, s') \<Rightarrow> (Inr (map rowToChat rows), s'))"

definition countChatsByCreatorID :: "string \<Rightarrow> SqliteDatabase \<Rightarrow> nat outcome" where
  "countChatsByCreatorID creatorID s =
     (if db s = None then (Inl closed, s)
      else stmt_read ''countChatsByCreatorID'' (sql_countChatsByCreatorID creatorID) s)"

definition editChatByID :: "string \<Rightarrow> Partial_Chat \<Rightarrow> SqliteDatabase \<Rightarrow> Chat option outcome" where
  "editChatByID i updated s =
     (if db s = None then (Inl closed, s)
      else
        let createdAt = (case upd_createdAt updated of Value d \<Rightarrow> getTime d | _ \<Rightarrow> None)
        in case stmt_write ''editChatByID''
                  (sql_editChatByID (or_null (upd_name updated)) (or_null (upd_creatorID updated)) createdAt i) s of
             (Inl e, s') \<Rightarrow> (Inl e, s')
           | (Inr _, s') \<Rightarrow> getChatByID i s')"

text \<open>
  \<^verbatim>\<open>deleteChatByID\<close>: the \<^verbatim>\<open>try\<close> block runs the prepared DELETE ... RETURNING; when
  that throws, the \<^verbatim>\<open>catch\<close> block selects the chat and deletes it with a new statement.
\<close>

definition deleteChatByID :: "string \<Rightarrow> SqliteDatabase \<Rightarrow> Chat option outcome" where
  "deleteChatByID i s =
     (if db s = None then (Inl closed, s)
      else case stmt_write ''deleteChatByID'' (sql_deleteChatByID i) s of
             (Inr row, s1) \<Rightarrow> (Inr (map_option rowToChat row), s1)
           | (Inl _, s1) \<Rightarrow>
               (case getChatByID i s1 of
                  (Inl e, s2) \<Rightarrow> (Inl e, s2)
                | (Inr None, s2) \<Rightarrow> (Inr None, s2)
                | (Inr (Some chat), s2) \<Rightarrow>
                    (case stmt_write ''DELETE FROM chats WHERE id = ?'' (sql_delete_chat i) s2 of
                       (Inl e, s3) \<Rightarrow> (Inl e, s3)
                     | (Inr _, s3) \<Rightarrow> (Inr (Some chat), s3))))"

subsection \<open>Messages\<close>

text \<open>
  The statements on \<^verbatim>\<open>messages\<close>:
  \<^verbatim>\<open>INSERT INTO messages(id, chatID, senderID, replyTo, threadID, scene, step, body,
  replyRestriction, createdAt) VALUES (?, ?, ?, ?, ?, ?, ?, ?, ?, ?)\<close>,
  \<^verbatim>\<open>SELECT * FROM messages WHERE id = ?\<close> (first row),
  \<^verbatim>\<open>SELECT * FROM messages WHERE id IN (?,...)\<close>,
  \<^verbatim>\<open>SELECT * FROM messages WHERE chatID = ? ORDER BY createdAt DESC, id DESC LIMIT ? OFFSET ?\<close>,
  \<^verbatim>\<open>DELETE FROM messages WHERE createdAt < ?\<close> and
  \<^verbatim>\<open>DELETE FROM messages WHERE chatID = ?\<close>; the last two give the number of rows
  deleted (\<^verbatim>\<open>changes\<close>). The rows of \<^verbatim>\<open>id IN (...)\<close> come in id order.
\<close>

definition sql_addMessage ::
  "string \<Rightarrow> string \<Rightarrow> string \<Rightarrow> string option \<Rightarrow> string option \<Rightarrow> string option \<Rightarrow> string option \<Rightarrow>
   string \<Rightarrow> string option \<Rightarrow> int option \<Rightarrow> tables \<Rightarrow> error + unit \<times> tables" where
  "sql_addMessage i chatID senderID replyTo threadID scene step body restriction t T =
     (case t of
        None \<Rightarrow> Inl not_null
      | Some ms \<Rightarrow>
          if i \<in> set (map messages_id (messages T)) then Inl primary_key
          else Inr ((), T\<lparr>messages := messages T @
                 [\<lparr>messages_id = i, messages_chatID = chatID, messages_senderID = senderID,
                   messages_replyTo = replyTo, messages_threadID = threadID,
                   messages_scene = scene, messages_step = step, messages_body = body,
                   messages_replyRestriction = restriction, messages_createdAt = ms\<rparr>]\<rparr>))"

definition sql_getMessageByID :: "string \<Rightarrow> tables \<Rightarrow> messages_row option" where
  "sql_getMessageByID i T = find (\<lambda>r. messages_id r = i) (messages T)"

definition sql_getMessagesByIDs :: "string list \<Rightarrow> tables \<Rightarrow> messages_row list" where
  "sql_getMessagesByIDs ids T =
     order_by (\<lambda>a b. messages_id a \<le> messages_id b)
       (filter (\<lambda>r. messages_id r \<in> set ids) (messages T))"

definition message_order :: "messages_row \<Rightarrow> messages_row \<Rightarrow> bool" where
  "message_order a b =
     (messages_createdAt a > messages_createdAt b \<or>
      (messages_createdAt a = messages_createdAt b \<and> messages_id a \<ge> messages_id b))"

definition sql_getMessagesByChatID :: "string \<Rightarrow> int \<Rightarrow> int \<Rightarrow> tables \<Rightarrow> messages_row list" where
  "sql_getMessagesByChatID c lim off T =
     limit_offset lim off (order_by message_order (filter (\<lambda>r. messages_chatID r = c) (messages T)))"

definition sql_deleteOldMessages :: "int option \<Rightarrow> tables \<Rightarrow> error + nat \<times> tables" where
  "sql_deleteOldMessages t T =
     Inr (length (filter (\<lambda>r. less_param (messages_createdAt r) t) (messages T)),
          T\<lparr>messages := filter (\<lambda>r. \<not> less_param (messages_createdAt r) t) (messages T)\<rparr>)"

definition sql_deleteMessagesByChatID :: "string \<Rightarrow> tables \<Rightarrow> error + nat \<times> tables" where
  "sql_deleteMessagesByChatID c T =
     Inr (length (filter (\<lambda>r. messages_chatID r = c) (messages T)),
          T\<lparr>messages := filter (\<lambda>r. messages_chatID r \<noteq> c) (messages T)\<rparr>)"

text \<open>
  \<^verbatim>\<open>rowToMessage\<close>: the properties are computed in the order written, so the body is
  parsed before the reply restriction, and either parse may throw.
\<close>

definition rowToMessage :: "messages_row \<Rightarrow> error + Message" where
  "rowToMessage row =
     (case JSON_parse (messages_body row) of
        None \<Rightarrow> Inl SyntaxError
      | Some body \<Rightarrow>
          (case (case messages_replyRestriction row of
                   None \<Rightarrow> Inr Undefined
                 | Some txt \<Rightarrow>
                     if txt = [] then Inr Undefined
                     else (case JSON_parse txt of None \<Rightarrow> Inl SyntaxError | Some r \<Rightarrow> Inr (Value r))) of
             Inl e \<Rightarrow> Inl e
           | Inr restriction \<Rightarrow>
               Inr \<lparr>msg_id = messages_id row, msg_chatID = messages_chatID row,
                    msg_senderID = messages_senderID row,
                    msg_replyTo = or_undefined (messages_replyTo row),
                    msg_threadID = as_is (messages_threadID row),
                    msg_scene = or_undefined (messages_scene row),
                    msg_step = or_undefined (messages_step row),
                    msg_body = body, msg_replyRestriction = restriction,
                    msg_createdAt = new_Date (messages_createdAt row)\<rparr>))"

text \<open>\<^verbatim>\<open>rows.map(r => f(r))\<close> for an \<open>f\<close> that may throw: the first exception ends it.\<close>

fun map_rows :: "('a \<Rightarrow> error + 'b) \<Rightarrow> 'a list \<Rightarrow> error + 'b list" where
  "map_rows f [] = Inr []"
| "map_rows f (x # xs) =
     (case f x of
        Inl e \<Rightarrow> Inl e
      | Inr y \<Rightarrow> (case map_rows f xs of Inl e \<Rightarrow> Inl e | Inr ys \<Rightarrow> Inr (y # ys)))"

text \<open>The condition \<^verbatim>\<open>msg.replyRestriction ? ... : null\<close>.\<close>

fun restriction_param :: "json optional \<Rightarrow> string option" where
  "restriction_param (Value r) = (if truthy r then Some (JSON_stringify r) else None)"
| "restriction_param Undefined = None"
| "restriction_param Null = None"

definition addMessage :: "Message \<Rightarrow> SqliteDatabase \<Rightarrow> unit outcome" where
  "addMessage msg s =
     (if db s = None then (Inl closed, s)
      else stmt_write ''addMessage''
             (sql_addMessage (msg_id msg) (msg_chatID msg) (msg_senderID msg)
                (or_null (msg_replyTo msg)) (or_null (msg_threadID msg))
                (or_null (msg_scene msg)) (or_null (msg_step msg))
                (JSON_stringify (msg_body msg))
                (restriction_param (msg_replyRestriction msg))
                (getTime (msg_createdAt msg))) s)"

definition getMessageByID :: "string \<Rightarrow> SqliteDatabase \<Rightarrow> Message option outcome" where
  "getMessageByID i s =
     (if db s = None then (Inl closed, s)
      else case stmt_read ''getMessageByID'' (sql_getMessageByID i) s of
             (Inl e, s') \<Rightarrow> (Inl e, s')
           | (Inr None, s') \<Rightarrow> (Inr None, s')
           | (Inr (Some row), s') \<Rightarrow>
               (case rowToMessage row of Inl e \<Rightarrow> (Inl e, s') | Inr m \<Rightarrow> (Inr (Some m), s')))"

text \<open>The placeholders \<^verbatim>\<open>ids.map(() => "?").join(",")\<close>.\<close>

definition placeholders :: "'a list \<Rightarrow> string" where
  "placeholders ids = join '','' (map (\<lambda>_. ''?'') ids)"

definition getMessagesByIDs :: "string list \<Rightarrow> SqliteDatabase \<Rightarrow> Message list outcome" where
  "getMessagesByIDs ids s =
     (if db s = None then (Inl closed, s)
      else if length ids = 0 then (Inr [], s)
      else case stmt_read (''SELECT * FROM messages WHERE id IN ('' @ placeholders ids @ '')'')
                  (sql_getMessagesByIDs ids) s of
             (Inl e, s') \<Rightarrow> (Inl e, s')
           | (Inr rows, s') \<Rightarrow> (map_rows rowToMessage rows, s'))"

definition getMessagesByChatID :: "string \<Rightarrow> int option \<Rightarrow> int option \<Rightarrow> SqliteDatabase \<Rightarrow> Message list outcome" where
  "getMessagesByChatID chatID offset limit s =
     (let off = (case offset of None \<Rightarrow> 0 | Some x \<Rightarrow> x);
          lim = (case limit of None \<Rightarrow> 100 | Some x \<Rightarrow> x)
      in if db s = None then (Inl closed, s)
         else case stmt_read ''getMessagesByChatID'' (sql_getMessagesByChatID chatID lim off) s of
                (Inl e, s') \<Rightarrow> (Inl e, s')
              | (Inr rows, s') \<Rightarrow> (map_rows rowToMessage rows, s'))"

definition deleteOldMessages :: "date \<Rightarrow> SqliteDatabase \<Rightarrow> nat outcome" where
  "deleteOldMessages maxDate s =
     (if db s = None then (Inl closed, s)
      else stmt_write ''deleteOldMessages'' (sql_deleteOldMessages (getTime maxDate)) s)"

definition deleteMessagesByChatID :: "string \<Rightarrow> SqliteDatabase \<Rightarrow> nat outcome" where
  "deleteMessagesByChatID chatID s =
     (if db s = None then (Inl closed, s)
      else stmt_write ''deleteMessagesByChatID'' (sql_deleteMessagesByChatID chatID) s)"

subsection \<open>Confirmed steps\<close>

text \<open>
  \<^verbatim>\<open>INSERT INTO confirmed_steps(id, threadID, messageID, scene, step, createdAt)
  VALUES (?, ?, ?, ?, ?, ?)\<close>,
  \<^verbatim>\<open>SELECT * FROM confirmed_steps WHERE threadID = ? ORDER BY createdAt DESC\<close> and
  \<^verbatim>\<open>DELETE FROM confirmed_steps WHERE createdAt < ?\<close>.
\<close>

definition sql_addConfirmedStep ::
  "string \<Rightarrow> string \<Rightarrow> string \<Rightarrow> string \<Rightarrow> string \<Rightarrow> int option \<Rightarrow> tables \<Rightarrow> error + unit \<times> tables" where
  "sql_addConfirmedStep i threadID messageID scene step t T =
     (case t of
        None \<Rightarrow> Inl not_null
      | Some ms \<Rightarrow>
          if i \<in> set (map confirmed_steps_id (confirmed_steps T)) then Inl primary_key
          else Inr ((), T\<lparr>confirmed_steps := confirmed_steps T @
                 [\<lparr>confirmed_steps_id = i, confirmed_steps_threadID = threadID,
                   confirmed_steps_messageID = messageID, confirmed_steps_scene = scene,
                   confirmed_steps_step = step, confirmed_steps_createdAt = ms\<rparr>]\<rparr>))"

definition sql_getConfirmedStepsByThreadID :: "string \<Rightarrow> tables \<Rightarrow> confirmed_steps_row list" where
  "sql_getConfirmedStepsByThreadID th T =
     rev (order_by (\<lambda>a b. confirmed_steps_createdAt a \<le> confirmed_steps_createdAt b)
       (filter (\<lambda>r. confirmed_steps_threadID r = th) (confirmed_steps T)))"

definition sql_deleteOldConfirmedSteps :: "int option \<Rightarrow> tables \<Rightarrow> error + nat \<times> tables" where
  "sql_deleteOldConfirmedSteps t T =
     Inr (length (filter (\<lambda>r. less_param (confirmed_steps_createdAt r) t) (confirmed_steps T)),
          T\<lparr>confirmed_steps := filter (\<lambda>r. \<not> less_param (confirmed_steps_createdAt r) t) (confirmed_steps T)\<rparr>)"

definition rowToConfirmedStep :: "confirmed_steps_row \<Rightarrow> ConfirmedStep" where
  "rowToConfirmedStep row =
     \<lparr>step_id = confirmed_steps_id row, step_threadID = confirmed_steps_threadID row,
      step_messageID = confirmed_steps_messageID row, step_scene = confirmed_steps_scene row,
      step_step = confirmed_steps_step row, step_createdAt = new_Date (confirmed_steps_createdAt row)\<rparr>"

definition addConfirmedStep :: "ConfirmedStep \<Rightarrow> SqliteDatabase \<Rightarrow> unit outcome" where
  "addConfirmedStep step s =
     (if db s = None then (Inl closed, s)
      else stmt_write ''addConfirmedStep''
             (sql_addConfirmedStep (step_id step) (step_threadID step) (step_messageID step)
                (step_scene step) (step_step step) (getTime (step_createdAt step))) s)"

definition getConfirmedStepsByThreadID :: "string \<Rightarrow> SqliteDatabase \<Rightarrow> ConfirmedStep list outcome" where
  "getConfirmedStepsByThreadID threadID s =
     (if db s = None then (Inl closed, s)
      else case stmt_read ''getConfirmedStepsByThreadID'' (sql_getConfirmedStepsByThreadID threadID) s of
             (Inl e, s') \<Rightarrow> (Inl e, s')
           | (Inr rows, s') \<Rightarrow> (Inr (map rowToConfirmedStep rows), s'))"

definition deleteOldConfirmedSteps :: "date \<Rightarrow> SqliteDatabase \<Rightarrow> nat outcome" where
  "deleteOldConfirmedSteps maxDate s =
     (if db s = None then (Inl closed, s)
      else stmt_write ''deleteOldConfirmedSteps'' (sql_deleteOldConfirmedSteps (getTime maxDate)) s)"

subsection \<open>Files\<close>

text \<open>
  \<^verbatim>\<open>INSERT INTO files(id, name, size, mimeType, createdAt) VALUES (?, ?, ?, ?, ?)\<close>,
  \<^verbatim>\<open>SELECT * FROM files WHERE id = ?\<close> (first row),
  \<^verbatim>\<open>SELECT * FROM files WHERE id IN (?,...)\<close>,
  \<^verbatim>\<open>DELETE FROM files WHERE id = ? RETURNING id, name, size, mimeType, createdAt\<close>
  (first row returned), \<^verbatim>\<open>DELETE FROM files WHERE id = ?\<close>,
  \<^verbatim>\<open>SELECT id FROM files WHERE createdAt < ?\<close> and \<^verbatim>\<open>DELETE FROM files WHERE id IN (?,...)\<close>.
\<close>

definition sql_addFile ::
  "string \<Rightarrow> string \<Rightarrow> int \<Rightarrow> string \<Rightarrow> int option \<Rightarrow> tables \<Rightarrow> error + unit \<times> tables" where
  "sql_addFile i n sz mimeType t T =
     (case t of
        None \<Rightarrow> Inl not_null
      | Some ms \<Rightarrow>
          if i \<in> set (map files_id (files T)) then Inl primary_key
          else Inr ((), T\<lparr>files := files T @
                 [\<lparr>files_id = i, files_name = n, files_size = sz, files_mimeType = mimeType,
                   files_createdAt = ms\<rparr>]\<rparr>))"

definition sql_getFileByID :: "string \<Rightarrow> tables \<Rightarrow> files_row option" where
  "sql_getFileByID i T = find (\<lambda>r. files_id r = i) (files T)"

definition sql_getFilesByIDs :: "string list \<Rightarrow> tables \<Rightarrow> files_row list" where
  "sql_getFilesByIDs ids T =
     order_by (\<lambda>a b. files_id a \<le> files_id b) (filter (\<lambda>r. files_id r \<in> set ids) (files T))"

definition sql_deleteFileByID :: "string \<Rightarrow> tables \<Rightarrow> error + files_row option \<times> tables" where
  "sql_deleteFileByID i T =
     Inr (find (\<lambda>r. files_id r = i) (files T),
          T\<lparr>files := filter (\<lambda>r. files_id r \<noteq> i) (files T)\<rparr>)"

definition sql_delete_file :: "string \<Rightarrow> tables \<Rightarrow> error + unit \<times> tables" where
  "sql_delete_file i T = Inr ((), T\<lparr>files := filter (\<lambda>r. files_id r \<noteq> i) (files T)\<rparr>)"

definition sql_deleteOldFiles :: "int option \<Rightarrow> tables \<Rightarrow> string list" where
  "sql_deleteOldFiles t T =
     map files_id
       (order_by (\<lambda>a b. files_createdAt a \<le> files_createdAt b)
          (filter (\<lambda>r. less_param (files_createdAt r) t) (files T)))"

definition sql_delete_files :: "string list \<Rightarrow> tables \<Rightarrow> error + unit \<times> tables" where
  "sql_delete_files ids T =
     (if length ids > max_parameters then Inl too_many_variables
      else Inr ((), T\<lparr>files := filter (\<lambda>r. files_id r \<notin> set ids) (files T)\<rparr>))"

definition rowToFile :: "files_row \<Rightarrow> FileMeta" where
  "rowToFile row =
     \<lparr>file_id = files_id row, file_name = files_name row, file_size = files_size row,
      file_mimeType = files_mimeType row, file_createdAt = new_Date (files_createdAt row)\<rparr>"

definition addFile :: "FileMeta \<Rightarrow> SqliteDatabase \<Rightarrow> unit outcome" where
  "addFile data s =
     (if db s = None then (Inl closed, s)
      else stmt_write ''addFile''
             (sql_addFile (file_id data) (file_name data) (file_size data) (file_mimeType data)
                (getTime (file_createdAt data))) s)"

definition getFileByID :: "string \<Rightarrow> SqliteDatabase \<Rightarrow> FileMeta option outcome" where
  "getFileByID i s =
     (if db s = None then (Inl closed, s)
      else case stmt_read ''getFileByID'' (sql_getFileByID i) s of
             (Inl e, s') \<Rightarrow> (Inl e, s')
           | (Inr row, s') \<Rightarrow> (Inr (map_option rowToFile row), s'))"

definition getFilesByIDs :: "string list \<Rightarrow> SqliteDatabase \<Rightarrow> FileMeta list outcome" where
  "getFilesByIDs ids s =
     (if db s = None then (Inl closed, s)
      else if length ids = 0 then (Inr [], s)
      else case stmt_read (''SELECT * FROM files WHERE id IN ('' @ placeholders ids @ '')'')
                  (sql_getFilesByIDs ids) s of
             (Inl e, s') \<Rightarrow> (Inl e, s')
           | (Inr rows, s') \<Rightarrow> (Inr (map rowToFile rows), s'))"

definition deleteFileByID :: "string \<Rightarrow> SqliteDatabase \<Rightarrow> FileMeta option outcome" where
  "deleteFileByID i s =
     (if db s = None then (Inl closed, s)
      else case stmt_write ''deleteFileByID'' (sql_deleteFileByID i) s of
             (Inr row, s1) \<Rightarrow> (Inr (map_option rowToFile row), s1)
           | (Inl _, s1) \<Rightarrow>
               (case getFileByID i s1 of
                  (Inl e, s2) \<Rightarrow> (Inl e, s2)
                | (Inr None, s2) \<Rightarrow> (Inr None, s2)
                | (Inr (Some file), s2) \<Rightarrow>
                    (case stmt_write ''DELETE FROM files WHERE id = ?'' (sql_delete_file i) s2 of
                       (Inl e, s3) \<Rightarrow> (Inl e, s3)
                     | (Inr _, s3) \<Rightarrow> (Inr (Some file), s3))))"

definition deleteOldFiles :: "date \<Rightarrow> SqliteDatabase \<Rightarrow> string list outcome" where
  "deleteOldFiles maxDate s =
     (if db s = None then (Inl closed, s)
      else case stmt_read ''deleteOldFiles'' (sql_deleteOldFiles (getTime maxDate)) s of
             (Inl e, s1) \<Rightarrow> (Inl e, s1)
           | (Inr ids, s1) \<Rightarrow>
               if length ids \<noteq> 0 then
                 (case stmt_write (''DELETE FROM files WHERE id IN ('' @ placeholders ids @ '')'')
                         (sql_delete_files ids) s1 of
                    (Inl e, s2) \<Rightarrow> (Inl e, s2)
                  | (Inr _, s2) \<Rightarrow> (Inr ids, s2))
               else (Inr ids, s1))"

subsection \<open>Opening and closing\<close>

text \<open>
  \<^verbatim>\<open>open()\<close> connects, applies the pragmas, creates the tables and the indexes that do not
  exist yet and prepares the statements. The engine is taken to carry all of this out:
  the pragmas and the eight schema statements are logged, the tables of an existing file
  stay as they are, and those of a new file are empty.
\<close>

definition migrations :: "string list" where
  "migrations =
     [''CREATE TABLE IF NOT EXISTS chats'',
      ''CREATE INDEX IF NOT EXISTS idx_chats_creator_createdAt'',
      ''CREATE TABLE IF NOT EXISTS messages'',
      ''CREATE INDEX IF NOT EXISTS idx_messages_chat_createdAt'',
      ''CREATE TABLE IF NOT EXISTS confirmed_steps'',
      ''CREATE INDEX IF NOT EXISTS idx_confirmed_steps_thread_createdAt'',
      ''CREATE TABLE IF NOT EXISTS files'',
      ''CREATE INDEX IF NOT EXISTS idx_files_createdAt'']"

definition prepareStatements :: "SqliteDatabase \<Rightarrow> unit outcome" where
  "prepareStatements s = (if db s = None then (Inl (Error ''DB not open''), s) else (Inr (), s))"

definition "open" :: "SqliteDatabase \<Rightarrow> unit outcome" where
  "open s =
     (if isOpen s then (Inr (), s)
      else prepareStatements
             (s\<lparr>db := Some Connection, isOpen := True,
                log := log s @ map (\<lambda>p. ''PRAGMA '' @ p) (pragmas s) @ migrations\<rparr>))"

definition close :: "SqliteDatabase \<Rightarrow> unit outcome" where
  "close s =
     (if db s = None \<or> \<not> isOpen s then (Inr (), s)
      else (Inr (), s\<lparr>isOpen := False, db := None\<rparr>))"

section \<open>Notions used in the properties\<close>

text \<open>
  The partial update as the specification words it: a field given in the update takes the
  given value, a field not given keeps the stored one.
\<close>

definition spec_edit :: "Partial_Chat \<Rightarrow> Chat \<Rightarrow> Chat" where
  "spec_edit u c =
     c\<lparr>chat_name := (case upd_name u of Value n \<Rightarrow> n | _ \<Rightarrow> chat_name c),
       chat_creatorID := (case upd_creatorID u of Value x \<Rightarrow> x | _ \<Rightarrow> chat_creatorID c),
       chat_createdAt := (case upd_createdAt u of Value d \<Rightarrow> d | _ \<Rightarrow> chat_createdAt c)\<rparr>"

text \<open>What the UPDATE statement of \<^verbatim>\<open>editChatByID\<close> makes of a row with the given id.\<close>

definition edited_row :: "Partial_Chat \<Rightarrow> chats_row \<Rightarrow> chats_row" where
  "edited_row u r =
     r\<lparr>chats_name := coalesce (or_null (upd_name u)) (chats_name r),
       chats_creatorID := coalesce (or_null (upd_creatorID u)) (chats_creatorID r),
       chats_createdAt := coalesce (case upd_createdAt u of Value d \<Rightarrow> getTime d | _ \<Rightarrow> None) (chats_createdAt r)\<rparr>"

text \<open>
  The order of the specification on messages: later \<^verbatim>\<open>createdAt\<close> first, and for equal
  \<^verbatim>\<open>createdAt\<close> the greater id first.
\<close>

definition newer_first :: "Message \<Rightarrow> Message \<Rightarrow> bool" where
  "newer_first a b =
     (case (getTime (msg_createdAt a), getTime (msg_createdAt b)) of
        (Some x, Some y) \<Rightarrow> x > y \<or> (x = y \<and> msg_id a \<ge> msg_id b)
      | _ \<Rightarrow> False)"

text \<open>The two fields \<^verbatim>\<open>db\<close> and \<^verbatim>\<open>isOpen\<close> of the class are set together.\<close>

definition consistent :: "SqliteDatabase \<Rightarrow> bool" where
  "consistent s = (db s = None \<longleftrightarrow> \<not> isOpen s)"

text \<open>
  What the schema and the adapter keep true of the stored data: ids are unique in each
  table (they are primary keys), and every \<^verbatim>\<open>createdAt\<close> of a message is the time value
  of a date.
\<close>

definition ids_distinct :: "tables \<Rightarrow> bool" where
  "ids_distinct T =
     (distinct (map chats_id (chats T)) \<and> distinct (map messages_id (messages T)) \<and>
      distinct (map confirmed_steps_id (confirmed_steps T)) \<and> distinct (map files_id (files T)))"

definition times_in_range :: "tables \<Rightarrow> bool" where
  "times_in_range T =
     list_all (\<lambda>r. - max_time \<le> messages_createdAt r \<and> messages_createdAt r \<le> max_time) (messages T)"

text \<open>An optional property as its type allows it: missing or a value, never \<^verbatim>\<open>null\<close>.\<close>

definition typed :: "'a optional \<Rightarrow> bool" where
  "typed x = (x \<noteq> Null)"

text \<open>
  The JSON values that are read back as they were written: no floating-point number, and
  no object with the same key twice (an object of JavaScript never has one).
\<close>

fun json_ok :: "json \<Rightarrow> bool" where
  "json_ok (JFloat s) = False"
| "json_ok (JArr vs) = (\<forall>v \<in> set vs. json_ok v)"
| "json_ok (JObj kvs) = (distinct (map fst kvs) \<and> (\<forall>p \<in> set kvs. json_ok (snd p)))"
| "json_ok v = True"

text \<open>
  A reply restriction as its type allows it: missing, or an object (a truthy value) that
  JSON can carry.
\<close>

definition typed_restriction :: "json optional \<Rightarrow> bool" where
  "typed_restriction x = (case x of Undefined \<Rightarrow> True | Null \<Rightarrow> False | Value r \<Rightarrow> json_ok r \<and> truthy r)"

text \<open>
  For the proof that a written value is read back: the fuel that reading it takes (at most
  the length of the text), what may follow a value inside a written text (nothing, a comma
  or a closing bracket), and the characters that can start a written value.
\<close>

fun fuel_for :: "json \<Rightarrow> nat" where
  "fuel_for (JArr vs) = Suc (sum_list (map (\<lambda>v. Suc (fuel_for v)) vs))"
| "fuel_for (JObj kvs) = Suc (sum_list (map (\<lambda>p. Suc (fuel_for (snd p))) kvs))"
| "fuel_for v = 1"

definition delim :: "string \<Rightarrow> bool" where
  "delim rest = (case rest of [] \<Rightarrow> True | c # _ \<Rightarrow> c = CHR '','' \<or> c = CHR '']'' \<or> c = CHR ''}'')"

definition starter :: "char \<Rightarrow> bool" where
  "starter c = (\<not> is_ws c \<and> c \<noteq> CHR '']'' \<and> c \<noteq> CHR ''}'' \<and> c \<noteq> CHR '','' \<and> c \<noteq> CHR '':'')"

section \<open>Example data\<close>

text \<open>A chat, two files, a message with the body \<^verbatim>\<open>{text: "hello"}\<close> and copies of it with
  other ids, chats and dates, a reply with a restriction, and two confirmed steps.\<close>

definition chat1 :: Chat where
  "chat1 = \<lparr>chat_id = ''c1'', chat_name = ''General'', chat_creatorID = ''u1'',
            chat_createdAt = Date 1700000000000\<rparr>"

definition file1 :: FileMeta where
  "file1 = \<lparr>file_id = ''f1'', file_name = ''a.png'', file_size = 2048, file_mimeType = ''image/png'',
            file_createdAt = Date 1700000000500\<rparr>"

definition file2 :: FileMeta where
  "file2 = \<lparr>file_id = ''f2'', file_name = ''b.txt'', file_size = 12, file_mimeType = ''text/plain'',
            file_createdAt = Date 1700000000900\<rparr>"

definition hello_body :: json where
  "hello_body = JObj [(''text'', JStr ''hello'')]"

definition hello_msg :: Message where
  "hello_msg =
     \<lparr>msg_id = ''m1'', msg_chatID = ''c1'', msg_senderID = ''u1'', msg_replyTo = Undefined,
      msg_threadID = Undefined, msg_scene = Undefined, msg_step = Undefined,
      msg_body = hello_body, msg_replyRestriction = Undefined,
      msg_createdAt = Date 1700000001000\<rparr>"

definition hello_at :: "string \<Rightarrow> string \<Rightarrow> int \<Rightarrow> Message" where
  "hello_at i c t = hello_msg\<lparr>msg_id := i, msg_chatID := c, msg_createdAt := Date t\<rparr>"

definition reply_msg :: Message where
  "reply_msg = hello_msg\<lparr>msg_id := ''m9'', msg_replyTo := Value ''m1'', msg_step := Value ''email'',
                 msg_replyRestriction := Value (JObj [(''bodyType'', JStr ''text'')])\<rparr>"

definition step1 :: ConfirmedStep where
  "step1 = \<lparr>step_id = ''s1'', step_threadID = ''t1'', step_messageID = ''m1'', step_scene = ''signup'',
            step_step = ''email'', step_createdAt = Date 1000\<rparr>"

definition step2 :: ConfirmedStep where
  "step2 = \<lparr>step_id = ''s2'', step_threadID = ''t1'', step_messageID = ''m3'', step_scene = ''signup'',
            step_step = ''code'', step_createdAt = Date 2000\<rparr>"

text \<open>The row that \<^verbatim>\<open>addMessage\<close> stores for \<open>hello_at i c t\<close>.\<close>

definition hello_row :: "string \<Rightarrow> string \<Rightarrow> int \<Rightarrow> messages_row" where
  "hello_row i c t =
     \<lparr>messages_id = i, messages_chatID = c, messages_senderID = ''u1'', messages_replyTo = None,
      messages_threadID = None, messages_scene = None, messages_step = None,
      messages_body = JSON_stringify hello_body, messages_replyRestriction = None,
      messages_createdAt = t\<rparr>"

text \<open>Two partial updates: a new name only, and a new creator with a new date.\<close>

definition rename_only :: Partial_Chat where
  "rename_only = \<lparr>upd_id = Undefined, upd_name = Value ''Renamed'', upd_creatorID = Undefined,
                   upd_createdAt = Undefined\<rparr>"

definition move_chat :: Partial_Chat where
  "move_chat = \<lparr>upd_id = Undefined, upd_name = Undefined, upd_creatorID = Value ''u2'',
                 upd_createdAt = Value (Date 1700000000999)\<rparr>"

text \<open>
  A new data file, opened; the same after one chat and one file were added; and the same
  after a second file, four messages in two chats and two confirmed steps were added.
\<close>

definition fresh_db :: SqliteDatabase where
  "fresh_db = snd (open (new_SqliteDatabase ''sqlite.db'' None empty_tables))"

definition sample_db :: SqliteDatabase where
  "sample_db = snd (addFile file1 (snd (addChat chat1 fresh_db)))"

definition busy_db :: SqliteDatabase where
  "busy_db =
     foldl (\<lambda>s st. snd (addConfirmedStep st s))
       (foldl (\<lambda>s m. snd (addMessage m s)) (snd (addFile file2 sample_db))
          [hello_at ''m1'' ''c1'' 1000, hello_at ''m2'' ''c1'' 1000, hello_at ''m3'' ''c1'' 2000, hello_at ''m4'' ''c2'' 1500])
       [step1, step2]"

text \<open>A data file written by someone else: the body of its only message is not JSON.\<close>

definition tampered_db :: SqliteDatabase where
  "tampered_db =
     snd (open (new_SqliteDatabase ''sqlite.db'' None
       (empty_tables\<lparr>messages := [(hello_row ''m1'' ''c1'' 1000)\<lparr>messages_body := ''{text: hello''\<rparr>]\<rparr>)))"

text \<open>
  A store in which files have piled up: \<open>k\<close> files added one after the other to a new
  data file, the \<open>n\<close>-th with the id \<open>n\<close> in decimal, all of them created at time 0.
\<close>

definition numbered_file :: "nat \<Rightarrow> FileMeta" where
  "numbered_file n =
     \<lparr>file_id = show_nat n, file_name = ''upload.bin'', file_size = 1,
      file_mimeType = ''application/octet-stream'', file_createdAt = Date 0\<rparr>"

definition numbered_row :: "nat \<Rightarrow> files_row" where
  "numbered_row n =
     \<lparr>files_id = show_nat n, files_name = ''upload.bin'', files_size = 1,
      files_mimeType = ''application/octet-stream'', files_createdAt = 0\<rparr>"

definition crowded :: "nat \<Rightarrow> SqliteDatabase" where
  "crowded k = foldl (\<lambda>s n. snd (addFile (numbered_file n) s)) fresh_db [0..<k]"

definition crowded_db :: SqliteDatabase where
  "crowded_db = crowded 32767"

section \<open>Properties\<close>

subsection \<open>The engine when it does not fault\<close>

lemma engine_call_healthy [simp]:
  "faults s = [] \<Longrightarrow> engine_call q s = (True, s\<lparr>log := log s @ [q]\<rparr>)"
  by (simp add: engine_call_def)

lemma engine_call_fault [simp]:
  "faults s = f # fs \<Longrightarrow> engine_call q s = (\<not> f, s\<lparr>log := log s @ [q], faults := fs\<rparr>)"
  by (simp add: engine_call_def)

lemma stmt_read_healthy:
  "faults s = [] \<Longrightarrow> stmt_read q f s = (Inr (f (store s)), s\<lparr>log := log s @ [q]\<rparr>)"
  by (simp add: stmt_read_def)

lemma stmt_write_healthy:
  "faults s = [] \<Longrightarrow>
   stmt_write q f s =
     (case f (store s) of
        Inl e \<Rightarrow> (Inl e, s\<lparr>log := log s @ [q]\<rparr>)
      | Inr (a, t) \<Rightarrow> (Inr a, s\<lparr>log := log s @ [q], store := t\<rparr>))"
  by (simp add: stmt_write_def)

subsection \<open>Lookup and deletion by key in a list of rows\<close>

lemma find_filter_same [simp]: "find (\<lambda>r. f r = i) (filter (\<lambda>r. f r \<noteq> i) xs) = None"
  by (induction xs) auto

lemma find_filter_other:
  "j \<noteq> i \<Longrightarrow> find (\<lambda>r. f r = j) (filter (\<lambda>r. f r \<noteq> i) xs) = find (\<lambda>r. f r = j) xs"
  by (induction xs) auto

lemma filter_absent: "find (\<lambda>r. f r = i) xs = None \<Longrightarrow> filter (\<lambda>r. f r \<noteq> i) xs = xs"
  by (induction xs) (auto split: if_splits)

subsection \<open>Rows in the order of an index\<close>

lemma set_insert_by [simp]: "set (insert_by le x xs) = insert x (set xs)"
  by (induction xs) auto

lemma order_by_Cons: "order_by le (x # xs) = insert_by le x (order_by le xs)"
  by (simp add: order_by_def)

lemma order_by_Nil [simp]: "order_by le [] = []"
  by (simp add: order_by_def)

lemma set_order_by [simp]: "set (order_by le xs) = set xs"
  by (induction xs) (simp_all add: order_by_Cons)

lemma length_insert_by [simp]: "length (insert_by le x xs) = Suc (length xs)"
  by (induction xs) auto

lemma sorted_insert_by:
  assumes total: "\<And>a b. le a b \<or> le b a" and trans: "\<And>a b c. le a b \<Longrightarrow> le b c \<Longrightarrow> le a c"
  shows "sorted_wrt le xs \<Longrightarrow> sorted_wrt le (insert_by le x xs)"
proof (induction xs)
  case Nil
  then show ?case by simp
next
  case (Cons y ys)
  show ?case
  proof (cases "le x y")
    case True
    with Cons.prems trans show ?thesis by auto
  next
    case False
    with total have "le y x" by blast
    with False Cons show ?thesis by auto
  qed
qed

lemma sorted_order_by:
  assumes "\<And>a b. le a b \<or> le b a" and "\<And>a b c. le a b \<Longrightarrow> le b c \<Longrightarrow> le a c"
  shows "sorted_wrt le (order_by le xs)"
  by (induction xs) (simp_all add: order_by_Cons sorted_insert_by [OF assms])

lemma length_order_by [simp]: "length (order_by le xs) = length xs"
  by (induction xs) (simp_all add: order_by_Cons)

lemma distinct_map_insert_by:
  "distinct (map f (insert_by le x xs)) \<longleftrightarrow> f x \<notin> f ` set xs \<and> distinct (map f xs)"
  by (induction xs) auto

lemma distinct_map_order_by [simp]:
  "distinct (map f (order_by le xs)) \<longleftrightarrow> distinct (map f xs)"
  by (induction xs) (simp_all add: order_by_Cons distinct_map_insert_by)

subsection \<open>Adding a chat or a file\<close>

lemma new_Date_valid: "valid_date d \<Longrightarrow> getTime d = Some t \<Longrightarrow> new_Date t = d"
  by (cases d) (auto simp: new_Date_def)

lemma valid_date_getTime: "valid_date d \<Longrightarrow> \<exists>t. getTime d = Some t"
  by (cases d) auto

lemma find_append_fresh:
  "i \<notin> set (map f xs) \<Longrightarrow> f r = i \<Longrightarrow> find (\<lambda>x. f x = i) (xs @ [r]) = Some r"
  by (induction xs) auto

lemma addChat_healthy:
  assumes "db s \<noteq> None" and "faults s = []" and "getTime (chat_createdAt c) = Some t"
    and "chat_id c \<notin> set (map chats_id (chats (store s)))"
  shows "addChat c s =
     (Inr (), s\<lparr>log := log s @ [''addChat''],
               store := (store s)\<lparr>chats := chats (store s) @
                 [\<lparr>chats_id = chat_id c, chats_name = chat_name c, chats_creatorID = chat_creatorID c,
                   chats_createdAt = t\<rparr>]\<rparr>\<rparr>)"
  using assms by (simp add: addChat_def stmt_write_healthy sql_addChat_def)

lemma addFile_healthy:
  assumes "db s \<noteq> None" and "faults s = []" and "getTime (file_createdAt f) = Some t"
    and "file_id f \<notin> set (map files_id (files (store s)))"
  shows "addFile f s =
     (Inr (), s\<lparr>log := log s @ [''addFile''],
               store := (store s)\<lparr>files := files (store s) @
                 [\<lparr>files_id = file_id f, files_name = file_name f, files_size = file_size f,
                   files_mimeType = file_mimeType f, files_createdAt = t\<rparr>]\<rparr>\<rparr>)"
  using assms by (simp add: addFile_def stmt_write_healthy sql_addFile_def)

lemma filter_fresh:
  "i \<notin> f ` set xs \<Longrightarrow> filter (\<lambda>x. f x \<noteq> i) xs = xs"
  by (induction xs) auto

subsection \<open>Deleting one chat or one file\<close>

lemma getChatByID_healthy:
  "db s \<noteq> None \<Longrightarrow> faults s = [] \<Longrightarrow>
   getChatByID i s =
     (Inr (map_option rowToChat (find (\<lambda>r. chats_id r = i) (chats (store s)))),
      s\<lparr>log := log s @ [''getChatByID'']\<rparr>)"
  by (simp add: getChatByID_def stmt_read_healthy sql_getChatByID_def)

lemma getFileByID_healthy:
  "db s \<noteq> None \<Longrightarrow> faults s = [] \<Longrightarrow>
   getFileByID i s =
     (Inr (map_option rowToFile (find (\<lambda>r. files_id r = i) (files (store s)))),
      s\<lparr>log := log s @ [''getFileByID'']\<rparr>)"
  by (simp add: getFileByID_def stmt_read_healthy sql_getFileByID_def)

lemma deleteChatByID_returning:
  assumes "db s \<noteq> None" and "faults s = []"
  shows "deleteChatByID i s =
     (Inr (map_option rowToChat (find (\<lambda>r. chats_id r = i) (chats (store s)))),
      s\<lparr>log := log s @ [''deleteChatByID''],
        store := (store s)\<lparr>chats := filter (\<lambda>r. chats_id r \<noteq> i) (chats (store s))\<rparr>\<rparr>)"
  using assms by (simp add: deleteChatByID_def stmt_write_healthy sql_deleteChatByID_def)

lemma deleteChatByID_fallback:
  assumes "db s \<noteq> None" and "faults s = [True]"
  shows "fst (deleteChatByID i s) = Inr (map_option rowToChat (find (\<lambda>r. chats_id r = i) (chats (store s))))"
    and "store (snd (deleteChatByID i s)) = (store s)\<lparr>chats := filter (\<lambda>r. chats_id r \<noteq> i) (chats (store s))\<rparr>"
    and "db (snd (deleteChatByID i s)) = db s"
    and "faults (snd (deleteChatByID i s)) = []"
  using assms
  by (auto simp: deleteChatByID_def stmt_write_def getChatByID_healthy stmt_write_healthy
      sql_delete_chat_def filter_absent split: option.splits)


lemma deleteFileByID_returning:
  assumes "db s \<noteq> None" and "faults s = []"
  shows "deleteFileByID i s =
     (Inr (map_option rowToFile (find (\<lambda>r. files_id r = i) (files (store s)))),
      s\<lparr>log := log s @ [''deleteFileByID''],
        store := (store s)\<lparr>files := filter (\<lambda>r. files_id r \<noteq> i) (files (store s))\<rparr>\<rparr>)"
  using assms by (simp add: deleteFileByID_def stmt_write_healthy sql_deleteFileByID_def)

lemma deleteFileByID_fallback:
  assumes "db s \<noteq> None" and "faults s = [True]"
  shows "fst (deleteFileByID i s) = Inr (map_option rowToFile (find (\<lambda>r. files_id r = i) (files (store s))))"
    and "store (snd (deleteFileByID i s)) = (store s)\<lparr>files := filter (\<lambda>r. files_id r \<noteq> i) (files (store s))\<rparr>"
    and "db (snd (deleteFileByID i s)) = db s"
    and "faults (snd (deleteFileByID i s)) = []"
  using assms
  by (auto simp: deleteFileByID_def stmt_write_def getFileByID_healthy stmt_write_healthy
      sql_delete_file_def filter_absent split: option.splits)

lemma deleteChatByID_either:
  assumes "db s \<noteq> None" and "faults s = []" and "fs = [] \<or> fs = [True]"
  shows "fst (deleteChatByID i (s\<lparr>faults := fs\<rparr>)) =
           Inr (map_option rowToChat (find (\<lambda>r. chats_id r = i) (chats (store s))))"
    and "store (snd (deleteChatByID i (s\<lparr>faults := fs\<rparr>))) =
           (store s)\<lparr>chats := filter (\<lambda>r. chats_id r \<noteq> i) (chats (store s))\<rparr>"
    and "db (snd (deleteChatByID i (s\<lparr>faults := fs\<rparr>))) = db s"
    and "faults (snd (deleteChatByID i (s\<lparr>faults := fs\<rparr>))) = []"
  using assms deleteChatByID_fallback [of "s\<lparr>faults := fs\<rparr>" i]
    deleteChatByID_returning [of "s\<lparr>faults := fs\<rparr>" i]
  by auto

lemma deleteFileByID_either:
  assumes "db s \<noteq> None" and "faults s = []" and "fs = [] \<or> fs = [True]"
  shows "fst (deleteFileByID i (s\<lparr>faults := fs\<rparr>)) =
           Inr (map_option rowToFile (find (\<lambda>r. files_id r = i) (files (store s))))"
    and "store (snd (deleteFileByID i (s\<lparr>faults := fs\<rparr>))) =
           (store s)\<lparr>files := filter (\<lambda>r. files_id r \<noteq> i) (files (store s))\<rparr>"
    and "db (snd (deleteFileByID i (s\<lparr>faults := fs\<rparr>))) = db s"
    and "faults (snd (deleteFileByID i (s\<lparr>faults := fs\<rparr>))) = []"
  using assms deleteFileByID_fallback [of "s\<lparr>faults := fs\<rparr>" i]
    deleteFileByID_returning [of "s\<lparr>faults := fs\<rparr>" i]
  by auto

lemma deleteChatByID_contract:
  assumes "db s \<noteq> None" and "faults s = []" and "fs = [] \<or> fs = [True]"
  shows "let d = deleteChatByID i (s\<lparr>faults := fs\<rparr>); s' = snd d in
           fst d = fst (getChatByID i s) \<and>
           fst (getChatByID i s') = Inr None \<and>
           (\<forall>j. j \<noteq> i \<longrightarrow> fst (getChatByID j s') = fst (getChatByID j s)) \<and>
           messages (store s') = messages (store s) \<and>
           confirmed_steps (store s') = confirmed_steps (store s) \<and>
           files (store s') = files (store s) \<and>
           (fst (getChatByID i s) = Inr None \<longrightarrow> store s' = store s) \<and>
           fst (deleteChatByID i s') = Inr None \<and>
           store (snd (deleteChatByID i s')) = store s' \<and>
           fst d = Inr (case find (\<lambda>r. chats_id r = i) (chats (store s)) of
                          None \<Rightarrow> None
                        | Some r \<Rightarrow>
                            Some \<lparr>chat_id = chats_id r, chat_name = chats_name r,
                                  chat_creatorID = chats_creatorID r,
                                  chat_createdAt = new_Date (chats_createdAt r)\<rparr>) \<and>
           chats (store s') = filter (\<lambda>r. chats_id r \<noteq> i) (chats (store s))"
proof -
  let ?c = "snd (deleteChatByID i (s\<lparr>faults := fs\<rparr>))"
  note c = deleteChatByID_either [OF assms, of i]
  have c2: "db ?c \<noteq> None" "faults ?c = []"
    using c assms by simp_all
  show ?thesis
    unfolding Let_def
    using assms(1,2)
    by (simp add: c getChatByID_healthy [OF c2] deleteChatByID_returning [OF c2]
        getChatByID_healthy [OF assms(1,2)] find_filter_other filter_absent rowToChat_def
        split: option.splits)
qed

lemma deleteFileByID_contract:
  assumes "db s \<noteq> None" and "faults s = []" and "fs = [] \<or> fs = [True]"
  shows "let d = deleteFileByID i (s\<lparr>faults := fs\<rparr>); s' = snd d in
           fst d = fst (getFileByID i s) \<and>
           fst (getFileByID i s') = Inr None \<and>
           (\<forall>j. j \<noteq> i \<longrightarrow> fst (getFileByID j s') = fst (getFileByID j s)) \<and>
           chats (store s') = chats (store s) \<and>
           messages (store s') = messages (store s) \<and>
           confirmed_steps (store s') = confirmed_steps (store s) \<and>
           (fst (getFileByID i s) = Inr None \<longrightarrow> store s' = store s) \<and>
           fst (deleteFileByID i s') = Inr None \<and>
           store (snd (deleteFileByID i s')) = store s' \<and>
           fst d = Inr (case find (\<lambda>r. files_id r = i) (files (store s)) of
                          None \<Rightarrow> None
                        | Some r \<Rightarrow>
                            Some \<lparr>file_id = files_id r, file_name = files_name r,
                                  file_size = files_size r, file_mimeType = files_mimeType r,
                                  file_createdAt = new_Date (files_createdAt r)\<rparr>) \<and>
           files (store s') = filter (\<lambda>r. files_id r \<noteq> i) (files (store s))"
proof -
  let ?f = "snd (deleteFileByID i (s\<lparr>faults := fs\<rparr>))"
  note f = deleteFileByID_either [OF assms, of i]
  have f2: "db ?f \<noteq> None" "faults ?f = []"
    using f assms by simp_all
  show ?thesis
    unfolding Let_def
    using assms(1,2)
    by (simp add: f getFileByID_healthy [OF f2] deleteFileByID_returning [OF f2]
        getFileByID_healthy [OF assms(1,2)] find_filter_other filter_absent rowToFile_def
        split: option.splits)
qed

lemma deleteChatByID_added:
  assumes "db s \<noteq> None" and "faults s = []" and "fs = [] \<or> fs = [True]"
    and "valid_date (chat_createdAt c)"
    and "chat_id c \<notin> set (map chats_id (chats (store s)))"
  shows "fst (deleteChatByID (chat_id c) ((snd (addChat c s))\<lparr>faults := fs\<rparr>)) = Inr (Some c)"
    and "store (snd (deleteChatByID (chat_id c) ((snd (addChat c s))\<lparr>faults := fs\<rparr>))) = store s"
proof -
  obtain t where t: "getTime (chat_createdAt c) = Some t" "new_Date t = chat_createdAt c"
    using assms(4) new_Date_valid valid_date_getTime by blast
  note a = addChat_healthy [OF assms(1,2) t(1) assms(5)]
  have s1: "db (snd (addChat c s)) \<noteq> None" "faults (snd (addChat c s)) = []"
    using assms(1,2) by (simp_all add: a)
  note d = deleteChatByID_either [OF s1 assms(3), of "chat_id c"]
  have "map_option rowToChat (find (\<lambda>r. chats_id r = chat_id c) (chats (store (snd (addChat c s))))) = Some c"
    using assms(5) t(2) by (simp add: a find_append_fresh rowToChat_def)
  with d(1) show "fst (deleteChatByID (chat_id c) ((snd (addChat c s))\<lparr>faults := fs\<rparr>)) = Inr (Some c)"
    by (simp only:)
  have "(store (snd (addChat c s)))\<lparr>chats := filter (\<lambda>r. chats_id r \<noteq> chat_id c) (chats (store (snd (addChat c s))))\<rparr> = store s"
    using assms(5) by (simp add: a filter_fresh)
  with d(2) show "store (snd (deleteChatByID (chat_id c) ((snd (addChat c s))\<lparr>faults := fs\<rparr>))) = store s"
    by (simp only:)
qed

lemma deleteFileByID_added:
  assumes "db s \<noteq> None" and "faults s = []" and "fs = [] \<or> fs = [True]"
    and "valid_date (file_createdAt f)"
    and "file_id f \<notin> set (map files_id (files (store s)))"
  shows "fst (deleteFileByID (file_id f) ((snd (addFile f s))\<lparr>faults := fs\<rparr>)) = Inr (Some f)"
    and "store (snd (deleteFileByID (file_id f) ((snd (addFile f s))\<lparr>faults := fs\<rparr>))) = store s"
proof -
  obtain t where t: "getTime (file_createdAt f) = Some t" "new_Date t = file_createdAt f"
    using assms(4) new_Date_valid valid_date_getTime by blast
  note a = addFile_healthy [OF assms(1,2) t(1) assms(5)]
  have s1: "db (snd (addFile f s)) \<noteq> None" "faults (snd (addFile f s)) = []"
    using assms(1,2) by (simp_all add: a)
  note d = deleteFileByID_either [OF s1 assms(3), of "file_id f"]
  have "map_option rowToFile (find (\<lambda>r. files_id r = file_id f) (files (store (snd (addFile f s))))) = Some f"
    using assms(5) t(2) by (simp add: a find_append_fresh rowToFile_def)
  with d(1) show "fst (deleteFileByID (file_id f) ((snd (addFile f s))\<lparr>faults := fs\<rparr>)) = Inr (Some f)"
    by (simp only:)
  have "(store (snd (addFile f s)))\<lparr>files := filter (\<lambda>r. files_id r \<noteq> file_id f) (files (store (snd (addFile f s))))\<rparr> = store s"
    using assms(5) by (simp add: a filter_fresh)
  with d(2) show "store (snd (deleteFileByID (file_id f) ((snd (addFile f s))\<lparr>faults := fs\<rparr>))) = store s"
    by (simp only:)
qed

lemma fresh_db_open: "db fresh_db = Some Connection" "faults fresh_db = []" "store fresh_db = empty_tables"
  by (simp_all add: fresh_db_def open_def new_SqliteDatabase_def prepareStatements_def)

lemma sample_db_open: "db sample_db = Some Connection" "faults sample_db = []"
  and sample_db_store: "store sample_db =
     \<lparr>chats = [\<lparr>chats_id = ''c1'', chats_name = ''General'', chats_creatorID = ''u1'',
                chats_createdAt = 1700000000000\<rparr>],
      messages = [], confirmed_steps = [],
      files = [\<lparr>files_id = ''f1'', files_name = ''a.png'', files_size = 2048,
                files_mimeType = ''image/png'', files_createdAt = 1700000000500\<rparr>]\<rparr>"
  by (simp_all add: sample_db_def addFile_def addChat_def fresh_db_open stmt_write_healthy
      sql_addChat_def sql_addFile_def chat1_def file1_def empty_tables_def)

text \<open>
  Claim C3. On an open adapter, \<^verbatim>\<open>deleteChatByID\<close> returns the record made of the four
  columns of the stored row with that id (the time column as a \<^verbatim>\<open>Date\<close>), which is also
  what \<^verbatim>\<open>getChatByID\<close> gave before the call, or \<^verbatim>\<open>null\<close> (\<open>None\<close>, no exception) when
  no row has the id; and it removes the row with that id and no other row: the chats left
  are the stored ones with another id, afterwards the id is not found, every other id is
  found as before, and the other tables are the same. When the id was not found the
  stored data is unchanged, and a second delete of the same id returns \<^verbatim>\<open>null\<close> and
  changes nothing. A chat with a valid date and a new id that \<^verbatim>\<open>addChat\<close> has stored is
  returned by \<^verbatim>\<open>deleteChatByID\<close> as it was given, and the stored data is then what it was
  before the chat was added. \<^verbatim>\<open>deleteFileByID\<close> does the same on files, with the five
  columns of a file. All of this holds both when the prepared DELETE ... RETURNING is
  carried out (\<open>fs = []\<close>) and when it throws and the \<^verbatim>\<open>catch\<close> block does the work
  (\<open>fs = [True]\<close>).
\<close>

theorem delete_by_id_returns_prior_record:
  assumes "db s \<noteq> None" and "faults s = []" and "fs = [] \<or> fs = [True]"
  shows "(let d = deleteChatByID i (s\<lparr>faults := fs\<rparr>); s' = snd d in
           fst d = fst (getChatByID i s) \<and>
           fst (getChatByID i s') = Inr None \<and>
           (\<forall>j. j \<noteq> i \<longrightarrow> fst (getChatByID j s') = fst (getChatByID j s)) \<and>
           messages (store s') = messages (store s) \<and>
           confirmed_steps (store s') = confirmed_steps (store s) \<and>
           files (store s') = files (store s) \<and>
           (fst (getChatByID i s) = Inr None \<longrightarrow> store s' = store s) \<and>
           fst (deleteChatByID i s') = Inr None \<and>
           store (snd (deleteChatByID i s')) = store s' \<and>
           fst d = Inr (case find (\<lambda>r. chats_id r = i) (chats (store s)) of
                          None \<Rightarrow> None
                        | Some r \<Rightarrow>
                            Some \<lparr>chat_id = chats_id r, chat_name = chats_name r,
                                  chat_creatorID = chats_creatorID r,
                                  chat_createdAt = new_Date (chats_createdAt r)\<rparr>) \<and>
           chats (store s') = filter (\<lambda>r. chats_id r \<noteq> i) (chats (store s))) \<and>
         (let d = deleteFileByID i (s\<lparr>faults := fs\<rparr>); s' = snd d in
           fst d = fst (getFileByID i s) \<and>
           fst (getFileByID i s') = Inr None \<and>
           (\<forall>j. j \<noteq> i \<longrightarrow> fst (getFileByID j s') = fst (getFileByID j s)) \<and>
           chats (store s') = chats (store s) \<and>
           messages (store s') = messages (store s) \<and>
           confirmed_steps (store s') = confirmed_steps (store s) \<and>
           (fst (getFileByID i s) = Inr None \<longrightarrow> store s' = store s) \<and>
           fst (deleteFileByID i s') = Inr None \<and>
           store (snd (deleteFileByID i s')) = store s' \<and>
           fst d = Inr (case find (\<lambda>r. files_id r = i) (files (store s)) of
                          None \<Rightarrow> None
                        | Some r \<Rightarrow>
                            Some \<lparr>file_id = files_id r, file_name = files_name r,
                                  file_size = files_size r, file_mimeType = files_mimeType r,
                                  file_createdAt = new_Date (files_createdAt r)\<rparr>) \<and>
           files (store s') = filter (\<lambda>r. files_id r \<noteq> i) (files (store s))) \<and>
         (\<forall>c. valid_date (chat_createdAt c) \<and> chat_id c \<notin> set (map chats_id (chats (store s))) \<longrightarrow>
            fst (deleteChatByID (chat_id c) ((snd (addChat c s))\<lparr>faults := fs\<rparr>)) = Inr (Some c) \<and>
            store (snd (deleteChatByID (chat_id c) ((snd (addChat c s))\<lparr>faults := fs\<rparr>))) = store s) \<and>
         (\<forall>f. valid_date (file_createdAt f) \<and> file_id f \<notin> set (map files_id (files (store s))) \<longrightarrow>
            fst (deleteFileByID (file_id f) ((snd (addFile f s))\<lparr>faults := fs\<rparr>)) = Inr (Some f) \<and>
            store (snd (deleteFileByID (file_id f) ((snd (addFile f s))\<lparr>faults := fs\<rparr>))) = store s)"
proof -
  have "\<forall>c. valid_date (chat_createdAt c) \<and> chat_id c \<notin> set (map chats_id (chats (store s))) \<longrightarrow>
            fst (deleteChatByID (chat_id c) ((snd (addChat c s))\<lparr>faults := fs\<rparr>)) = Inr (Some c) \<and>
            store (snd (deleteChatByID (chat_id c) ((snd (addChat c s))\<lparr>faults := fs\<rparr>))) = store s"
    using deleteChatByID_added [OF assms] by blast
  moreover
  have "\<forall>f. valid_date (file_createdAt f) \<and> file_id f \<notin> set (map files_id (files (store s))) \<longrightarrow>
            fst (deleteFileByID (file_id f) ((snd (addFile f s))\<lparr>faults := fs\<rparr>)) = Inr (Some f) \<and>
            store (snd (deleteFileByID (file_id f) ((snd (addFile f s))\<lparr>faults := fs\<rparr>))) = store s"
    using deleteFileByID_added [OF assms] by blast
  ultimately show ?thesis
    using deleteChatByID_contract [OF assms, of i] deleteFileByID_contract [OF assms, of i]
    by (intro conjI)
qed

theorem delete_by_id_returns_prior_record_witness:
  "db sample_db \<noteq> None \<and> faults sample_db = [] \<and>
   fst (deleteChatByID ''c1'' (sample_db\<lparr>faults := [True]\<rparr>)) = Inr (Some chat1) \<and>
   fst (getChatByID ''c1'' (snd (deleteChatByID ''c1'' (sample_db\<lparr>faults := [True]\<rparr>)))) = Inr None \<and>
   fst (deleteChatByID ''c1'' (snd (deleteChatByID ''c1'' (sample_db\<lparr>faults := [True]\<rparr>)))) = Inr None \<and>
   files (store (snd (deleteChatByID ''c1'' (sample_db\<lparr>faults := [True]\<rparr>)))) = files (store sample_db) \<and>
   chats (store (snd (deleteChatByID ''c1'' (sample_db\<lparr>faults := [True]\<rparr>)))) = [] \<and>
   fst (deleteFileByID ''f1'' (sample_db\<lparr>faults := [True]\<rparr>)) = Inr (Some file1) \<and>
   fst (getFileByID ''f1'' (snd (deleteFileByID ''f1'' (sample_db\<lparr>faults := [True]\<rparr>)))) = Inr None \<and>
   fst (deleteFileByID ''f1'' (snd (deleteFileByID ''f1'' (sample_db\<lparr>faults := [True]\<rparr>)))) = Inr None \<and>
   files (store (snd (deleteFileByID ''f1'' (sample_db\<lparr>faults := [True]\<rparr>)))) = [] \<and>
   valid_date (file_createdAt file2) \<and> file_id file2 \<notin> set (map files_id (files (store sample_db))) \<and>
   fst (deleteFileByID ''f2'' ((snd (addFile file2 sample_db))\<lparr>faults := [True]\<rparr>)) = Inr (Some file2) \<and>
   store (snd (deleteFileByID ''f2'' ((snd (addFile file2 sample_db))\<lparr>faults := [True]\<rparr>))) = store sample_db \<and>
   valid_date (chat_createdAt (chat1\<lparr>chat_id := ''c2''\<rparr>)) \<and>
   chat_id (chat1\<lparr>chat_id := ''c2''\<rparr>) \<notin> set (map chats_id (chats (store sample_db))) \<and>
   fst (deleteChatByID ''c2'' ((snd (addChat (chat1\<lparr>chat_id := ''c2''\<rparr>) sample_db))\<lparr>faults := []\<rparr>)) =
     Inr (Some (chat1\<lparr>chat_id := ''c2''\<rparr>))"
proof -
  have a: "db sample_db \<noteq> None" and b: "faults sample_db = []"
    by (simp_all add: sample_db_open)
  have v: "valid_date (file_createdAt file2)"
    "file_id file2 \<notin> set (map files_id (files (store sample_db)))"
    "valid_date (chat_createdAt (chat1\<lparr>chat_id := ''c2''\<rparr>))"
    "chat_id (chat1\<lparr>chat_id := ''c2''\<rparr>) \<notin> set (map chats_id (chats (store sample_db)))"
    by (simp_all add: file2_def chat1_def sample_db_store max_time_def)
  have i: "file_id file2 = ''f2''" "chat_id (chat1\<lparr>chat_id := ''c2''\<rparr>) = ''c2''"
    by (simp_all add: file2_def)
  have fT: "[True] = [] \<or> [True] = [True]" and fN: "([]::bool list) = [] \<or> ([]::bool list) = [True]"
    by simp_all
  note t1 = delete_by_id_returns_prior_record [OF a b fT, where i = "''c1''", unfolded Let_def]
  note t2 = delete_by_id_returns_prior_record [OF a b fT, where i = "''f1''", unfolded Let_def]
  note t3 = delete_by_id_returns_prior_record [OF a b fN, where i = "''f1''", unfolded Let_def]
  have gc: "fst (getChatByID ''c1'' sample_db) = Inr (Some chat1)"
    by (simp add: getChatByID_healthy [OF a b] sample_db_store rowToChat_def chat1_def new_Date_def max_time_def)
  have gf: "fst (getFileByID ''f1'' sample_db) = Inr (Some file1)"
    by (simp add: getFileByID_healthy [OF a b] sample_db_store rowToFile_def file1_def new_Date_def max_time_def)
  have c1: "fst (deleteChatByID ''c1'' (sample_db\<lparr>faults := [True]\<rparr>)) = Inr (Some chat1)"
    using t1 gc by simp
  have c2: "fst (getChatByID ''c1'' (snd (deleteChatByID ''c1'' (sample_db\<lparr>faults := [True]\<rparr>)))) = Inr None"
    "fst (deleteChatByID ''c1'' (snd (deleteChatByID ''c1'' (sample_db\<lparr>faults := [True]\<rparr>)))) = Inr None"
    "files (store (snd (deleteChatByID ''c1'' (sample_db\<lparr>faults := [True]\<rparr>)))) = files (store sample_db)"
    using t1 by simp_all
  have c3: "chats (store (snd (deleteChatByID ''c1'' (sample_db\<lparr>faults := [True]\<rparr>)))) = []"
    using t1 by (simp add: sample_db_store)
  have f1: "fst (deleteFileByID ''f1'' (sample_db\<lparr>faults := [True]\<rparr>)) = Inr (Some file1)"
    using t2 gf by simp
  have f2: "fst (getFileByID ''f1'' (snd (deleteFileByID ''f1'' (sample_db\<lparr>faults := [True]\<rparr>)))) = Inr None"
    "fst (deleteFileByID ''f1'' (snd (deleteFileByID ''f1'' (sample_db\<lparr>faults := [True]\<rparr>)))) = Inr None"
    using t2 by simp_all
  have f3: "files (store (snd (deleteFileByID ''f1'' (sample_db\<lparr>faults := [True]\<rparr>)))) = []"
    using t2 by (simp add: sample_db_store)
  have af: "\<forall>f. valid_date (file_createdAt f) \<and> file_id f \<notin> set (map files_id (files (store sample_db))) \<longrightarrow>
            fst (deleteFileByID (file_id f) ((snd (addFile f sample_db))\<lparr>faults := [True]\<rparr>)) = Inr (Some f) \<and>
            store (snd (deleteFileByID (file_id f) ((snd (addFile f sample_db))\<lparr>faults := [True]\<rparr>))) = store sample_db"
    using t2 by (elim conjE)
  have ac: "\<forall>c. valid_date (chat_createdAt c) \<and> chat_id c \<notin> set (map chats_id (chats (store sample_db))) \<longrightarrow>
            fst (deleteChatByID (chat_id c) ((snd (addChat c sample_db))\<lparr>faults := []\<rparr>)) = Inr (Some c) \<and>
            store (snd (deleteChatByID (chat_id c) ((snd (addChat c sample_db))\<lparr>faults := []\<rparr>))) = store sample_db"
    using t3 by (elim conjE)
  from af v(1,2)
  have "fst (deleteFileByID (file_id file2) ((snd (addFile file2 sample_db))\<lparr>faults := [True]\<rparr>)) = Inr (Some file2) \<and>
        store (snd (deleteFileByID (file_id file2) ((snd (addFile file2 sample_db))\<lparr>faults := [True]\<rparr>))) = store sample_db"
    by blast
  then have g: "fst (deleteFileByID ''f2'' ((snd (addFile file2 sample_db))\<lparr>faults := [True]\<rparr>)) = Inr (Some file2)"
    "store (snd (deleteFileByID ''f2'' ((snd (addFile file2 sample_db))\<lparr>faults := [True]\<rparr>))) = store sample_db"
    unfolding i(1) by blast+
  from ac v(3,4)
  have "fst (deleteChatByID (chat_id (chat1\<lparr>chat_id := ''c2''\<rparr>))
               ((snd (addChat (chat1\<lparr>chat_id := ''c2''\<rparr>) sample_db))\<lparr>faults := []\<rparr>)) =
          Inr (Some (chat1\<lparr>chat_id := ''c2''\<rparr>))"
    by blast
  then have h: "fst (deleteChatByID ''c2'' ((snd (addChat (chat1\<lparr>chat_id := ''c2''\<rparr>) sample_db))\<lparr>faults := []\<rparr>)) =
     Inr (Some (chat1\<lparr>chat_id := ''c2''\<rparr>))"
    unfolding i(2) .
  show ?thesis
    by (intro conjI a b c1 c2 c3 f1 f2 f3 g v h)
qed

subsection \<open>Editing a chat\<close>

lemma find_map_same:
  assumes "\<And>r. f (g r) = f r"
  shows "find (\<lambda>r. f r = i) (map (\<lambda>r. if f r = i then g r else r) xs) = map_option g (find (\<lambda>r. f r = i) xs)"
  using assms by (induction xs) auto

lemma find_map_other:
  assumes "\<And>r. f (g r) = f r" and "j \<noteq> i"
  shows "find (\<lambda>r. f r = j) (map (\<lambda>r. if f r = i then g r else r) xs) = find (\<lambda>r. f r = j) xs"
  using assms by (induction xs) auto

lemma map_absent:
  "find (\<lambda>r. f r = i) xs = None \<Longrightarrow> map (\<lambda>r. if f r = i then g r else r) xs = xs"
  by (induction xs) (auto split: if_splits)

lemma sql_editChatByID_rows:
  "sql_editChatByID (or_null (upd_name u)) (or_null (upd_creatorID u))
     (case upd_createdAt u of Value d \<Rightarrow> getTime d | _ \<Rightarrow> None) i T =
   Inr ((), T\<lparr>chats := map (\<lambda>r. if chats_id r = i then edited_row u r else r) (chats T)\<rparr>)"
  by (simp add: sql_editChatByID_def edited_row_def)

lemma find_edited:
  "find (\<lambda>r. chats_id r = i) (map (\<lambda>r. if chats_id r = i then edited_row u r else r) xs)
     = map_option (edited_row u) (find (\<lambda>r. chats_id r = i) xs)"
  by (rule find_map_same) (simp add: edited_row_def)

lemma find_edited_other:
  "j \<noteq> i \<Longrightarrow>
   find (\<lambda>r. chats_id r = j) (map (\<lambda>r. if chats_id r = i then edited_row u r else r) xs)
     = find (\<lambda>r. chats_id r = j) xs"
  by (rule find_map_other) (simp_all add: edited_row_def)

lemma editChatByID_healthy:
  assumes "db s \<noteq> None" and "faults s = []"
  shows "editChatByID i u s =
     (Inr (map_option (rowToChat \<circ> edited_row u) (find (\<lambda>r. chats_id r = i) (chats (store s)))),
      s\<lparr>log := log s @ [''editChatByID'', ''getChatByID''],
        store := (store s)\<lparr>chats := map (\<lambda>r. if chats_id r = i then edited_row u r else r) (chats (store s))\<rparr>\<rparr>)"
  using assms
  by (simp add: editChatByID_def Let_def stmt_write_healthy sql_editChatByID_rows getChatByID_healthy
      find_edited option.map_comp)

lemma rowToChat_edited:
  assumes "case upd_createdAt u of Value d \<Rightarrow> valid_date d | _ \<Rightarrow> True"
  shows "rowToChat (edited_row u r) = spec_edit u (rowToChat r)"
proof (cases "upd_createdAt u")
  case (Value d)
  with assms have "valid_date d" by simp
  then obtain t where "getTime d = Some t" "new_Date t = d"
    using new_Date_valid valid_date_getTime by blast
  with Value show ?thesis
    by (cases "upd_name u"; cases "upd_creatorID u") (simp_all add: rowToChat_def edited_row_def spec_edit_def)
qed (cases "upd_name u"; cases "upd_creatorID u"; simp add: rowToChat_def edited_row_def spec_edit_def)+

text \<open>
  Claim C4. On an open adapter, for a stored chat \<open>c\<close> and a partial update \<open>u\<close> (whose
  \<^verbatim>\<open>createdAt\<close>, when given, is a valid date), \<^verbatim>\<open>editChatByID\<close> returns \<open>c\<close> with
  exactly the fields given in \<open>u\<close> replaced (\<open>spec_edit u c\<close>): a field that is absent
  keeps its stored value, so an update with only a name leaves \<^verbatim>\<open>id\<close>, \<^verbatim>\<open>creatorID\<close> and
  \<^verbatim>\<open>createdAt\<close> as they were. The record returned is the one stored after the call; for
  an id that is not stored the call returns \<^verbatim>\<open>null\<close> and changes nothing; the other chats
  and the other tables are never touched.
\<close>

theorem editChatByID_updates_only_given_fields:
  assumes "db s \<noteq> None" and "faults s = []"
    and "case upd_createdAt u of Value d \<Rightarrow> valid_date d | _ \<Rightarrow> True"
  shows "let e = editChatByID i u s; s' = snd e in
           (case fst (getChatByID i s) of
              Inr (Some c) \<Rightarrow> fst e = Inr (Some (spec_edit u c))
            | _ \<Rightarrow> fst e = Inr None \<and> store s' = store s) \<and>
           fst (getChatByID i s') = fst e \<and>
           (\<forall>j. j \<noteq> i \<longrightarrow> fst (getChatByID j s') = fst (getChatByID j s)) \<and>
           messages (store s') = messages (store s) \<and>
           confirmed_steps (store s') = confirmed_steps (store s) \<and>
           files (store s') = files (store s) \<and>
           (\<forall>c c'. upd_creatorID u = Undefined \<and> upd_createdAt u = Undefined \<and>
                   fst (getChatByID i s) = Inr (Some c) \<and> fst e = Inr (Some c') \<longrightarrow>
                   chat_id c' = chat_id c \<and> chat_creatorID c' = chat_creatorID c \<and>
                   chat_createdAt c' = chat_createdAt c)"
  unfolding Let_def
  using assms(1,2)
  by (auto simp: getChatByID_healthy editChatByID_healthy find_edited find_edited_other
      rowToChat_edited [OF assms(3)] option.map_comp map_absent spec_edit_def
      split: option.splits)

lemma sample_chat1: "fst (getChatByID ''c1'' sample_db) = Inr (Some chat1)"
  by (simp add: getChatByID_healthy sample_db_open sample_db_store rowToChat_def chat1_def
      new_Date_def max_time_def)

lemma sample_no_c2: "fst (getChatByID ''c2'' sample_db) = Inr None"
  by (simp add: getChatByID_healthy sample_db_open sample_db_store)

theorem editChatByID_updates_only_given_fields_witness:
  "db sample_db \<noteq> None \<and> faults sample_db = [] \<and>
   fst (editChatByID ''c1'' rename_only sample_db) =
     Inr (Some \<lparr>chat_id = ''c1'', chat_name = ''Renamed'', chat_creatorID = ''u1'',
                chat_createdAt = Date 1700000000000\<rparr>) \<and>
   fst (editChatByID ''c1'' move_chat sample_db) =
     Inr (Some \<lparr>chat_id = ''c1'', chat_name = ''General'', chat_creatorID = ''u2'',
                chat_createdAt = Date 1700000000999\<rparr>) \<and>
   fst (editChatByID ''c2'' rename_only sample_db) = Inr None \<and>
   store (snd (editChatByID ''c2'' rename_only sample_db)) = store sample_db"
proof -
  have a: "db sample_db \<noteq> None" and b: "faults sample_db = []"
    by (simp_all add: sample_db_open)
  have r: "case upd_createdAt rename_only of Value d \<Rightarrow> valid_date d | _ \<Rightarrow> True"
    by (simp add: rename_only_def)
  have m: "case upd_createdAt move_chat of Value d \<Rightarrow> valid_date d | _ \<Rightarrow> True"
    by (simp add: move_chat_def max_time_def)
  from editChatByID_updates_only_given_fields [OF a b r, of "''c1''"]
    editChatByID_updates_only_given_fields [OF a b m, of "''c1''"]
    editChatByID_updates_only_given_fields [OF a b r, of "''c2''"]
    a b
  show ?thesis
    by (simp add: Let_def sample_chat1 sample_no_c2 spec_edit_def rename_only_def move_chat_def chat1_def)
qed

subsection \<open>A closed adapter\<close>

lemma close_closes: "(db s = None \<longleftrightarrow> \<not> isOpen s) \<Longrightarrow> db (snd (close s)) = None"
  by (simp add: close_def)

lemmas operation_defs =
  addChat_def getChatByID_def getChatsByCreatorID_def countChatsByCreatorID_def editChatByID_def
  deleteChatByID_def addMessage_def getMessageByID_def getMessagesByIDs_def getMessagesByChatID_def
  deleteOldMessages_def deleteMessagesByChatID_def addConfirmedStep_def
  getConfirmedStepsByThreadID_def deleteOldConfirmedSteps_def addFile_def getFileByID_def
  getFilesByIDs_def deleteFileByID_def deleteOldFiles_def

lemma closed_rejects:
  assumes "db s = None"
  shows "addChat chat s = (Inl (Error ''DB closed''), s)"
    and "getChatByID i s = (Inl (Error ''DB closed''), s)"
    and "getChatsByCreatorID creatorID offset limit s = (Inl (Error ''DB closed''), s)"
    and "countChatsByCreatorID creatorID s = (Inl (Error ''DB closed''), s)"
    and "editChatByID i updated s = (Inl (Error ''DB closed''), s)"
    and "deleteChatByID i s = (Inl (Error ''DB closed''), s)"
    and "addMessage msg s = (Inl (Error ''DB closed''), s)"
    and "getMessageByID i s = (Inl (Error ''DB closed''), s)"
    and "getMessagesByIDs ids s = (Inl (Error ''DB closed''), s)"
    and "getMessagesByChatID chatID offset limit s = (Inl (Error ''DB closed''), s)"
    and "deleteOldMessages maxDate s = (Inl (Error ''DB closed''), s)"
    and "deleteMessagesByChatID chatID s = (Inl (Error ''DB closed''), s)"
    and "addConfirmedStep step s = (Inl (Error ''DB closed''), s)"
    and "getConfirmedStepsByThreadID threadID s = (Inl (Error ''DB closed''), s)"
    and "deleteOldConfirmedSteps maxDate s = (Inl (Error ''DB closed''), s)"
    and "addFile data s = (Inl (Error ''DB closed''), s)"
    and "getFileByID i s = (Inl (Error ''DB closed''), s)"
    and "getFilesByIDs ids s = (Inl (Error ''DB closed''), s)"
    and "deleteFileByID i s = (Inl (Error ''DB closed''), s)"
    and "deleteOldFiles maxDate s = (Inl (Error ''DB closed''), s)"
  using assms by (simp_all add: operation_defs closed_def Let_def)

lemma stmt_read_no_Error [simp]:
  "stmt_read q f s \<noteq> (Inl (Error m), s')" "fst (stmt_read q f s) \<noteq> Inl (Error m)"
  by (auto simp: stmt_read_def busy_def split: prod.splits bool.splits)

lemma stmt_write_no_Error:
  assumes "\<And>T. f T \<noteq> Inl (Error m)"
  shows "stmt_write q f s \<noteq> (Inl (Error m), s')" "fst (stmt_write q f s) \<noteq> Inl (Error m)"
  using assms by (auto simp: stmt_write_def busy_def split: prod.splits bool.splits sum.splits)

lemma sql_no_Error [simp]:
  "sql_addChat i n c t T \<noteq> Inl (Error m)"
  "sql_editChatByID on oc ot i T \<noteq> Inl (Error m)"
  "sql_deleteChatByID i T \<noteq> Inl (Error m)"
  "sql_delete_chat i T \<noteq> Inl (Error m)"
  "sql_addMessage i c sd rt th sc st b rr t T \<noteq> Inl (Error m)"
  "sql_deleteOldMessages t T \<noteq> Inl (Error m)"
  "sql_deleteMessagesByChatID c T \<noteq> Inl (Error m)"
  "sql_addConfirmedStep i th2 mi sc2 st2 t T \<noteq> Inl (Error m)"
  "sql_deleteOldConfirmedSteps t T \<noteq> Inl (Error m)"
  "sql_addFile i n sz mt t T \<noteq> Inl (Error m)"
  "sql_deleteFileByID i T \<noteq> Inl (Error m)"
  "sql_delete_file i T \<noteq> Inl (Error m)"
  "sql_delete_files ids T \<noteq> Inl (Error m)"
  by (simp_all add: sql_addChat_def sql_editChatByID_def sql_deleteChatByID_def sql_delete_chat_def
      sql_addMessage_def sql_deleteOldMessages_def sql_deleteMessagesByChatID_def
      sql_addConfirmedStep_def sql_deleteOldConfirmedSteps_def sql_addFile_def
      sql_deleteFileByID_def sql_delete_file_def sql_delete_files_def
      not_null_def primary_key_def too_many_variables_def split: option.splits)

lemma stmt_read_db [simp]: "db (snd (stmt_read q f s)) = db s"
  by (auto simp: stmt_read_def engine_call_def split: prod.splits bool.splits list.splits)

lemma stmt_write_db [simp]: "db (snd (stmt_write q f s)) = db s"
  by (auto simp: stmt_write_def engine_call_def split: prod.splits bool.splits list.splits sum.splits)

lemma stmt_db: "stmt_read q f s = (x, s') \<Longrightarrow> db s' = db s" "stmt_write q g s = (y, s') \<Longrightarrow> db s' = db s"
  using stmt_read_db [of q f s] stmt_write_db [of q g s] by simp_all

lemma map_rows_no_Error [simp]: "map_rows rowToMessage rows \<noteq> Inl (Error m)"
  by (induction rows) (auto simp: rowToMessage_def split: sum.splits option.splits if_splits)

lemma rowToMessage_no_Error [simp]: "rowToMessage row \<noteq> Inl (Error m)"
  by (auto simp: rowToMessage_def split: sum.splits option.splits if_splits)

lemma getChatByID_open:
  "db s \<noteq> None \<Longrightarrow> getChatByID i s \<noteq> (Inl (Error m), s')"
  "getChatByID i s = (x, s') \<Longrightarrow> db s' = db s"
  by (auto simp: getChatByID_def closed_def dest: stmt_db split: prod.splits sum.splits if_splits)

lemma getFileByID_open:
  "db s \<noteq> None \<Longrightarrow> getFileByID i s \<noteq> (Inl (Error m), s')"
  "getFileByID i s = (x, s') \<Longrightarrow> db s' = db s"
  by (auto simp: getFileByID_def closed_def dest: stmt_db split: prod.splits sum.splits if_splits)

lemma open_accepts:
  assumes "db s \<noteq> None"
  shows "fst (addChat chat s) \<noteq> Inl (Error ''DB closed'')"
    and "fst (getChatByID i s) \<noteq> Inl (Error ''DB closed'')"
    and "fst (getChatsByCreatorID creatorID offset limit s) \<noteq> Inl (Error ''DB closed'')"
    and "fst (countChatsByCreatorID creatorID s) \<noteq> Inl (Error ''DB closed'')"
    and "fst (editChatByID i updated s) \<noteq> Inl (Error ''DB closed'')"
    and "fst (deleteChatByID i s) \<noteq> Inl (Error ''DB closed'')"
    and "fst (addMessage msg s) \<noteq> Inl (Error ''DB closed'')"
    and "fst (getMessageByID i s) \<noteq> Inl (Error ''DB closed'')"
    and "fst (getMessagesByIDs ids s) \<noteq> Inl (Error ''DB closed'')"
    and "fst (getMessagesByChatID chatID offset limit s) \<noteq> Inl (Error ''DB closed'')"
    and "fst (deleteOldMessages maxDate s) \<noteq> Inl (Error ''DB closed'')"
    and "fst (deleteMessagesByChatID chatID s) \<noteq> Inl (Error ''DB closed'')"
    and "fst (addConfirmedStep step s) \<noteq> Inl (Error ''DB closed'')"
    and "fst (getConfirmedStepsByThreadID threadID s) \<noteq> Inl (Error ''DB closed'')"
    and "fst (deleteOldConfirmedSteps maxDate s) \<noteq> Inl (Error ''DB closed'')"
    and "fst (addFile data s) \<noteq> Inl (Error ''DB closed'')"
    and "fst (getFileByID i s) \<noteq> Inl (Error ''DB closed'')"
    and "fst (getFilesByIDs ids s) \<noteq> Inl (Error ''DB closed'')"
    and "fst (deleteFileByID i s) \<noteq> Inl (Error ''DB closed'')"
    and "fst (deleteOldFiles maxDate s) \<noteq> Inl (Error ''DB closed'')"
  using assms
  by (auto simp: operation_defs Let_def stmt_write_no_Error
      dest: stmt_db getChatByID_open getFileByID_open
      split: prod.splits sum.splits option.splits)

lemma consistent_new: "consistent (new_SqliteDatabase path prag t)"
  by (simp add: consistent_def new_SqliteDatabase_def)

lemma consistent_open_close: "consistent s \<Longrightarrow> consistent (snd (open s))" "consistent s \<Longrightarrow> consistent (snd (close s))"
  by (auto simp: consistent_def open_def close_def prepareStatements_def)

lemma stmt_isOpen [simp]:
  "isOpen (snd (stmt_read q f s)) = isOpen s" "isOpen (snd (stmt_write q g s)) = isOpen s"
  by (auto simp: stmt_read_def stmt_write_def engine_call_def
      split: prod.splits bool.splits list.splits sum.splits)

lemma stmt_consistent [simp]:
  "consistent (snd (stmt_read q f s)) = consistent s" "consistent (snd (stmt_write q g s)) = consistent s"
  by (simp_all add: consistent_def)

lemma stmt_consistent_pair:
  "stmt_read q f s = (x, s') \<Longrightarrow> consistent s' = consistent s"
  "stmt_write q g s = (y, s') \<Longrightarrow> consistent s' = consistent s"
  using stmt_consistent(1) [of q f s] stmt_consistent(2) [of q g s] by simp_all

lemma getByID_consistent:
  "getChatByID i s = (x, s') \<Longrightarrow> consistent s' = consistent s"
  "getFileByID i s = (y, s') \<Longrightarrow> consistent s' = consistent s"
  by (auto simp: getChatByID_def getFileByID_def dest: stmt_consistent_pair
      split: prod.splits sum.splits if_splits)

lemma operations_consistent:
  assumes "consistent s"
  shows "consistent (snd (addChat chat s))"
    and "consistent (snd (getChatByID i s))"
    and "consistent (snd (getChatsByCreatorID creatorID offset limit s))"
    and "consistent (snd (countChatsByCreatorID creatorID s))"
    and "consistent (snd (editChatByID i updated s))"
    and "consistent (snd (deleteChatByID i s))"
    and "consistent (snd (addMessage msg s))"
    and "consistent (snd (getMessageByID i s))"
    and "consistent (snd (getMessagesByIDs ids s))"
    and "consistent (snd (getMessagesByChatID chatID offset limit s))"
    and "consistent (snd (deleteOldMessages maxDate s))"
    and "consistent (snd (deleteMessagesByChatID chatID s))"
    and "consistent (snd (addConfirmedStep step s))"
    and "consistent (snd (getConfirmedStepsByThreadID threadID s))"
    and "consistent (snd (deleteOldConfirmedSteps maxDate s))"
    and "consistent (snd (addFile data s))"
    and "consistent (snd (getFileByID i s))"
    and "consistent (snd (getFilesByIDs ids s))"
    and "consistent (snd (deleteFileByID i s))"
    and "consistent (snd (deleteOldFiles maxDate s))"
  using assms
  by (auto simp: operation_defs Let_def
      dest: stmt_consistent_pair getByID_consistent
      split: prod.splits sum.splits option.splits)

text \<open>
  Claim C5. Whenever \<^verbatim>\<open>db\<close> and \<^verbatim>\<open>isOpen\<close> agree (they do in every state the class
  reaches through its own methods, see \<open>consistent_new\<close>, \<open>consistent_open_close\<close> and
  \<open>operations_consistent\<close>), after \<^verbatim>\<open>close()\<close> each of the twenty operations on chats,
  messages, confirmed steps and files throws \<^verbatim>\<open>Error("DB closed")\<close>, the adapter's
  not-open error, and leaves the state as it is. A following \<^verbatim>\<open>open()\<close> succeeds on the
  same data, and after it no operation throws that error.
\<close>

theorem closed_adapter_rejects_every_operation:
  assumes "db s = None \<longleftrightarrow> \<not> isOpen s"
  shows "(let s' = snd (close s) in
           addChat chat s' = (Inl (Error ''DB closed''), s') \<and>
           getChatByID i s' = (Inl (Error ''DB closed''), s') \<and>
           getChatsByCreatorID creatorID offset limit s' = (Inl (Error ''DB closed''), s') \<and>
           countChatsByCreatorID creatorID s' = (Inl (Error ''DB closed''), s') \<and>
           editChatByID i updated s' = (Inl (Error ''DB closed''), s') \<and>
           deleteChatByID i s' = (Inl (Error ''DB closed''), s') \<and>
           addMessage msg s' = (Inl (Error ''DB closed''), s') \<and>
           getMessageByID i s' = (Inl (Error ''DB closed''), s') \<and>
           getMessagesByIDs ids s' = (Inl (Error ''DB closed''), s') \<and>
           getMessagesByChatID chatID offset limit s' = (Inl (Error ''DB closed''), s') \<and>
           deleteOldMessages maxDate s' = (Inl (Error ''DB closed''), s') \<and>
           deleteMessagesByChatID chatID s' = (Inl (Error ''DB closed''), s') \<and>
           addConfirmedStep step s' = (Inl (Error ''DB closed''), s') \<and>
           getConfirmedStepsByThreadID threadID s' = (Inl (Error ''DB closed''), s') \<and>
           deleteOldConfirmedSteps maxDate s' = (Inl (Error ''DB closed''), s') \<and>
           addFile data s' = (Inl (Error ''DB closed''), s') \<and>
           getFileByID i s' = (Inl (Error ''DB closed''), s') \<and>
           getFilesByIDs ids s' = (Inl (Error ''DB closed''), s') \<and>
           deleteFileByID i s' = (Inl (Error ''DB closed''), s') \<and>
           deleteOldFiles maxDate s' = (Inl (Error ''DB closed''), s') \<and>
           fst (open s') = Inr () \<and> store (snd (open s')) = store s) \<and>
         (let s'' = snd (open (snd (close s))) in
           fst (addChat chat s'') \<noteq> Inl (Error ''DB closed'') \<and>
           fst (getChatByID i s'') \<noteq> Inl (Error ''DB closed'') \<and>
           fst (getChatsByCreatorID creatorID offset limit s'') \<noteq> Inl (Error ''DB closed'') \<and>
           fst (countChatsByCreatorID creatorID s'') \<noteq> Inl (Error ''DB closed'') \<and>
           fst (editChatByID i updated s'') \<noteq> Inl (Error ''DB closed'') \<and>
           fst (deleteChatByID i s'') \<noteq> Inl (Error ''DB closed'') \<and>
           fst (addMessage msg s'') \<noteq> Inl (Error ''DB closed'') \<and>
           fst (getMessageByID i s'') \<noteq> Inl (Error ''DB closed'') \<and>
           fst (getMessagesByIDs ids s'') \<noteq> Inl (Error ''DB closed'') \<and>
           fst (getMessagesByChatID chatID offset limit s'') \<noteq> Inl (Error ''DB closed'') \<and>
           fst (deleteOldMessages maxDate s'') \<noteq> Inl (Error ''DB closed'') \<and>
           fst (deleteMessagesByChatID chatID s'') \<noteq> Inl (Error ''DB closed'') \<and>
           fst (addConfirmedStep step s'') \<noteq> Inl (Error ''DB closed'') \<and>
           fst (getConfirmedStepsByThreadID threadID s'') \<noteq> Inl (Error ''DB closed'') \<and>
           fst (deleteOldConfirmedSteps maxDate s'') \<noteq> Inl (Error ''DB closed'') \<and>
           fst (addFile data s'') \<noteq> Inl (Error ''DB closed'') \<and>
           fst (getFileByID i s'') \<noteq> Inl (Error ''DB closed'') \<and>
           fst (getFilesByIDs ids s'') \<noteq> Inl (Error ''DB closed'') \<and>
           fst (deleteFileByID i s'') \<noteq> Inl (Error ''DB closed'') \<and>
           fst (deleteOldFiles maxDate s'') \<noteq> Inl (Error ''DB closed''))"
proof -
  have c: "db (snd (close s)) = None"
    using assms by (rule close_closes)
  have o: "fst (open (snd (close s))) = Inr ()" "store (snd (open (snd (close s)))) = store s"
    and d: "db (snd (open (snd (close s)))) \<noteq> None"
    using assms by (auto simp: open_def close_def prepareStatements_def)
  show ?thesis
    unfolding Let_def by (simp only: closed_rejects [OF c] o open_accepts [OF d] simp_thms)
qed

theorem closed_adapter_rejects_every_operation_witness:
  "(db sample_db = None) = (\<not> isOpen sample_db) \<and>
   db sample_db \<noteq> None \<and>
   fst (getChatByID ''c1'' sample_db) = Inr (Some chat1) \<and>
   fst (getChatByID ''c1'' (snd (close sample_db))) = Inl (Error ''DB closed'') \<and>
   fst (addMessage hello_msg (snd (close sample_db))) = Inl (Error ''DB closed'') \<and>
   fst (deleteOldConfirmedSteps (Date 0) (snd (close sample_db))) = Inl (Error ''DB closed'') \<and>
   fst (getFilesByIDs [] (snd (close sample_db))) = Inl (Error ''DB closed'') \<and>
   fst (getChatByID ''c1'' (snd (open (snd (close sample_db))))) \<noteq> Inl (Error ''DB closed'')"
proof -
  have a: "(db sample_db = None) = (\<not> isOpen sample_db)"
    by (simp add: sample_db_open sample_db_def addFile_def addChat_def fresh_db_open stmt_write_healthy
      sql_addChat_def sql_addFile_def chat1_def file1_def empty_tables_def)
      (simp add: fresh_db_def open_def new_SqliteDatabase_def prepareStatements_def)
  from closed_adapter_rejects_every_operation [OF a, of chat1 "''c1''" "''u1''" None None rename_only
      hello_msg "[]" "''c1''" "Date 0" _ "''t1''" file1]
  show ?thesis
    using a by (simp add: Let_def sample_db_open sample_chat1)
qed

subsection \<open>Purging by age\<close>

lemma filter_not_in_selected:
  assumes "distinct (map f xs)"
  shows "filter (\<lambda>r. f r \<notin> set (map f (filter P xs))) xs = filter (\<lambda>r. \<not> P r) xs"
proof (rule filter_cong [OF refl])
  fix r assume r: "r \<in> set xs"
  have "f r \<in> set (map f (filter P xs)) \<longleftrightarrow> P r"
  proof
    assume "f r \<in> set (map f (filter P xs))"
    then obtain r' where r': "r' \<in> set xs" "P r'" "f r' = f r" by auto
    with assms r have "r' = r" by (meson distinct_map inj_onD)
    with r' show "P r" by simp
  next
    assume "P r" with r show "f r \<in> set (map f (filter P xs))" by auto
  qed
  then show "(f r \<notin> set (map f (filter P xs))) = (\<not> P r)" by simp
qed

lemma find_filter_not_in:
  "find (\<lambda>r. f r = i) (filter (\<lambda>r. f r \<notin> A) xs) = (if i \<in> A then None else find (\<lambda>r. f r = i) xs)"
  by (induction xs) auto

lemma deleteOldFiles_healthy:
  assumes "db s \<noteq> None" and "faults s = []"
    and "length (sql_deleteOldFiles (getTime maxDate) (store s)) \<le> max_parameters"
  shows "fst (deleteOldFiles maxDate s) = Inr (sql_deleteOldFiles (getTime maxDate) (store s))"
    and "store (snd (deleteOldFiles maxDate s)) =
           (store s)\<lparr>files := filter (\<lambda>r. files_id r \<notin> set (sql_deleteOldFiles (getTime maxDate) (store s)))
                                  (files (store s))\<rparr>"
    and "db (snd (deleteOldFiles maxDate s)) = db s"
    and "faults (snd (deleteOldFiles maxDate s)) = []"
  using assms
  by (auto simp: deleteOldFiles_def stmt_read_healthy stmt_write_healthy sql_delete_files_def)

lemma deleteOldFiles_too_many:
  assumes "db s \<noteq> None" and "faults s = []"
    and "max_parameters < length (sql_deleteOldFiles (getTime maxDate) (store s))"
  shows "fst (deleteOldFiles maxDate s) = Inl too_many_variables"
    and "store (snd (deleteOldFiles maxDate s)) = store s"
    and "db (snd (deleteOldFiles maxDate s)) = db s"
    and "faults (snd (deleteOldFiles maxDate s)) = []"
  using assms
  by (auto simp: deleteOldFiles_def stmt_read_healthy stmt_write_healthy sql_delete_files_def)

lemma length_sql_deleteOldFiles:
  "length (sql_deleteOldFiles (Some t) T) = length (filter (\<lambda>f. files_createdAt f < t) (files T))"
  "sql_deleteOldFiles None T = []"
  by (simp_all add: sql_deleteOldFiles_def)

text \<open>
  As long as the files to purge are at most \<open>max_parameters\<close>: on an open adapter whose
  file ids are distinct (the table's primary key), \<^verbatim>\<open>deleteOldFiles(new Date(t))\<close> returns
  the ids of the files with \<^verbatim>\<open>createdAt < t\<close>, each once and no other id; the files left
  are exactly those with \<^verbatim>\<open>t <= createdAt\<close>; every returned id is then not found by
  \<^verbatim>\<open>getFileByID\<close>, every other id is found as before, and the other tables are unchanged.
  With an invalid date nothing is returned and nothing is deleted.
\<close>

lemma deleteOldFiles_within_parameter_limit:
  assumes "db s \<noteq> None" and "faults s = []" and "distinct (map files_id (files (store s)))"
    and "length (filter (\<lambda>f. files_createdAt f < t) (files (store s))) \<le> max_parameters"
  shows "(let d = deleteOldFiles (Date t) s; s' = snd d in
           (\<exists>ids. fst d = Inr ids \<and> distinct ids \<and>
              set ids = files_id ` {f \<in> set (files (store s)). files_createdAt f < t} \<and>
              (\<forall>i \<in> set ids. fst (getFileByID i s') = Inr None) \<and>
              (\<forall>j. j \<notin> set ids \<longrightarrow> fst (getFileByID j s') = fst (getFileByID j s))) \<and>
           files (store s') = filter (\<lambda>f. t \<le> files_createdAt f) (files (store s)) \<and>
           chats (store s') = chats (store s) \<and>
           messages (store s') = messages (store s) \<and>
           confirmed_steps (store s') = confirmed_steps (store s)) \<and>
         fst (deleteOldFiles InvalidDate s) = Inr [] \<and>
         store (snd (deleteOldFiles InvalidDate s)) = store s"
proof -
  let ?ids = "sql_deleteOldFiles (Some t) (store s)"
  let ?s' = "snd (deleteOldFiles (Date t) s)"
  have len: "length (sql_deleteOldFiles (getTime (Date t)) (store s)) \<le> max_parameters"
    using assms(4) by (simp add: length_sql_deleteOldFiles)
  note h = deleteOldFiles_healthy [OF assms(1,2) len, simplified]
  have s': "db ?s' \<noteq> None" "faults ?s' = []"
    using h assms by simp_all
  have 1: "distinct ?ids"
    using assms(3) by (simp add: sql_deleteOldFiles_def distinct_map_filter)
  have 2: "set ?ids = files_id ` {f \<in> set (files (store s)). files_createdAt f < t}"
    by (auto simp: sql_deleteOldFiles_def)
  have ids_set: "set ?ids = set (map files_id (filter (\<lambda>f. files_createdAt f < t) (files (store s))))"
    by (simp add: sql_deleteOldFiles_def)
  have 3: "files (store ?s') = filter (\<lambda>f. t \<le> files_createdAt f) (files (store s))"
    using filter_not_in_selected [OF assms(3), of "\<lambda>f. files_createdAt f < t"]
    unfolding h(2) ids_set by (simp add: not_less)
  have 4: "\<forall>i \<in> set ?ids. fst (getFileByID i ?s') = Inr None"
    by (simp add: getFileByID_healthy [OF s'] h find_filter_not_in)
  have 5: "\<forall>j. j \<notin> set ?ids \<longrightarrow> fst (getFileByID j ?s') = fst (getFileByID j s)"
    by (simp add: getFileByID_healthy [OF s'] getFileByID_healthy [OF assms(1,2)] h find_filter_not_in)
  have 6: "fst (deleteOldFiles InvalidDate s) = Inr []" "store (snd (deleteOldFiles InvalidDate s)) = store s"
    using deleteOldFiles_healthy [OF assms(1,2), of InvalidDate]
    by (simp_all add: length_sql_deleteOldFiles)
  show ?thesis
    unfolding Let_def
    using 1 2 3 4 5 6 h(1) by (auto simp: h(2))
qed

lemma busy_db_open: "db busy_db = Some Connection" "faults busy_db = []"
  and busy_db_store: "store busy_db =
     \<lparr>chats = [\<lparr>chats_id = ''c1'', chats_name = ''General'', chats_creatorID = ''u1'',
                chats_createdAt = 1700000000000\<rparr>],
      messages = [hello_row ''m1'' ''c1'' 1000, hello_row ''m2'' ''c1'' 1000,
                  hello_row ''m3'' ''c1'' 2000, hello_row ''m4'' ''c2'' 1500],
      confirmed_steps =
        [\<lparr>confirmed_steps_id = ''s1'', confirmed_steps_threadID = ''t1'', confirmed_steps_messageID = ''m1'',
          confirmed_steps_scene = ''signup'', confirmed_steps_step = ''email'', confirmed_steps_createdAt = 1000\<rparr>,
         \<lparr>confirmed_steps_id = ''s2'', confirmed_steps_threadID = ''t1'', confirmed_steps_messageID = ''m3'',
          confirmed_steps_scene = ''signup'', confirmed_steps_step = ''code'', confirmed_steps_createdAt = 2000\<rparr>],
      files = [\<lparr>files_id = ''f1'', files_name = ''a.png'', files_size = 2048,
                files_mimeType = ''image/png'', files_createdAt = 1700000000500\<rparr>,
               \<lparr>files_id = ''f2'', files_name = ''b.txt'', files_size = 12,
                files_mimeType = ''text/plain'', files_createdAt = 1700000000900\<rparr>]\<rparr>"
  by (simp_all add: busy_db_def addFile_def addMessage_def addConfirmedStep_def sample_db_open
      sample_db_store stmt_write_healthy sql_addMessage_def sql_addFile_def sql_addConfirmedStep_def
      file2_def hello_at_def hello_msg_def step1_def step2_def hello_row_def)

lemma deleteOldFiles_example:
  "fst (deleteOldFiles (Date 1700000000900) busy_db) = Inr [''f1'']"
  "map files_id (files (store (snd (deleteOldFiles (Date 1700000000900) busy_db)))) = [''f2'']"
  "fst (getFileByID ''f1'' (snd (deleteOldFiles (Date 1700000000900) busy_db))) = Inr None"
  "fst (getFileByID ''f2'' (snd (deleteOldFiles (Date 1700000000900) busy_db))) = Inr (Some file2)"
proof -
  have a: "db busy_db \<noteq> None" and b: "faults busy_db = []"
    and c: "distinct (map files_id (files (store busy_db)))"
    and l: "length (filter (\<lambda>f. files_createdAt f < 1700000000900) (files (store busy_db))) \<le> max_parameters"
    by (simp_all add: busy_db_open busy_db_store max_parameters_def)
  have l': "length (sql_deleteOldFiles (getTime (Date 1700000000900)) (store busy_db)) \<le> max_parameters"
    using l by (simp add: length_sql_deleteOldFiles)
  show d: "fst (deleteOldFiles (Date 1700000000900) busy_db) = Inr [''f1'']"
    by (simp add: deleteOldFiles_healthy [OF a b l'] sql_deleteOldFiles_def busy_db_store order_by_def)
  have e: "fst (getFileByID ''f2'' busy_db) = Inr (Some file2)"
    by (simp add: getFileByID_healthy [OF a b] busy_db_store rowToFile_def file2_def new_Date_def max_time_def)
  from deleteOldFiles_within_parameter_limit [OF a b c l] d e
  show "map files_id (files (store (snd (deleteOldFiles (Date 1700000000900) busy_db)))) = [''f2'']"
    "fst (getFileByID ''f1'' (snd (deleteOldFiles (Date 1700000000900) busy_db))) = Inr None"
    "fst (getFileByID ''f2'' (snd (deleteOldFiles (Date 1700000000900) busy_db))) = Inr (Some file2)"
    by (simp_all add: Let_def busy_db_store)
qed

lemma hello_row_sel [simp]:
  "messages_id (hello_row i c t) = i" "messages_chatID (hello_row i c t) = c"
  "messages_createdAt (hello_row i c t) = t"
  by (simp_all add: hello_row_def)

lemma parse_hello_body: "JSON_parse (JSON_stringify hello_body) = Some hello_body"
  by (simp add: hello_body_def JSON_parse_def quote_def escape_char_def eval_nat_numeral
      skip_ws_def is_ws_def cons_fst_def)

lemma rowToMessage_hello_row:
  "- max_time \<le> t \<Longrightarrow> t \<le> max_time \<Longrightarrow> rowToMessage (hello_row i c t) = Inr ((hello_at i c t)\<lparr>msg_threadID := Null\<rparr>)"
  by (simp add: rowToMessage_def hello_row_def parse_hello_body hello_at_def hello_msg_def new_Date_def)

lemma deleteOldMessages_healthy:
  assumes "db s \<noteq> None" and "faults s = []"
  shows "deleteOldMessages maxDate s =
     (Inr (length (filter (\<lambda>r. less_param (messages_createdAt r) (getTime maxDate)) (messages (store s)))),
      s\<lparr>log := log s @ [''deleteOldMessages''],
        store := (store s)\<lparr>messages :=
          filter (\<lambda>r. \<not> less_param (messages_createdAt r) (getTime maxDate)) (messages (store s))\<rparr>\<rparr>)"
  using assms by (simp add: deleteOldMessages_def stmt_write_healthy sql_deleteOldMessages_def)

lemma deleteOldConfirmedSteps_healthy:
  assumes "db s \<noteq> None" and "faults s = []"
  shows "deleteOldConfirmedSteps maxDate s =
     (Inr (length (filter (\<lambda>r. less_param (confirmed_steps_createdAt r) (getTime maxDate)) (confirmed_steps (store s)))),
      s\<lparr>log := log s @ [''deleteOldConfirmedSteps''],
        store := (store s)\<lparr>confirmed_steps :=
          filter (\<lambda>r. \<not> less_param (confirmed_steps_createdAt r) (getTime maxDate)) (confirmed_steps (store s))\<rparr>\<rparr>)"
  using assms by (simp add: deleteOldConfirmedSteps_def stmt_write_healthy sql_deleteOldConfirmedSteps_def)

lemma length_filter_split: "length xs = length (filter P xs) + length (filter (\<lambda>x. \<not> P x) xs)"
  by (induction xs) auto

text \<open>
  Claim C8. On an open adapter, \<^verbatim>\<open>deleteOldMessages(new Date(t))\<close> keeps exactly the
  messages with \<^verbatim>\<open>t <= createdAt\<close> (so a message created at \<open>t\<close> itself stays), deletes
  the others, touches no other table, and returns the number of messages with
  \<^verbatim>\<open>createdAt < t\<close>, which is the number of rows that went away.
  \<^verbatim>\<open>deleteOldConfirmedSteps\<close> does the same on confirmed steps. With an invalid date both
  delete nothing and return 0.
\<close>

theorem deleteOld_removes_strictly_older_rows:
  assumes "db s \<noteq> None" and "faults s = []"
  shows "(let d = deleteOldMessages (Date t) s; s' = snd d in
           messages (store s') = filter (\<lambda>m. t \<le> messages_createdAt m) (messages (store s)) \<and>
           fst d = Inr (length (filter (\<lambda>m. messages_createdAt m < t) (messages (store s)))) \<and>
           fst d = Inr (length (messages (store s)) - length (messages (store s'))) \<and>
           chats (store s') = chats (store s) \<and>
           confirmed_steps (store s') = confirmed_steps (store s) \<and>
           files (store s') = files (store s)) \<and>
         (let d = deleteOldConfirmedSteps (Date t) s; s' = snd d in
           confirmed_steps (store s') =
             filter (\<lambda>c. t \<le> confirmed_steps_createdAt c) (confirmed_steps (store s)) \<and>
           fst d = Inr (length (filter (\<lambda>c. confirmed_steps_createdAt c < t) (confirmed_steps (store s)))) \<and>
           fst d = Inr (length (confirmed_steps (store s)) - length (confirmed_steps (store s'))) \<and>
           chats (store s') = chats (store s) \<and>
           messages (store s') = messages (store s) \<and>
           files (store s') = files (store s)) \<and>
         fst (deleteOldMessages InvalidDate s) = Inr 0 \<and>
         store (snd (deleteOldMessages InvalidDate s)) = store s \<and>
         fst (deleteOldConfirmedSteps InvalidDate s) = Inr 0 \<and>
         store (snd (deleteOldConfirmedSteps InvalidDate s)) = store s"
proof -
  have m: "length (messages (store s)) - length (filter (\<lambda>m. t \<le> messages_createdAt m) (messages (store s)))
           = length (filter (\<lambda>m. messages_createdAt m < t) (messages (store s)))"
    using length_filter_split [of "messages (store s)" "\<lambda>m. messages_createdAt m < t"]
    by (simp add: not_less)
  have c: "length (confirmed_steps (store s)) -
             length (filter (\<lambda>c. t \<le> confirmed_steps_createdAt c) (confirmed_steps (store s)))
           = length (filter (\<lambda>c. confirmed_steps_createdAt c < t) (confirmed_steps (store s)))"
    using length_filter_split [of "confirmed_steps (store s)" "\<lambda>c. confirmed_steps_createdAt c < t"]
    by (simp add: not_less)
  show ?thesis
    unfolding Let_def
    by (simp add: deleteOldMessages_healthy [OF assms] deleteOldConfirmedSteps_healthy [OF assms]
        not_less m c)
qed

theorem deleteOld_removes_strictly_older_rows_witness:
  "db busy_db \<noteq> None \<and> faults busy_db = [] \<and>
   fst (deleteOldMessages (Date 1500) busy_db) = Inr 2 \<and>
   map messages_id (messages (store (snd (deleteOldMessages (Date 1500) busy_db)))) = [''m3'', ''m4''] \<and>
   fst (deleteOldConfirmedSteps (Date 1000) busy_db) = Inr 0 \<and>
   fst (deleteOldConfirmedSteps (Date 1001) busy_db) = Inr 1 \<and>
   map confirmed_steps_id (confirmed_steps (store (snd (deleteOldConfirmedSteps (Date 1001) busy_db)))) = [''s2'']"
proof -
  have a: "db busy_db \<noteq> None" and b: "faults busy_db = []"
    by (simp_all add: busy_db_open)
  from deleteOld_removes_strictly_older_rows [OF a b, of 1500]
    deleteOld_removes_strictly_older_rows [OF a b, of 1000]
    deleteOld_removes_strictly_older_rows [OF a b, of 1001] a b
  show ?thesis
    by (simp add: Let_def busy_db_store hello_row_def)
qed

subsection \<open>Batch reads\<close>

text \<open>
  Claim C7. On an open adapter, \<^verbatim>\<open>getMessagesByIDs([])\<close> and \<^verbatim>\<open>getFilesByIDs([])\<close>
  return the empty list and leave the whole state as it is, the log of statements sent
  to the engine included, whether or not the engine is about to fail. For a non-empty
  list one SELECT is sent. Its rows are mapped in the order the engine gives them: two
  lists with the same ids in different orders get the same answer, so the order of the
  result does not follow the order of the input.
\<close>

theorem batch_reads_skip_the_engine_on_empty_input:
  assumes "db s \<noteq> None"
  shows "getMessagesByIDs [] s = (Inr [], s) \<and>
         getFilesByIDs [] s = (Inr [], s) \<and>
         (\<forall>ids. ids \<noteq> [] \<longrightarrow>
            log (snd (getMessagesByIDs ids s)) =
              log s @ [''SELECT * FROM messages WHERE id IN ('' @ placeholders ids @ '')''] \<and>
            log (snd (getFilesByIDs ids s)) =
              log s @ [''SELECT * FROM files WHERE id IN ('' @ placeholders ids @ '')'']) \<and>
         (\<forall>ids ids'. ids \<noteq> [] \<and> ids' \<noteq> [] \<and> set ids = set ids' \<longrightarrow>
            fst (getMessagesByIDs ids s) = fst (getMessagesByIDs ids' s) \<and>
            fst (getFilesByIDs ids s) = fst (getFilesByIDs ids' s))"
  using assms
  by (auto simp: getMessagesByIDs_def getFilesByIDs_def stmt_read_def engine_call_def
      sql_getMessagesByIDs_def sql_getFilesByIDs_def
      split: prod.splits list.splits bool.splits sum.splits)

lemma getMessagesByIDs_healthy:
  assumes "db s \<noteq> None" and "faults s = []" and "ids \<noteq> []"
  shows "fst (getMessagesByIDs ids s) =
           map_rows rowToMessage
             (order_by (\<lambda>a b. messages_id a \<le> messages_id b)
                (filter (\<lambda>r. messages_id r \<in> set ids) (messages (store s))))"
  using assms by (auto simp: getMessagesByIDs_def stmt_read_healthy sql_getMessagesByIDs_def)

theorem batch_reads_skip_the_engine_on_empty_input_witness:
  "db busy_db \<noteq> None \<and>
   getMessagesByIDs [] (busy_db\<lparr>faults := [True]\<rparr>) = (Inr [], busy_db\<lparr>faults := [True]\<rparr>) \<and>
   getFilesByIDs [] (busy_db\<lparr>faults := [True]\<rparr>) = (Inr [], busy_db\<lparr>faults := [True]\<rparr>) \<and>
   fst (getMessagesByIDs [''m3'', ''m1''] busy_db) = fst (getMessagesByIDs [''m1'', ''m3''] busy_db) \<and>
   map_sum id (map msg_id) (fst (getMessagesByIDs [''m3'', ''m1''] busy_db)) = Inr [''m1'', ''m3'']"
proof -
  have a: "db busy_db \<noteq> None" and b: "faults busy_db = []"
    by (simp_all add: busy_db_open)
  have a': "db (busy_db\<lparr>faults := [True]\<rparr>) \<noteq> None"
    using a by simp
  have r: "fst (getMessagesByIDs [''m1'', ''m3''] busy_db) =
             Inr [(hello_at ''m1'' ''c1'' 1000)\<lparr>msg_threadID := Null\<rparr>, (hello_at ''m3'' ''c1'' 2000)\<lparr>msg_threadID := Null\<rparr>]"
    by (simp add: getMessagesByIDs_healthy [OF a b] busy_db_store rowToMessage_hello_row max_time_def
        order_by_def)
  have e: "getMessagesByIDs [] (busy_db\<lparr>faults := [True]\<rparr>) = (Inr [], busy_db\<lparr>faults := [True]\<rparr>)"
    "getFilesByIDs [] (busy_db\<lparr>faults := [True]\<rparr>) = (Inr [], busy_db\<lparr>faults := [True]\<rparr>)"
    using batch_reads_skip_the_engine_on_empty_input [OF a'] by blast+
  have "ids \<noteq> [] \<and> ids' \<noteq> [] \<and> set ids = set ids' \<longrightarrow>
        fst (getMessagesByIDs ids busy_db) = fst (getMessagesByIDs ids' busy_db)" for ids ids'
    using batch_reads_skip_the_engine_on_empty_input [OF a] by blast
  from this [of "[''m3'', ''m1'']" "[''m1'', ''m3'']"]
  have q: "fst (getMessagesByIDs [''m3'', ''m1''] busy_db) = fst (getMessagesByIDs [''m1'', ''m3''] busy_db)"
    by auto
  show ?thesis
    using a e by (simp add: q r hello_at_def)
qed

subsection \<open>Reading messages\<close>

lemma find_distinct:
  "distinct (map f xs) \<Longrightarrow> r \<in> set xs \<Longrightarrow> find (\<lambda>x. f x = f r) xs = Some r"
  by (induction xs) (auto simp: rev_image_eqI)

lemma getMessageByID_healthy:
  assumes "db s \<noteq> None" and "faults s = []"
  shows "fst (getMessageByID i s) =
     (case find (\<lambda>r. messages_id r = i) (messages (store s)) of
        None \<Rightarrow> Inr None
      | Some row \<Rightarrow> map_sum id Some (rowToMessage row))"
  using assms
  by (auto simp: getMessageByID_def stmt_read_healthy sql_getMessageByID_def
      split: option.splits sum.splits)

text \<open>
  Claim C9. On an open adapter, for a stored message row whose \<^verbatim>\<open>body\<close> text is not JSON,
  \<^verbatim>\<open>getMessageByID\<close> of its id returns no record: it throws the \<^verbatim>\<open>SyntaxError\<close> of
  \<^verbatim>\<open>JSON.parse\<close>, which is the adapter's serialization error (the code has no error
  class of its own for it), and no other error.
\<close>

theorem getMessageByID_unparsable_body:
  assumes "db s \<noteq> None" and "faults s = []"
    and "distinct (map messages_id (messages (store s)))"
    and "row \<in> set (messages (store s))"
    and "JSON_parse (messages_body row) = None"
  shows "fst (getMessageByID (messages_id row) s) = Inl SyntaxError"
  using assms
  by (simp add: getMessageByID_healthy find_distinct rowToMessage_def)

theorem getMessageByID_unparsable_body_witness:
  "db tampered_db \<noteq> None \<and> faults tampered_db = [] \<and>
   distinct (map messages_id (messages (store tampered_db))) \<and>
   (hello_row ''m1'' ''c1'' 1000)\<lparr>messages_body := ''{text: hello''\<rparr> \<in> set (messages (store tampered_db)) \<and>
   JSON_parse ''{text: hello'' = None \<and>
   fst (getMessageByID ''m1'' tampered_db) = Inl SyntaxError"
proof -
  have s: "db tampered_db \<noteq> None" "faults tampered_db = []"
    "messages (store tampered_db) = [(hello_row ''m1'' ''c1'' 1000)\<lparr>messages_body := ''{text: hello''\<rparr>]"
    by (simp_all add: tampered_db_def open_def new_SqliteDatabase_def prepareStatements_def empty_tables_def)
  have d: "distinct (map messages_id (messages (store tampered_db)))"
    and r: "(hello_row ''m1'' ''c1'' 1000)\<lparr>messages_body := ''{text: hello''\<rparr> \<in> set (messages (store tampered_db))"
    by (simp_all add: s)
  have p: "JSON_parse (messages_body ((hello_row ''m1'' ''c1'' 1000)\<lparr>messages_body := ''{text: hello''\<rparr>)) = None"
    by (simp add: JSON_parse_def eval_nat_numeral skip_ws_def is_ws_def)
  from getMessageByID_unparsable_body [OF s(1,2) d r p] s(1,2) d r p
  show ?thesis by simp
qed

subsection \<open>Ordering and paging\<close>

lemma message_order_total: "message_order a b \<or> message_order b a"
  by (auto simp: message_order_def)

lemma message_order_trans: "message_order a b \<Longrightarrow> message_order b c \<Longrightarrow> message_order a c"
  by (auto simp: message_order_def)

lemma sorted_limit_offset: "sorted_wrt P xs \<Longrightarrow> sorted_wrt P (limit_offset lim off xs)"
  by (simp add: limit_offset_def Let_def sorted_wrt_drop sorted_wrt_take)

lemma set_limit_offset: "set (limit_offset lim off xs) \<subseteq> set xs"
  by (auto simp: limit_offset_def Let_def dest: in_set_takeD in_set_dropD)

lemma sorted_messages_page:
  "sorted_wrt message_order (sql_getMessagesByChatID c lim off T)"
  unfolding sql_getMessagesByChatID_def
  by (intro sorted_limit_offset sorted_order_by message_order_total)
    (erule (1) message_order_trans)

lemma page_of_chat:
  "r \<in> set (sql_getMessagesByChatID c lim off T) \<Longrightarrow> r \<in> set (messages T) \<and> messages_chatID r = c"
  using set_limit_offset [of lim off "order_by message_order (filter (\<lambda>r. messages_chatID r = c) (messages T))"]
  by (auto simp: sql_getMessagesByChatID_def)

lemma map_rows_Inr_D:
  "map_rows f xs = Inr ys \<Longrightarrow> list_all2 (\<lambda>x y. f x = Inr y) xs ys"
  by (induction xs arbitrary: ys) (auto split: sum.splits)

lemma map_rows_Inr_I:
  "list_all2 (\<lambda>x y. f x = Inr y) xs ys \<Longrightarrow> map_rows f xs = Inr ys"
  by (induction xs ys rule: list_all2_induct) auto

lemma map_rows_Inr:
  "map_rows f xs = Inr ys \<longleftrightarrow> list_all2 (\<lambda>x y. f x = Inr y) xs ys"
  using map_rows_Inr_D map_rows_Inr_I by blast

lemma map_rows_total:
  "(\<forall>x \<in> set xs. \<exists>y. f x = Inr y) \<Longrightarrow> \<exists>ys. map_rows f xs = Inr ys"
  by (induction xs) (auto split: sum.splits)

lemma map_rows_take_drop:
  "map_rows f xs = Inr ys \<Longrightarrow> map_rows f (take n (drop k xs)) = Inr (take n (drop k ys))"
  by (simp add: map_rows_Inr list_all2_takeI list_all2_dropI)

lemma sorted_wrt_all2:
  assumes "list_all2 R xs ys" and "sorted_wrt P xs"
    and "\<And>x x' y y'. x \<in> set xs \<Longrightarrow> x' \<in> set xs \<Longrightarrow> R x y \<Longrightarrow> R x' y' \<Longrightarrow> P x x' \<Longrightarrow> Q y y'"
  shows "sorted_wrt Q ys"
  using assms
proof (induction xs ys rule: list_all2_induct)
  case Nil
  then show ?case by simp
next
  case (Cons x xs y ys)
  have "Q y y'" if "y' \<in> set ys" for y'
  proof -
    from that obtain i where i: "i < length ys" "ys ! i = y'"
      by (auto simp: in_set_conv_nth)
    with Cons.hyps(2) have "xs ! i \<in> set xs" "R (xs ! i) y'"
      by (auto simp: list_all2_conv_all_nth)
    then obtain x' where x': "x' \<in> set xs" "R x' y'"
      by blast
    then have "P x x'"
      using Cons.prems(1) by simp
    with x' Cons.hyps(1) show ?thesis
      by (intro Cons.prems(2) [of x x' y y']) simp_all
  qed
  moreover have "sorted_wrt Q ys"
    using Cons by auto
  ultimately show ?case by simp
qed

lemma rowToMessage_fields:
  assumes "rowToMessage r = Inr m"
  shows "msg_id m = messages_id r" and "msg_chatID m = messages_chatID r"
    and "msg_createdAt m = new_Date (messages_createdAt r)"
  using assms by (auto simp: rowToMessage_def split: option.splits sum.splits if_splits)

lemma getMessagesByChatID_healthy:
  assumes "db s \<noteq> None" and "faults s = []"
  shows "fst (getMessagesByChatID c offset limit s) =
           map_rows rowToMessage
             (sql_getMessagesByChatID c (case limit of None \<Rightarrow> 100 | Some x \<Rightarrow> x)
                (case offset of None \<Rightarrow> 0 | Some x \<Rightarrow> x) (store s))"
  using assms by (auto simp: getMessagesByChatID_def Let_def stmt_read_healthy)

lemma map_rows_fields:
  assumes "list_all2 (\<lambda>r m. f r = Inr m) rows ms" and "\<And>r m. f r = Inr m \<Longrightarrow> g m = h r"
  shows "map g ms = map h rows"
  using assms by (induction rows ms rule: list_all2_induct) auto

lemma limit_offset_all [simp]: "limit_offset (- 1) 0 xs = xs"
  by (simp add: limit_offset_def)

lemma limit_offset_page: "0 \<le> lim \<Longrightarrow> limit_offset lim off xs = take (nat lim) (drop (nat off) xs)"
  by (simp add: limit_offset_def)

lemma newer_first_rows:
  assumes "rowToMessage r = Inr m" and "rowToMessage r' = Inr m'" and "message_order r r'"
    and "- max_time \<le> messages_createdAt r \<and> messages_createdAt r \<le> max_time"
    and "- max_time \<le> messages_createdAt r' \<and> messages_createdAt r' \<le> max_time"
  shows "newer_first m m'"
  using assms rowToMessage_fields [OF assms(1)] rowToMessage_fields [OF assms(2)]
  by (auto simp: newer_first_def message_order_def new_Date_def)

lemma sorted_messages:
  assumes "map_rows rowToMessage (sql_getMessagesByChatID c lim off T) = Inr ms"
    and "\<forall>r \<in> set (messages T). - max_time \<le> messages_createdAt r \<and> messages_createdAt r \<le> max_time"
  shows "sorted_wrt newer_first ms" and "\<forall>m \<in> set ms. msg_chatID m = c"
proof -
  let ?rows = "sql_getMessagesByChatID c lim off T"
  have all2: "list_all2 (\<lambda>r m. rowToMessage r = Inr m) ?rows ms"
    using assms(1) by (rule map_rows_Inr_D)
  show "sorted_wrt newer_first ms"
  proof (rule sorted_wrt_all2 [OF all2 sorted_messages_page])
    fix x x' y y'
    assume "x \<in> set ?rows" "x' \<in> set ?rows" "rowToMessage x = Inr y" "rowToMessage x' = Inr y'"
      "message_order x x'"
    with assms(2) page_of_chat [of x c lim off T] page_of_chat [of x' c lim off T]
    show "newer_first y y'"
      by (intro newer_first_rows [of x y x' y']) auto
  qed
  have "map msg_chatID ms = map messages_chatID ?rows"
    using all2 by (rule map_rows_fields) (simp add: rowToMessage_fields)
  moreover have "\<forall>r \<in> set ?rows. messages_chatID r = c"
    using page_of_chat by blast
  ultimately have "\<forall>x \<in> set (map msg_chatID ms). x = c"
    by simp
  then show "\<forall>m \<in> set ms. msg_chatID m = c"
    by simp
qed

lemma all_messages_ids:
  assumes "map_rows rowToMessage (sql_getMessagesByChatID c (- 1) 0 T) = Inr ms"
  shows "set (map msg_id ms) = messages_id ` {r \<in> set (messages T). messages_chatID r = c}"
proof -
  have "list_all2 (\<lambda>r m. rowToMessage r = Inr m) (sql_getMessagesByChatID c (- 1) 0 T) ms"
    using assms by (rule map_rows_Inr_D)
  then have "map msg_id ms = map messages_id (sql_getMessagesByChatID c (- 1) 0 T)"
    by (rule map_rows_fields) (simp add: rowToMessage_fields)
  then show ?thesis
    by (auto simp: sql_getMessagesByChatID_def)
qed

lemma pages_of_all:
  assumes "map_rows rowToMessage (sql_getMessagesByChatID c (- 1) 0 T) = Inr ms" and "0 \<le> lim"
  shows "map_rows rowToMessage (sql_getMessagesByChatID c lim off T) = Inr (take (nat lim) (drop (nat off) ms))"
  using assms
  by (simp add: sql_getMessagesByChatID_def limit_offset_page map_rows_take_drop)

text \<open>
  Claim C2. On an open adapter whose stored \<^verbatim>\<open>createdAt\<close> values are time values of
  dates (as every value written by \<^verbatim>\<open>addMessage\<close> is), the list returned by
  \<^verbatim>\<open>getMessagesByChatID\<close> holds messages of the given chat only and is sorted: a message
  comes before another only if its \<^verbatim>\<open>createdAt\<close> is later, or the same with an id that
  is at least as great bytewise. Leaving out the offset means 0 and leaving out the
  limit means 100. The complete list (offset 0, no limit) has the ids of exactly the
  stored messages of the chat, and the page for an offset and a limit is that list with
  \<open>offset\<close> messages dropped and at most \<open>limit\<close> taken. A list is returned whenever
  every stored row can be decoded.
\<close>

theorem getMessagesByChatID_sorted_and_paged:
  assumes "db s \<noteq> None" and "faults s = []"
    and "\<forall>r \<in> set (messages (store s)). - max_time \<le> messages_createdAt r \<and> messages_createdAt r \<le> max_time"
  shows "getMessagesByChatID c None None s = getMessagesByChatID c (Some 0) (Some 100) s \<and>
         getMessagesByChatID c (Some off) None s = getMessagesByChatID c (Some off) (Some 100) s \<and>
         getMessagesByChatID c None (Some lim) s = getMessagesByChatID c (Some 0) (Some lim) s \<and>
         (\<forall>ms. fst (getMessagesByChatID c offset limit s) = Inr ms \<longrightarrow>
            sorted_wrt newer_first ms \<and> (\<forall>m \<in> set ms. msg_chatID m = c)) \<and>
         (\<forall>all. fst (getMessagesByChatID c (Some 0) (Some (- 1)) s) = Inr all \<longrightarrow>
            set (map msg_id all) = messages_id ` {r \<in> set (messages (store s)). messages_chatID r = c} \<and>
            (\<forall>k n. 0 \<le> n \<longrightarrow>
               fst (getMessagesByChatID c (Some k) (Some n) s) = Inr (take (nat n) (drop (nat k) all)))) \<and>
         ((\<forall>r \<in> set (messages (store s)). \<exists>m. rowToMessage r = Inr m) \<longrightarrow>
            (\<exists>ms. fst (getMessagesByChatID c offset limit s) = Inr ms))"
proof -
  note h = getMessagesByChatID_healthy [OF assms(1,2)]
  have defaults: "getMessagesByChatID c None None s = getMessagesByChatID c (Some 0) (Some 100) s"
    "getMessagesByChatID c (Some off) None s = getMessagesByChatID c (Some off) (Some 100) s"
    "getMessagesByChatID c None (Some lim) s = getMessagesByChatID c (Some 0) (Some lim) s"
    by (simp_all add: getMessagesByChatID_def)
  have sorted: "\<forall>ms. fst (getMessagesByChatID c offset limit s) = Inr ms \<longrightarrow>
            sorted_wrt newer_first ms \<and> (\<forall>m \<in> set ms. msg_chatID m = c)"
    using sorted_messages [OF _ assms(3)] by (simp add: h)
  have pages: "\<forall>all. fst (getMessagesByChatID c (Some 0) (Some (- 1)) s) = Inr all \<longrightarrow>
            set (map msg_id all) = messages_id ` {r \<in> set (messages (store s)). messages_chatID r = c} \<and>
            (\<forall>k n. 0 \<le> n \<longrightarrow>
               fst (getMessagesByChatID c (Some k) (Some n) s) = Inr (take (nat n) (drop (nat k) all)))"
    using all_messages_ids [of c "store s"] pages_of_all [of c "store s"] by (simp add: h)
  have total: "(\<forall>r \<in> set (messages (store s)). \<exists>m. rowToMessage r = Inr m) \<longrightarrow>
            (\<exists>ms. fst (getMessagesByChatID c offset limit s) = Inr ms)"
    unfolding h using page_of_chat by (intro impI map_rows_total) blast
  from defaults sorted pages total show ?thesis
    by blast
qed

lemma busy_db_c1:
  "fst (getMessagesByChatID ''c1'' None None busy_db) =
     Inr [(hello_at ''m3'' ''c1'' 2000)\<lparr>msg_threadID := Null\<rparr>,
          (hello_at ''m2'' ''c1'' 1000)\<lparr>msg_threadID := Null\<rparr>,
          (hello_at ''m1'' ''c1'' 1000)\<lparr>msg_threadID := Null\<rparr>]"
  "fst (getMessagesByChatID ''c1'' (Some 1) (Some 1) busy_db) =
     Inr [(hello_at ''m2'' ''c1'' 1000)\<lparr>msg_threadID := Null\<rparr>]"
  by (simp_all add: getMessagesByChatID_healthy busy_db_open busy_db_store sql_getMessagesByChatID_def
      order_by_def limit_offset_def message_order_def rowToMessage_hello_row max_time_def)

theorem getMessagesByChatID_sorted_and_paged_witness:
  "db busy_db \<noteq> None \<and> faults busy_db = [] \<and>
   list_all (\<lambda>r. - max_time \<le> messages_createdAt r \<and> messages_createdAt r \<le> max_time)
     (messages (store busy_db)) \<and>
   map_sum id (map msg_id) (fst (getMessagesByChatID ''c1'' None None busy_db)) = Inr [''m3'', ''m2'', ''m1''] \<and>
   map_sum id (map msg_id) (fst (getMessagesByChatID ''c1'' (Some 1) (Some 1) busy_db)) = Inr [''m2''] \<and>
   sorted_wrt newer_first
     [(hello_at ''m3'' ''c1'' 2000)\<lparr>msg_threadID := Null\<rparr>,
      (hello_at ''m2'' ''c1'' 1000)\<lparr>msg_threadID := Null\<rparr>,
      (hello_at ''m1'' ''c1'' 1000)\<lparr>msg_threadID := Null\<rparr>] \<and>
   getMessagesByChatID ''c1'' None None busy_db = getMessagesByChatID ''c1'' (Some 0) (Some 100) busy_db"
proof -
  have a: "db busy_db \<noteq> None" and b: "faults busy_db = []"
    by (simp_all add: busy_db_open)
  have c: "\<forall>r \<in> set (messages (store busy_db)). - max_time \<le> messages_createdAt r \<and> messages_createdAt r \<le> max_time"
    by (simp add: busy_db_store max_time_def)
  have rng: "list_all (\<lambda>r. - max_time \<le> messages_createdAt r \<and> messages_createdAt r \<le> max_time)
     (messages (store busy_db))"
    using c by (simp add: list_all_iff)
  have ids: "map_sum id (map msg_id) (fst (getMessagesByChatID ''c1'' None None busy_db)) = Inr [''m3'', ''m2'', ''m1'']"
    "map_sum id (map msg_id) (fst (getMessagesByChatID ''c1'' (Some 1) (Some 1) busy_db)) = Inr [''m2'']"
    by (simp_all add: busy_db_c1 hello_at_def)
  note t = getMessagesByChatID_sorted_and_paged [OF a b c, of "''c1''" _ _ None None]
  from t have srt: "sorted_wrt newer_first
     [(hello_at ''m3'' ''c1'' 2000)\<lparr>msg_threadID := Null\<rparr>,
      (hello_at ''m2'' ''c1'' 1000)\<lparr>msg_threadID := Null\<rparr>,
      (hello_at ''m1'' ''c1'' 1000)\<lparr>msg_threadID := Null\<rparr>]"
    using busy_db_c1(1) by blast
  from t have eq: "getMessagesByChatID ''c1'' None None busy_db = getMessagesByChatID ''c1'' (Some 0) (Some 100) busy_db"
    by blast
  show ?thesis
    by (intro conjI a b rng ids srt eq)
qed

subsection \<open>\<^verbatim>\<open>JSON.parse\<close> reads back what \<^verbatim>\<open>JSON.stringify\<close> writes\<close>

lemma is_digit_digit_char [simp]: "n < 10 \<Longrightarrow> is_digit (digit_char n)"
  by (simp add: is_digit_def digit_char_def)

lemma digit_val_digit_char [simp]: "n < 10 \<Longrightarrow> digit_val (digit_char n) = n"
  by (simp add: digit_val_def digit_char_def)

lemma digit_char_zero: "n < 10 \<Longrightarrow> digit_char n = CHR ''0'' \<longleftrightarrow> n = 0"
proof -
  assume "n < 10"
  have "digit_char n = CHR ''0'' \<longleftrightarrow> (of_char (digit_char n) :: nat) = of_char (CHR ''0'')"
    by (simp only: of_char_eq_iff)
  with \<open>n < 10\<close> show ?thesis by (simp add: digit_char_def)
qed

lemma show_nat_digits: "\<forall>c \<in> set (show_nat n). is_digit c"
  by (induction n rule: show_nat.induct) (subst show_nat.simps, auto)

lemma show_nat_nonempty [simp]: "show_nat n \<noteq> []"
  by (subst show_nat.simps) simp

lemma read_nat_append: "read_nat acc (xs @ ys) = read_nat (read_nat acc xs) ys"
  by (induction xs arbitrary: acc) auto

lemma read_nat_show_nat [simp]: "read_nat 0 (show_nat n) = n"
  by (induction n rule: show_nat.induct) (subst show_nat.simps, auto simp: read_nat_append)

lemma hd_show_nat: "hd (show_nat n) = CHR ''0'' \<longleftrightarrow> n = 0"
proof (induction n rule: show_nat.induct)
  case (1 n)
  show ?case
  proof (cases "n < 10")
    case True
    then show ?thesis by (subst show_nat.simps) (simp add: digit_char_zero)
  next
    case False
    then have "hd (show_nat n) = hd (show_nat (n div 10))"
      by (subst show_nat.simps) simp
    with False 1 show ?thesis by auto
  qed
qed

lemma show_nat_zero: "show_nat 0 = ''0''"
  by (subst show_nat.simps) (simp add: digit_char_zero)

lemma not_digit_delim: "delim rest \<Longrightarrow> takeWhile is_digit rest = [] \<and> dropWhile is_digit rest = rest"
  by (cases rest) (auto simp: delim_def is_digit_def)

lemma scan_digits_show_nat:
  assumes "delim rest"
  shows "takeWhile is_digit (show_nat n @ rest) = show_nat n"
    and "dropWhile is_digit (show_nat n @ rest) = rest"
  using show_nat_digits [of n] not_digit_delim [OF assms]
  by (simp_all add: takeWhile_append2 dropWhile_append2)

lemma scan_int_part_show_nat:
  assumes "delim rest"
  shows "scan_int_part (show_nat n @ rest) = Some (show_nat n, rest)"
proof (cases "show_nat n")
  case Nil
  then show ?thesis by simp
next
  case (Cons c r)
  have d: "is_digit c" using show_nat_digits [of n] Cons by simp
  show ?thesis
  proof (cases "n = 0")
    case True
    then show ?thesis by (simp add: show_nat_zero scan_int_part_def)
  next
    case False
    then have "c \<noteq> CHR ''0''" using hd_show_nat [of n] Cons by simp
    with d show ?thesis
      using scan_digits_show_nat [OF assms, of n] by (simp add: scan_int_part_def Cons)
  qed
qed

lemma scan_rest_delim:
  assumes "delim rest"
  shows "scan_frac rest = Some ([], rest)" and "scan_exp rest = Some ([], rest)"
  using assms by (cases rest; auto simp: delim_def scan_frac_def scan_exp_def)+

lemma show_nat_not_minus: "hd (show_nat n) \<noteq> CHR ''-''"
  using show_nat_digits [of n] show_nat_nonempty [of n]
  by (cases "show_nat n") (auto simp: is_digit_def)

lemma parse_number_show_int:
  assumes "delim rest"
  shows "parse_number (show_int i @ rest) = Some (JNum i, rest)"
proof (cases "i < 0")
  case True
  then show ?thesis
    by (simp add: parse_number_def show_int_def scan_int_part_show_nat [OF assms] scan_rest_delim [OF assms])
next
  case False
  obtain c r where c: "show_nat (nat i) = c # r"
    by (cases "show_nat (nat i)") auto
  with show_nat_not_minus [of "nat i"] have "c \<noteq> CHR ''-''" by simp
  moreover have "read_nat 0 (c # r) = nat i"
    using read_nat_show_nat [of "nat i"] c by simp
  ultimately show ?thesis
    using False c scan_int_part_show_nat [OF assms, of "nat i"]
    by (simp add: parse_number_def show_int_def scan_rest_delim [OF assms])
qed

lemma hex_val_hex_digit: "k < 16 \<Longrightarrow> hex_val (hex_digit k) = Some k"
  by (auto simp: hex_val_def hex_digit_def Let_def)

lemma hex_val_zero: "hex_val (CHR ''0'') = Some 0"
  by (simp add: hex_val_def)

lemma parse_chars_control:
  assumes "(of_char c :: nat) < 32"
  shows "parse_chars (backslash # CHR ''u'' # CHR ''0'' # CHR ''0'' #
            hex_digit (of_char c div 16) # hex_digit (of_char c mod 16) # tail)
         = cons_fst c (parse_chars tail)"
proof -
  have "(of_char c :: nat) div 16 < 16" "(of_char c :: nat) mod 16 < 16"
    using assms by simp_all
  then show ?thesis
    by (simp add: hex_val_hex_digit hex_val_zero)
qed

lemma parse_chars_escape_char:
  "parse_chars (escape_char c @ tail) = cons_fst c (parse_chars tail)"
proof (cases "c = dquote \<or> c = backslash \<or> c = CHR 0x08 \<or> c = CHR 0x0C \<or> c = CHR 0x0A \<or> c = CHR 0x0D \<or> c = CHR 0x09")
  case True
  then show ?thesis
    by (auto simp: escape_char_def unescape_def)
next
  case False
  show ?thesis
  proof (cases "(of_char c :: nat) < 32")
    case True
    with False parse_chars_control [OF True, of tail] show ?thesis
      by (simp add: escape_char_def)
  next
    case ge: False
    with False show ?thesis
      by (simp add: escape_char_def)
  qed
qed

lemma parse_chars_quote:
  "parse_chars (concat (map escape_char s) @ dquote # rest) = Some (s, rest)"
  by (induction s) (simp_all add: parse_chars_escape_char cons_fst_def)

lemma skip_ws_starter [simp]: "starter c \<Longrightarrow> skip_ws (c # cs) = c # cs"
  by (simp add: skip_ws_def starter_def)

lemma skip_ws_punct [simp]:
  "skip_ws (CHR '']'' # cs) = CHR '']'' # cs" "skip_ws (CHR ''}'' # cs) = CHR ''}'' # cs"
  "skip_ws (CHR '','' # cs) = CHR '','' # cs" "skip_ws (CHR '':'' # cs) = CHR '':'' # cs"
  by (simp_all add: skip_ws_def is_ws_def)

lemma show_int_head:
  "\<exists>c r. show_int i = c # r \<and> (c = CHR ''-'' \<or> is_digit c)"
proof -
  obtain c r where c: "show_nat (nat \<bar>i\<bar>) = c # r"
    by (cases "show_nat (nat \<bar>i\<bar>)") auto
  then have "is_digit c"
    using show_nat_digits [of "nat \<bar>i\<bar>"] by simp
  with c show ?thesis
    by (cases "i < 0") (auto simp: show_int_def abs_if)
qed

lemma is_digit_starter: "c = CHR ''-'' \<or> is_digit c \<Longrightarrow> starter c"
  by (auto simp: starter_def is_digit_def is_ws_def)

lemma stringify_head:
  "json_ok v \<Longrightarrow> \<exists>c r. JSON_stringify v = c # r \<and> starter c"
proof (cases v)
  case (JNum i)
  with show_int_head [of i] is_digit_starter show ?thesis by auto
qed (auto simp: starter_def is_ws_def quote_def)

lemma join_head:
  assumes "xs \<noteq> []" and "hd xs = c # r"
  shows "\<exists>r'. join sep xs @ tail = c # r'"
  using assms by (cases xs; cases "tl xs") auto

lemma obj_put_new: "k \<notin> set (map fst acc) \<Longrightarrow> obj_put acc k v = acc @ [(k, v)]"
  by (induction acc) auto

lemma parse_elements_join:
  assumes "\<And>v n rest. v \<in> set vs \<Longrightarrow> delim rest \<Longrightarrow> fuel_for v \<le> n \<Longrightarrow>
             parse_value n (JSON_stringify v @ rest) = Some (v, rest)"
    and "vs \<noteq> []" and "sum_list (map (\<lambda>v. Suc (fuel_for v)) vs) \<le> n"
  shows "parse_elements n acc (join '','' (map JSON_stringify vs) @ CHR '']'' # rest) = Some (JArr (acc @ vs), rest)"
  using assms
proof (induction vs arbitrary: acc n)
  case Nil
  then show ?case by simp
next
  case (Cons v vs)
  from Cons.prems(3) obtain m where n: "n = Suc m" and m: "fuel_for v \<le> m"
    by (cases n) auto
  show ?case
  proof (cases vs)
    case Nil
    have "parse_value m (JSON_stringify v @ CHR '']'' # rest) = Some (v, CHR '']'' # rest)"
      using m by (intro Cons.prems(1)) (simp_all add: delim_def)
    then show ?thesis
      by (simp add: n Nil)
  next
    case (Cons w ws)
    let ?tail = "join '','' (map JSON_stringify vs) @ CHR '']'' # rest"
    have v: "parse_value m (JSON_stringify v @ CHR '','' # ?tail) = Some (v, CHR '','' # ?tail)"
      using m by (intro Cons.prems(1)) (simp_all add: delim_def)
    have "sum_list (map (\<lambda>v. Suc (fuel_for v)) vs) \<le> m"
      using Cons.prems(3) n by simp
    then have rest: "parse_elements m (acc @ [v]) ?tail = Some (JArr ((acc @ [v]) @ vs), rest)"
      using Cons.prems(1) Cons by (intro Cons.IH) simp_all
    show ?thesis
      using v rest by (simp add: n Cons)
  qed
qed

lemma parse_members_join:
  assumes "\<And>p n rest. p \<in> set kvs \<Longrightarrow> delim rest \<Longrightarrow> fuel_for (snd p) \<le> n \<Longrightarrow>
             parse_value n (JSON_stringify (snd p) @ rest) = Some (snd p, rest)"
    and "kvs \<noteq> []" and "sum_list (map (\<lambda>p. Suc (fuel_for (snd p))) kvs) \<le> n"
    and "distinct (map fst (acc @ kvs))"
  shows "parse_members n acc
           (join '','' (map (\<lambda>p. quote (fst p) @ '':'' @ JSON_stringify (snd p)) kvs) @ CHR ''}'' # rest)
         = Some (JObj (acc @ kvs), rest)"
  using assms
proof (induction kvs arbitrary: acc n)
  case Nil
  then show ?case by simp
next
  case (Cons p kvs)
  obtain k v where p: "p = (k, v)" by (cases p)
  from Cons.prems(3) obtain m where n: "n = Suc m" and m: "fuel_for v \<le> m"
    by (cases n) (auto simp: p)
  have put: "obj_put acc k v = acc @ [(k, v)]"
    using Cons.prems(4) by (intro obj_put_new) (simp add: p)
  have key: "\<And>tail. parse_chars (concat (map escape_char k) @ dquote # tail) = Some (k, tail)"
    by (rule parse_chars_quote)
  have dq: "starter dquote" by (simp add: starter_def is_ws_def)
  show ?case
  proof (cases kvs)
    case Nil
    have "parse_value m (JSON_stringify v @ CHR ''}'' # rest) = Some (v, CHR ''}'' # rest)"
      using m Cons.prems(1) [of p "CHR ''}'' # rest" m] by (simp add: delim_def p)
    then show ?thesis
      using key dq by (simp add: n Nil p quote_def put)
  next
    case (Cons q qs)
    let ?tail = "join '','' (map (\<lambda>p. quote (fst p) @ '':'' @ JSON_stringify (snd p)) kvs) @ CHR ''}'' # rest"
    have v: "parse_value m (JSON_stringify v @ CHR '','' # ?tail) = Some (v, CHR '','' # ?tail)"
      using m Cons.prems(1) [of p "CHR '','' # ?tail" m] by (simp add: delim_def p)
    have "sum_list (map (\<lambda>p. Suc (fuel_for (snd p))) kvs) \<le> m"
      using Cons.prems(3) n by simp
    moreover have "distinct (map fst ((acc @ [(k, v)]) @ kvs))"
      using Cons.prems(4) by (simp add: p)
    ultimately have rest: "parse_members m (acc @ [(k, v)]) ?tail = Some (JObj ((acc @ [(k, v)]) @ kvs), rest)"
      using Cons.prems(1) Cons by (intro Cons.IH) simp_all
    show ?thesis
      using v rest key dq by (simp add: n Cons p quote_def put)
  qed
qed

lemma parse_value_literal:
  assumes "delim rest"
  shows "parse_value (Suc m) (''null'' @ rest) = Some (JNull, rest)"
    and "parse_value (Suc m) (''true'' @ rest) = Some (JBool True, rest)"
    and "parse_value (Suc m) (''false'' @ rest) = Some (JBool False, rest)"
  by (simp_all add: skip_ws_def is_ws_def)

lemma parse_value_number:
  assumes "delim rest"
  shows "parse_value (Suc m) (show_int i @ rest) = Some (JNum i, rest)"
proof -
  obtain c r where c: "show_int i = c # r" "c = CHR ''-'' \<or> is_digit c"
    using show_int_head by blast
  then have "starter c" "c \<noteq> CHR ''{''" "c \<noteq> CHR ''[''" "c \<noteq> dquote"
    "c \<noteq> CHR ''t''" "c \<noteq> CHR ''f''" "c \<noteq> CHR ''n''"
    by (auto simp: is_digit_starter is_digit_def)
  moreover have "parse_number (c # r @ rest) = Some (JNum i, rest)"
    using parse_number_show_int [OF assms, of i] c by simp
  ultimately show ?thesis
    by (simp add: c)
qed

lemma parse_value_string:
  "parse_value (Suc m) (quote s @ rest) = Some (JStr s, rest)"
  using parse_chars_quote [of s rest]
  by (simp add: quote_def skip_ws_def is_ws_def)

lemma parse_value_stringify:
  "json_ok v \<Longrightarrow> delim rest \<Longrightarrow> fuel_for v \<le> n \<Longrightarrow>
   parse_value n (JSON_stringify v @ rest) = Some (v, rest)"
proof (induction v arbitrary: n rest)
  case JNull
  then obtain m where "n = Suc m" by (cases n) auto
  with parse_value_literal(1) [OF JNull.prems(2), of m] show ?case
    by (simp del: parse_value.simps)
next
  case (JBool b)
  then obtain m where "n = Suc m" by (cases n) auto
  with parse_value_literal(2,3) [OF JBool.prems(2), of m] show ?case
    by (cases b) (simp_all del: parse_value.simps)
next
  case (JNum i)
  then obtain m where "n = Suc m" by (cases n) auto
  with parse_value_number [OF JNum.prems(2), of m i] show ?case
    by (simp del: parse_value.simps)
next
  case (JFloat s)
  then show ?case by simp
next
  case (JStr s)
  then obtain m where "n = Suc m" by (cases n) auto
  with parse_value_string [of m s rest] show ?case
    by (simp del: parse_value.simps)
next
  case (JArr vs)
  from JArr.prems(3) obtain m where n: "n = Suc m" and m: "sum_list (map (\<lambda>v. Suc (fuel_for v)) vs) \<le> m"
    by (cases n) auto
  show ?case
  proof (cases vs)
    case Nil
    then show ?thesis by (simp add: n skip_ws_def is_ws_def)
  next
    case (Cons w ws)
    let ?r = "join '','' (map JSON_stringify vs) @ CHR '']'' # rest"
    have ih: "\<And>v n rest. v \<in> set vs \<Longrightarrow> delim rest \<Longrightarrow> fuel_for v \<le> n \<Longrightarrow>
             parse_value n (JSON_stringify v @ rest) = Some (v, rest)"
      using JArr.prems(1) by (intro JArr.IH) simp_all
    have elems: "parse_elements m [] ?r = Some (JArr ([] @ vs), rest)"
      using m Cons by (intro parse_elements_join ih) simp_all
    obtain c r where c: "JSON_stringify w = c # r" "starter c"
      using stringify_head [of w] JArr.prems(1) Cons by auto
    then obtain r' where r': "?r = c # r'"
      using join_head [of "map JSON_stringify vs" c r "'',''" "CHR '']'' # rest"] Cons by auto
    have "parse_value (Suc m) (CHR ''['' # ?r) = parse_elements m [] ?r"
      using c(2) unfolding r' by (simp add: skip_ws_def is_ws_def starter_def)
    with elems show ?thesis
      by (simp add: n del: parse_value.simps)
  qed
next
  case (JObj kvs)
  from JObj.prems(3) obtain m where n: "n = Suc m"
    and m: "sum_list (map (\<lambda>p. Suc (fuel_for (snd p))) kvs) \<le> m"
    by (cases n) auto
  show ?case
  proof (cases kvs)
    case Nil
    then show ?thesis by (simp add: n skip_ws_def is_ws_def)
  next
    case (Cons p ps)
    let ?r = "join '','' (map (\<lambda>p. quote (fst p) @ '':'' @ JSON_stringify (snd p)) kvs) @ CHR ''}'' # rest"
    have ih: "\<And>p n rest. p \<in> set kvs \<Longrightarrow> delim rest \<Longrightarrow> fuel_for (snd p) \<le> n \<Longrightarrow>
             parse_value n (JSON_stringify (snd p) @ rest) = Some (snd p, rest)"
    proof -
      fix p :: "string \<times> json" and n rest
      assume p: "p \<in> set kvs" "delim rest" "fuel_for (snd p) \<le> n"
      then have "snd p \<in> Basic_BNFs.snds p" "json_ok (snd p)"
        using JObj.prems(1) by (auto simp: snds.simps)
      with p show "parse_value n (JSON_stringify (snd p) @ rest) = Some (snd p, rest)"
        by (intro JObj.IH [of p "snd p"]) auto
    qed
    have members: "parse_members m [] ?r = Some (JObj ([] @ kvs), rest)"
      using JObj.prems(1) m Cons by (intro parse_members_join ih) simp_all
    obtain r' where r': "?r = dquote # r'"
      using join_head [of "map (\<lambda>p. quote (fst p) @ '':'' @ JSON_stringify (snd p)) kvs" dquote _ "'',''" "CHR ''}'' # rest"] Cons
      by (auto simp: quote_def)
    have "parse_value (Suc m) (CHR ''{'' # ?r) = parse_members m [] ?r"
      unfolding r' by (simp add: skip_ws_def is_ws_def)
    with members show ?thesis
      by (simp add: n del: parse_value.simps)
  qed
qed

lemma sum_fuel_join:
  assumes "\<And>x. x \<in> set xs \<Longrightarrow> f x \<le> length (g x)"
  shows "sum_list (map (\<lambda>x. Suc (f x)) xs) \<le> Suc (length (join '','' (map g xs)))"
  using assms
proof (induction xs)
  case Nil
  then show ?case by simp
next
  case (Cons x xs)
  then have "f x \<le> length (g x)" "sum_list (map (\<lambda>x. Suc (f x)) xs) \<le> Suc (length (join '','' (map g xs)))"
    by simp_all
  then show ?case by (cases xs) simp_all
qed

lemma fuel_for_length: "json_ok v \<Longrightarrow> fuel_for v \<le> length (JSON_stringify v)"
proof (induction v)
  case (JNum i)
  then show ?case
    using show_int_head [of i] by auto
next
  case (JArr vs)
  then have "sum_list (map (\<lambda>v. Suc (fuel_for v)) vs) \<le> Suc (length (join '','' (map JSON_stringify vs)))"
    by (intro sum_fuel_join) simp
  then show ?case by simp
next
  case (JObj kvs)
  have "sum_list (map (\<lambda>p. Suc (fuel_for (snd p))) kvs) \<le>
        Suc (length (join '','' (map (\<lambda>p. quote (fst p) @ '':'' @ JSON_stringify (snd p)) kvs)))"
  proof (rule sum_fuel_join)
    fix p assume "p \<in> set kvs"
    then have "fuel_for (snd p) \<le> length (JSON_stringify (snd p))"
      using JObj by (intro JObj.IH [of p "snd p"]) (auto simp: snds.simps)
    then show "fuel_for (snd p) \<le> length (quote (fst p) @ '':'' @ JSON_stringify (snd p))"
      by simp
  qed
  then show ?case by simp
qed (simp_all add: quote_def)

lemma JSON_parse_stringify: "json_ok v \<Longrightarrow> JSON_parse (JSON_stringify v) = Some v"
  using parse_value_stringify [of v "[]" "2 * length (JSON_stringify v) + 2"] fuel_for_length [of v]
  by (simp add: JSON_parse_def delim_def skip_ws_def)

subsection \<open>Insert followed by read\<close>

lemma addChat_getChatByID:
  assumes "db s \<noteq> None" and "faults s = []" and "valid_date (chat_createdAt c)"
    and "chat_id c \<notin> set (map chats_id (chats (store s)))"
  shows "fst (addChat c s) = Inr ()" and "fst (getChatByID (chat_id c) (snd (addChat c s))) = Inr (Some c)"
proof -
  obtain t where t: "getTime (chat_createdAt c) = Some t" "new_Date t = chat_createdAt c"
    using assms(3) new_Date_valid valid_date_getTime by blast
  note a = addChat_healthy [OF assms(1,2) t(1) assms(4)]
  show "fst (addChat c s) = Inr ()"
    by (simp add: a)
  show "fst (getChatByID (chat_id c) (snd (addChat c s))) = Inr (Some c)"
    using assms(1,2,4) t(2)
    by (simp add: a getChatByID_healthy find_append_fresh rowToChat_def)
qed

lemma stringify_nonempty: "json_ok v \<Longrightarrow> JSON_stringify v \<noteq> []"
  using stringify_head [of v] by auto

lemma or_undefined_or_null: "typed x \<Longrightarrow> or_undefined (or_null x) = x"
  by (cases x) (simp_all add: typed_def)

lemma as_is_or_null: "as_is (or_null x) = (case x of Value v \<Rightarrow> Value v | _ \<Rightarrow> Null)"
  by (cases x) simp_all

lemma restriction_roundtrip:
  assumes "typed_restriction x"
  shows "(case restriction_param x of
            None \<Rightarrow> Inr Undefined
          | Some txt \<Rightarrow>
              if txt = [] then Inr Undefined
              else (case JSON_parse txt of None \<Rightarrow> Inl SyntaxError | Some r \<Rightarrow> Inr (Value r))) = Inr x"
  using assms
  by (cases x) (simp_all add: typed_restriction_def stringify_nonempty JSON_parse_stringify)

lemma addMessage_healthy:
  assumes "db s \<noteq> None" and "faults s = []" and "getTime (msg_createdAt m) = Some t"
    and "msg_id m \<notin> set (map messages_id (messages (store s)))"
  shows "addMessage m s =
     (Inr (), s\<lparr>log := log s @ [''addMessage''],
               store := (store s)\<lparr>messages := messages (store s) @
                 [\<lparr>messages_id = msg_id m, messages_chatID = msg_chatID m,
                   messages_senderID = msg_senderID m, messages_replyTo = or_null (msg_replyTo m),
                   messages_threadID = or_null (msg_threadID m), messages_scene = or_null (msg_scene m),
                   messages_step = or_null (msg_step m), messages_body = JSON_stringify (msg_body m),
                   messages_replyRestriction = restriction_param (msg_replyRestriction m),
                   messages_createdAt = t\<rparr>]\<rparr>\<rparr>)"
  using assms by (simp add: addMessage_def stmt_write_healthy sql_addMessage_def)

lemma addMessage_getMessageByID:
  assumes "db s \<noteq> None" and "faults s = []" and "valid_date (msg_createdAt m)"
    and "msg_id m \<notin> set (map messages_id (messages (store s)))"
    and "json_ok (msg_body m)" and "typed_restriction (msg_replyRestriction m)"
  shows "fst (addMessage m s) = Inr ()"
    and "fst (getMessageByID (msg_id m) (snd (addMessage m s))) =
           Inr (Some (m\<lparr>msg_replyTo := or_undefined (or_null (msg_replyTo m)),
                         msg_threadID := as_is (or_null (msg_threadID m)),
                         msg_scene := or_undefined (or_null (msg_scene m)),
                         msg_step := or_undefined (or_null (msg_step m))\<rparr>))"
proof -
  obtain t where t: "getTime (msg_createdAt m) = Some t" "new_Date t = msg_createdAt m"
    using assms(3) new_Date_valid valid_date_getTime by blast
  note a = addMessage_healthy [OF assms(1,2) t(1) assms(4)]
  show "fst (addMessage m s) = Inr ()"
    by (simp add: a)
  show "fst (getMessageByID (msg_id m) (snd (addMessage m s))) =
           Inr (Some (m\<lparr>msg_replyTo := or_undefined (or_null (msg_replyTo m)),
                         msg_threadID := as_is (or_null (msg_threadID m)),
                         msg_scene := or_undefined (or_null (msg_scene m)),
                         msg_step := or_undefined (or_null (msg_step m))\<rparr>))"
    using assms(1,2,4) t(2)
    by (simp add: getMessageByID_healthy a find_append_fresh rowToMessage_def
        JSON_parse_stringify [OF assms(5)] restriction_roundtrip [OF assms(6)])
qed

lemma addChat_duplicate:
  assumes "db s \<noteq> None" and "faults s = []" and "valid_date (chat_createdAt c)"
    and "chat_id c \<in> set (map chats_id (chats (store s)))"
  shows "fst (addChat c s) = Inl (SqliteError ''SQLITE_CONSTRAINT_PRIMARYKEY'')"
    and "store (snd (addChat c s)) = store s"
  using assms valid_date_getTime [OF assms(3)]
  by (auto simp: addChat_def stmt_write_healthy sql_addChat_def primary_key_def)

text \<open>
  Claim C1. On an open adapter, a chat with a valid date and an id that is not stored yet
  is inserted by \<^verbatim>\<open>addChat\<close>, and \<^verbatim>\<open>getChatByID\<close> of its id then returns a record equal
  to it (for an id that is stored already \<^verbatim>\<open>addChat\<close> throws the primary-key error and
  stores nothing). A message with a valid date, a new id, the body \<^verbatim>\<open>{text: "hello"}\<close>
  and no reply restriction is inserted by \<^verbatim>\<open>addMessage\<close>, and \<^verbatim>\<open>getMessageByID\<close> then
  returns a record whose body is \<^verbatim>\<open>{text: "hello"}\<close> again and whose reply restriction is
  \<^verbatim>\<open>undefined\<close>.
\<close>

theorem insert_then_read_round_trip:
  assumes "db s \<noteq> None" and "faults s = []"
  shows "(valid_date (chat_createdAt c) \<and> chat_id c \<notin> set (map chats_id (chats (store s))) \<longrightarrow>
            fst (addChat c s) = Inr () \<and>
            fst (getChatByID (chat_id c) (snd (addChat c s))) = Inr (Some c)) \<and>
         (valid_date (chat_createdAt c) \<and> chat_id c \<in> set (map chats_id (chats (store s))) \<longrightarrow>
            fst (addChat c s) = Inl (SqliteError ''SQLITE_CONSTRAINT_PRIMARYKEY'') \<and>
            store (snd (addChat c s)) = store s) \<and>
         (valid_date (msg_createdAt m) \<and> msg_id m \<notin> set (map messages_id (messages (store s))) \<and>
          msg_body m = JObj [(''text'', JStr ''hello'')] \<and> msg_replyRestriction m = Undefined \<longrightarrow>
            fst (addMessage m s) = Inr () \<and>
            (\<exists>m'. fst (getMessageByID (msg_id m) (snd (addMessage m s))) = Inr (Some m') \<and>
                  msg_body m' = JObj [(''text'', JStr ''hello'')] \<and>
                  msg_replyRestriction m' = Undefined))"
proof -
  have "fst (addMessage m s) = Inr () \<and>
        (\<exists>m'. fst (getMessageByID (msg_id m) (snd (addMessage m s))) = Inr (Some m') \<and>
              msg_body m' = JObj [(''text'', JStr ''hello'')] \<and> msg_replyRestriction m' = Undefined)"
    if "valid_date (msg_createdAt m)" "msg_id m \<notin> set (map messages_id (messages (store s)))"
      "msg_body m = JObj [(''text'', JStr ''hello'')]" "msg_replyRestriction m = Undefined"
  proof -
    have "json_ok (msg_body m)" "typed_restriction (msg_replyRestriction m)"
      using that by (simp_all add: typed_restriction_def)
    from addMessage_getMessageByID [OF assms that(1,2) this] that(3,4)
    show ?thesis by simp
  qed
  then show ?thesis
    using addChat_getChatByID [OF assms, of c] addChat_duplicate [OF assms, of c] by blast
qed

theorem insert_then_read_round_trip_witness:
  "db sample_db \<noteq> None \<and> faults sample_db = [] \<and>
   valid_date (chat_createdAt (chat1\<lparr>chat_id := ''c2''\<rparr>)) \<and>
   ''c2'' \<notin> set (map chats_id (chats (store sample_db))) \<and>
   fst (addChat (chat1\<lparr>chat_id := ''c2''\<rparr>) sample_db) = Inr () \<and>
   fst (getChatByID ''c2'' (snd (addChat (chat1\<lparr>chat_id := ''c2''\<rparr>) sample_db))) =
     Inr (Some (chat1\<lparr>chat_id := ''c2''\<rparr>)) \<and>
   fst (addChat chat1 sample_db) = Inl (SqliteError ''SQLITE_CONSTRAINT_PRIMARYKEY'') \<and>
   valid_date (msg_createdAt hello_msg) \<and>
   msg_id hello_msg \<notin> set (map messages_id (messages (store sample_db))) \<and>
   fst (addMessage hello_msg sample_db) = Inr () \<and>
   map_sum id (map_option msg_body) (fst (getMessageByID ''m1'' (snd (addMessage hello_msg sample_db)))) =
     Inr (Some (JObj [(''text'', JStr ''hello'')])) \<and>
   map_sum id (map_option msg_replyRestriction)
     (fst (getMessageByID ''m1'' (snd (addMessage hello_msg sample_db)))) = Inr (Some Undefined)"
proof -
  have a: "db sample_db \<noteq> None" and b: "faults sample_db = []"
    by (simp_all add: sample_db_open)
  have c: "valid_date (chat_createdAt (chat1\<lparr>chat_id := ''c2''\<rparr>))"
    "chat_id (chat1\<lparr>chat_id := ''c2''\<rparr>) \<notin> set (map chats_id (chats (store sample_db)))"
    "valid_date (chat_createdAt chat1)" "chat_id chat1 \<in> set (map chats_id (chats (store sample_db)))"
    by (simp_all add: chat1_def max_time_def sample_db_store)
  have m: "valid_date (msg_createdAt hello_msg)"
    "msg_id hello_msg \<notin> set (map messages_id (messages (store sample_db)))"
    "msg_body hello_msg = JObj [(''text'', JStr ''hello'')]" "msg_replyRestriction hello_msg = Undefined"
    "msg_id hello_msg = ''m1''"
    by (simp_all add: hello_msg_def hello_body_def max_time_def sample_db_store)
  note t1 = insert_then_read_round_trip [OF a b, of "chat1\<lparr>chat_id := ''c2''\<rparr>" hello_msg]
  note t2 = insert_then_read_round_trip [OF a b, of chat1 hello_msg]
  from t1 c have 1: "fst (addChat (chat1\<lparr>chat_id := ''c2''\<rparr>) sample_db) = Inr ()"
    "fst (getChatByID ''c2'' (snd (addChat (chat1\<lparr>chat_id := ''c2''\<rparr>) sample_db))) =
     Inr (Some (chat1\<lparr>chat_id := ''c2''\<rparr>))"
    by simp_all
  from t2 c have 2: "fst (addChat chat1 sample_db) = Inl (SqliteError ''SQLITE_CONSTRAINT_PRIMARYKEY'')"
    by simp
  from t1 m obtain m' where 3: "fst (addMessage hello_msg sample_db) = Inr ()"
    "fst (getMessageByID ''m1'' (snd (addMessage hello_msg sample_db))) = Inr (Some m')"
    "msg_body m' = JObj [(''text'', JStr ''hello'')]" "msg_replyRestriction m' = Undefined"
    by auto
  show ?thesis
    using a b c(1,2) m(1,2) 1 2 3 by simp
qed

text \<open>
  Claim C10. On an open adapter, take a message with a valid date and a new id whose
  optional properties are as their types allow (missing or a value; the body and the
  reply restriction JSON without floating-point numbers). \<^verbatim>\<open>addMessage\<close> inserts it. If
  its \<^verbatim>\<open>threadID\<close> is missing, \<^verbatim>\<open>getMessageByID\<close> returns the message with
  \<^verbatim>\<open>threadID\<close> set to \<^verbatim>\<open>null\<close> and every other property as it was: a missing
  \<^verbatim>\<open>replyTo\<close>, \<^verbatim>\<open>scene\<close>, \<^verbatim>\<open>step\<close> or \<^verbatim>\<open>replyRestriction\<close> comes back \<^verbatim>\<open>undefined\<close>. If
  its \<^verbatim>\<open>threadID\<close> is given, the message comes back unchanged.
\<close>

theorem absent_threadID_is_read_back_as_null:
  assumes "db s \<noteq> None" and "faults s = []" and "valid_date (msg_createdAt m)"
    and "msg_id m \<notin> set (map messages_id (messages (store s)))"
    and "json_ok (msg_body m)" and "typed_restriction (msg_replyRestriction m)"
    and "typed (msg_replyTo m)" and "typed (msg_scene m)" and "typed (msg_step m)"
  shows "fst (addMessage m s) = Inr () \<and>
         (msg_threadID m = Undefined \<longrightarrow>
            fst (getMessageByID (msg_id m) (snd (addMessage m s))) = Inr (Some (m\<lparr>msg_threadID := Null\<rparr>))) \<and>
         (\<forall>t. msg_threadID m = Value t \<longrightarrow>
            fst (getMessageByID (msg_id m) (snd (addMessage m s))) = Inr (Some m))"
  using addMessage_getMessageByID [OF assms(1-6)]
  by (auto simp: or_undefined_or_null [OF assms(7)] or_undefined_or_null [OF assms(8)]
      or_undefined_or_null [OF assms(9)])

theorem absent_threadID_is_read_back_as_null_witness:
  "db sample_db \<noteq> None \<and> faults sample_db = [] \<and> valid_date (msg_createdAt reply_msg) \<and>
   msg_id reply_msg \<notin> set (map messages_id (messages (store sample_db))) \<and>
   json_ok (msg_body reply_msg) \<and> typed_restriction (msg_replyRestriction reply_msg) \<and>
   typed (msg_replyTo reply_msg) \<and> typed (msg_scene reply_msg) \<and> typed (msg_step reply_msg) \<and>
   msg_threadID reply_msg = Undefined \<and>
   fst (addMessage reply_msg sample_db) = Inr () \<and>
   fst (getMessageByID ''m9'' (snd (addMessage reply_msg sample_db))) =
     Inr (Some \<lparr>msg_id = ''m9'', msg_chatID = ''c1'', msg_senderID = ''u1'', msg_replyTo = Value ''m1'',
                msg_threadID = Null, msg_scene = Undefined, msg_step = Value ''email'',
                msg_body = JObj [(''text'', JStr ''hello'')],
                msg_replyRestriction = Value (JObj [(''bodyType'', JStr ''text'')]),
                msg_createdAt = Date 1700000001000\<rparr>)"
proof -
  have a: "db sample_db \<noteq> None" and b: "faults sample_db = []"
    by (simp_all add: sample_db_open)
  have m: "valid_date (msg_createdAt reply_msg)"
    "msg_id reply_msg \<notin> set (map messages_id (messages (store sample_db)))"
    "json_ok (msg_body reply_msg)" "typed_restriction (msg_replyRestriction reply_msg)"
    "typed (msg_replyTo reply_msg)" "typed (msg_scene reply_msg)" "typed (msg_step reply_msg)"
    and u: "msg_threadID reply_msg = Undefined" and i: "msg_id reply_msg = ''m9''"
    by (simp_all add: reply_msg_def hello_msg_def hello_body_def max_time_def sample_db_store
        typed_def typed_restriction_def)
  from absent_threadID_is_read_back_as_null [OF a b m] u i
  have "fst (addMessage reply_msg sample_db) = Inr ()"
    "fst (getMessageByID ''m9'' (snd (addMessage reply_msg sample_db))) = Inr (Some (reply_msg\<lparr>msg_threadID := Null\<rparr>))"
    by simp_all
  then show ?thesis
    using a b m u by (simp add: reply_msg_def hello_msg_def hello_body_def)
qed

subsection \<open>Purging more files than a statement takes parameters\<close>

lemma show_nat_inj: "show_nat m = show_nat n \<Longrightarrow> m = n"
  by (metis read_nat_show_nat)

lemma crowded_Suc: "crowded (Suc k) = snd (addFile (numbered_file k) (crowded k))"
  by (simp add: crowded_def)

lemma crowded_state:
  "db (crowded k) = Some Connection \<and> faults (crowded k) = [] \<and>
   store (crowded k) = empty_tables\<lparr>files := map numbered_row [0..<k]\<rparr>"
proof (induction k)
  case 0
  show ?case
    by (simp add: crowded_def fresh_db_open empty_tables_def)
next
  case (Suc k)
  have o: "db (crowded k) \<noteq> None" and h: "faults (crowded k) = []"
    using Suc by simp_all
  have t: "getTime (file_createdAt (numbered_file k)) = Some 0"
    by (simp add: numbered_file_def)
  have "show_nat k \<notin> show_nat ` {0..<k}"
    by (auto dest: show_nat_inj)
  then have n: "file_id (numbered_file k) \<notin> set (map files_id (files (store (crowded k))))"
    using Suc by (simp add: numbered_file_def numbered_row_def image_image)
  show ?case
    unfolding crowded_Suc addFile_healthy [OF o h t n]
    using Suc by (simp add: numbered_file_def numbered_row_def)
qed

lemma crowded_files:
  "files (store (crowded k)) = map numbered_row [0..<k]"
  "length (files (store (crowded k))) = k"
  "length (filter (\<lambda>f. files_createdAt f < 1) (files (store (crowded k)))) = k"
  "distinct (map files_id (files (store (crowded k))))"
proof -
  show f: "files (store (crowded k)) = map numbered_row [0..<k]"
    using crowded_state [of k] by simp
  show "length (files (store (crowded k))) = k"
    by (simp add: f)
  have "filter (\<lambda>f. files_createdAt f < 1) (map numbered_row [0..<k]) = map numbered_row [0..<k]"
    by (rule filter_True) (auto simp: numbered_row_def)
  then show "length (filter (\<lambda>f. files_createdAt f < 1) (files (store (crowded k)))) = k"
    by (simp add: f)
  have "inj_on (\<lambda>n. files_id (numbered_row n)) {0..<k}"
    by (auto simp: inj_on_def numbered_row_def dest: show_nat_inj)
  then show "distinct (map files_id (files (store (crowded k))))"
    by (simp add: f distinct_map o_def)
qed

lemma char_of_eq: "n < 256 \<Longrightarrow> char_of (n::nat) = c \<longleftrightarrow> of_char c = n"
proof -
  assume "n < 256"
  have "char_of n = c \<longleftrightarrow> (of_char (char_of n) :: nat) = of_char c"
    by (simp only: of_char_eq_iff)
  with \<open>n < 256\<close> show ?thesis by auto
qed

lemma files_id_numbered_row [simp]: "files_id (numbered_row n) = show_nat n"
  by (simp add: numbered_row_def)

lemma find_app:
  "find P (xs @ ys) = (case find P xs of None \<Rightarrow> find P ys | Some x \<Rightarrow> Some x)"
  by (induction xs) auto

lemma find_numbered_row:
  "n < k \<Longrightarrow> find (\<lambda>r. files_id r = show_nat n) (map numbered_row [0..<k]) = Some (numbered_row n)"
proof (induction k)
  case 0
  then show ?case by simp
next
  case (Suc k)
  show ?case
  proof (cases "n < k")
    case True
    with Suc.IH show ?thesis by (simp add: find_app)
  next
    case False
    with Suc.prems have n: "n = k" by simp
    have "find (\<lambda>r. files_id r = show_nat k) (map numbered_row [0..<k]) = None"
      by (auto simp: find_None_iff numbered_row_def dest: show_nat_inj)
    then show ?thesis
      by (simp add: n find_app)
  qed
qed

lemma find_member: "r \<in> set xs \<Longrightarrow> find (\<lambda>x. f x = f r) xs \<noteq> None"
  by (auto simp: find_None_iff)

text \<open>
  Claim C6. \<^verbatim>\<open>deleteOldFiles(T)\<close> is to return the ids of the files created before \<open>T\<close>
  and to remove these files. The code reads the ids and then sends them all as the
  parameters of one \<^verbatim>\<open>DELETE FROM files WHERE id IN (?, ..., ?)\<close>. On an open adapter with
  more than \<open>max_parameters\<close> files created before \<open>T\<close>, the engine refuses that
  statement: the call throws, no id is returned, the stored data is what it was, and every
  file created before \<open>T\<close> is still found by \<^verbatim>\<open>getFileByID\<close>. (With at most
  \<open>max_parameters\<close> such files the purge does what is claimed:
  \<open>deleteOldFiles_within_parameter_limit\<close>. The purges of messages and of confirmed
  steps send one parameter, the time, and have no such bound.)
\<close>

theorem deleteOldFiles_fails_on_many_old_files:
  assumes "db s \<noteq> None" and "faults s = []"
    and "max_parameters < length (filter (\<lambda>f. files_createdAt f < t) (files (store s)))"
  shows "fst (deleteOldFiles (Date t) s) = Inl too_many_variables \<and>
         (\<forall>ids. fst (deleteOldFiles (Date t) s) \<noteq> Inr ids) \<and>
         store (snd (deleteOldFiles (Date t) s)) = store s \<and>
         log (snd (deleteOldFiles (Date t) s)) =
           log s @ [''deleteOldFiles'',
                    ''DELETE FROM files WHERE id IN ('' @
                       placeholders (sql_deleteOldFiles (Some t) (store s)) @ '')''] \<and>
         (\<forall>i. fst (getFileByID i (snd (deleteOldFiles (Date t) s))) = fst (getFileByID i s)) \<and>
         (\<forall>f \<in> set (files (store s)).
            files_createdAt f < t \<longrightarrow>
            fst (getFileByID (files_id f) (snd (deleteOldFiles (Date t) s))) \<noteq> Inr None)"
proof -
  let ?s' = "snd (deleteOldFiles (Date t) s)"
  have len: "max_parameters < length (sql_deleteOldFiles (getTime (Date t)) (store s))"
    using assms(3) by (simp add: length_sql_deleteOldFiles)
  note m = deleteOldFiles_too_many [OF assms(1,2) len]
  have s': "db ?s' \<noteq> None" "faults ?s' = []"
    using m(3,4) assms(1) by simp_all
  have l: "log ?s' = log s @ [''deleteOldFiles'',
             ''DELETE FROM files WHERE id IN ('' @
                placeholders (sql_deleteOldFiles (Some t) (store s)) @ '')'']"
    using assms(1,2) len
    by (auto simp: deleteOldFiles_def stmt_read_healthy stmt_write_healthy sql_delete_files_def)
  have g: "fst (getFileByID i ?s') = fst (getFileByID i s)" for i
    by (simp add: getFileByID_healthy [OF s'] getFileByID_healthy [OF assms(1,2)] m(2))
  have o: "fst (getFileByID (files_id f) ?s') \<noteq> Inr None" if "f \<in> set (files (store s))" for f
    using find_member [OF that, of files_id]
    by (simp add: g getFileByID_healthy [OF assms(1,2)])
  show ?thesis
    using m(1,2) l g o by simp
qed

theorem deleteOldFiles_fails_on_many_old_files_witness:
  "db crowded_db \<noteq> None \<and> faults crowded_db = [] \<and>
   length (files (store crowded_db)) = 32767 \<and>
   distinct (map files_id (files (store crowded_db))) \<and>
   max_parameters < length (filter (\<lambda>f. files_createdAt f < 1) (files (store crowded_db))) \<and>
   fst (deleteOldFiles (Date 1) crowded_db) = Inl (SqliteError ''SQLITE_ERROR'') \<and>
   store (snd (deleteOldFiles (Date 1) crowded_db)) = store crowded_db \<and>
   fst (getFileByID ''0'' (snd (deleteOldFiles (Date 1) crowded_db))) = Inr (Some (numbered_file 0)) \<and>
   fst (getFileByID ''32766'' (snd (deleteOldFiles (Date 1) crowded_db))) = Inr (Some (numbered_file 32766))"
proof -
  have a: "db crowded_db \<noteq> None" and b: "faults crowded_db = []"
    using crowded_state [of 32767] by (simp_all add: crowded_db_def)
  have c: "length (files (store crowded_db)) = 32767"
    and d: "distinct (map files_id (files (store crowded_db)))"
    unfolding crowded_db_def by (rule crowded_files)+
  have e: "max_parameters < length (filter (\<lambda>f. files_createdAt f < 1) (files (store crowded_db)))"
    unfolding crowded_db_def crowded_files(3) by (simp add: max_parameters_def)
  note t = deleteOldFiles_fails_on_many_old_files [OF a b e]
  have f: "fst (deleteOldFiles (Date 1) crowded_db) = Inl (SqliteError ''SQLITE_ERROR'')"
    using t by (simp add: too_many_variables_def)
  have g: "store (snd (deleteOldFiles (Date 1) crowded_db)) = store crowded_db"
    using t by (elim conjE)
  have k: "\<forall>i. fst (getFileByID i (snd (deleteOldFiles (Date 1) crowded_db))) = fst (getFileByID i crowded_db)"
    using t by (elim conjE)
  have fs: "files (store crowded_db) = map numbered_row [0..<32767]"
    unfolding crowded_db_def by (rule crowded_files(1))
  have r: "rowToFile (numbered_row n) = numbered_file n" for n
    by (simp add: rowToFile_def numbered_row_def numbered_file_def new_Date_def max_time_def)
  have q: "fst (getFileByID (show_nat n) crowded_db) = Inr (Some (numbered_file n))" if "n < 32767" for n
    using find_numbered_row [OF that]
    by (simp add: getFileByID_healthy [OF a b] fs r)
  have n0: "show_nat 0 = ''0''" and n1: "show_nat 32766 = ''32766''"
    by (simp_all add: show_nat.simps digit_char_def char_of_eq)
  have h0: "fst (getFileByID ''0'' (snd (deleteOldFiles (Date 1) crowded_db))) = Inr (Some (numbered_file 0))"
    using q [of 0] k by (simp add: n0)
  have h1: "fst (getFileByID ''32766'' (snd (deleteOldFiles (Date 1) crowded_db))) = Inr (Some (numbered_file 32766))"
    using q [of 32766] k by (simp add: n1)
  show ?thesis
    by (intro conjI a b c d e f g h0 h1)
qed

subsection \<open>Invariants of the stored data\<close>

lemma stmt_read_store [simp]: "store (snd (stmt_read q f s)) = store s"
  by (auto simp: stmt_read_def engine_call_def split: prod.splits bool.splits list.splits)

lemma stmt_read_store_pair: "stmt_read q f s = (x, s') \<Longrightarrow> store s' = store s"
  using stmt_read_store [of q f s] by simp

lemma stmt_write_keeps:
  assumes "P (store s)" and "\<And>a T'. f (store s) = Inr (a, T') \<Longrightarrow> P T'"
  shows "P (store (snd (stmt_write q f s)))"
  using assms
  by (auto simp: stmt_write_def engine_call_def split: prod.splits bool.splits list.splits sum.splits)

lemma stmt_write_keeps_pair:
  assumes "stmt_write q f s = (x, s')" and "P (store s)" and "\<And>a T'. f (store s) = Inr (a, T') \<Longrightarrow> P T'"
  shows "P (store s')"
  using stmt_write_keeps [of P s f q] assms by simp

lemma map_key_if:
  assumes "\<And>r. f (g r) = f r"
  shows "map (f \<circ> (\<lambda>r. if f r = i then g r else r)) xs = map f xs"
  using assms by (induction xs) simp_all

lemma sql_keeps_ids_distinct:
  assumes "ids_distinct T"
  shows "sql_addChat i n c t T = Inr (u, T') \<Longrightarrow> ids_distinct T'"
    and "sql_editChatByID on oc ot i T = Inr (u, T') \<Longrightarrow> ids_distinct T'"
    and "sql_deleteChatByID i T = Inr (cr, T') \<Longrightarrow> ids_distinct T'"
    and "sql_delete_chat i T = Inr (u, T') \<Longrightarrow> ids_distinct T'"
    and "sql_addMessage i c sd rt th sc st b rr t T = Inr (u, T') \<Longrightarrow> ids_distinct T'"
    and "sql_deleteOldMessages t T = Inr (k, T') \<Longrightarrow> ids_distinct T'"
    and "sql_deleteMessagesByChatID c T = Inr (k, T') \<Longrightarrow> ids_distinct T'"
    and "sql_addConfirmedStep i th2 mi sc2 st2 t T = Inr (u, T') \<Longrightarrow> ids_distinct T'"
    and "sql_deleteOldConfirmedSteps t T = Inr (k, T') \<Longrightarrow> ids_distinct T'"
    and "sql_addFile i n sz mt t T = Inr (u, T') \<Longrightarrow> ids_distinct T'"
    and "sql_deleteFileByID i T = Inr (fr, T') \<Longrightarrow> ids_distinct T'"
    and "sql_delete_file i T = Inr (u, T') \<Longrightarrow> ids_distinct T'"
    and "sql_delete_files ids T = Inr (u, T') \<Longrightarrow> ids_distinct T'"
  using assms
  by (auto simp: ids_distinct_def sql_addChat_def sql_editChatByID_def sql_deleteChatByID_def
      sql_delete_chat_def sql_addMessage_def sql_deleteOldMessages_def sql_deleteMessagesByChatID_def
      sql_addConfirmedStep_def sql_deleteOldConfirmedSteps_def sql_addFile_def
      sql_deleteFileByID_def sql_delete_file_def sql_delete_files_def distinct_map_filter
      map_key_if
      split: option.splits if_splits)

lemma reads_keep_store:
  "store (snd (getChatByID i s)) = store s"
  "store (snd (getChatsByCreatorID creatorID offset limit s)) = store s"
  "store (snd (countChatsByCreatorID creatorID s)) = store s"
  "store (snd (getMessageByID i s)) = store s"
  "store (snd (getMessagesByIDs ids s)) = store s"
  "store (snd (getMessagesByChatID chatID offset limit s)) = store s"
  "store (snd (getConfirmedStepsByThreadID threadID s)) = store s"
  "store (snd (getFileByID i s)) = store s"
  "store (snd (getFilesByIDs ids s)) = store s"
  by (auto simp: getChatByID_def getChatsByCreatorID_def countChatsByCreatorID_def getMessageByID_def
      getMessagesByIDs_def getMessagesByChatID_def getConfirmedStepsByThreadID_def getFileByID_def
      getFilesByIDs_def Let_def
      dest: stmt_read_store_pair split: prod.splits sum.splits option.splits)

lemma writes_keep_ids_distinct:
  assumes "ids_distinct (store s)"
  shows "ids_distinct (store (snd (addChat chat s)))"
    and "ids_distinct (store (snd (addMessage msg s)))"
    and "ids_distinct (store (snd (deleteOldMessages maxDate s)))"
    and "ids_distinct (store (snd (deleteMessagesByChatID chatID s)))"
    and "ids_distinct (store (snd (addConfirmedStep step s)))"
    and "ids_distinct (store (snd (deleteOldConfirmedSteps maxDate s)))"
    and "ids_distinct (store (snd (addFile data s)))"
  using assms
  by (auto simp: addChat_def addMessage_def deleteOldMessages_def deleteMessagesByChatID_def
      addConfirmedStep_def deleteOldConfirmedSteps_def addFile_def
      intro!: stmt_write_keeps [where P = ids_distinct] dest: sql_keeps_ids_distinct)

lemma compound_keep:
  assumes "P (store s)"
    and e: "\<And>T a T' n c t i. P T \<Longrightarrow> sql_editChatByID n c t i T = Inr (a, T') \<Longrightarrow> P T'"
    and dc: "\<And>T a T' i. P T \<Longrightarrow> sql_deleteChatByID i T = Inr (a, T') \<Longrightarrow> P T'"
    and dc': "\<And>T a T' i. P T \<Longrightarrow> sql_delete_chat i T = Inr (a, T') \<Longrightarrow> P T'"
    and df: "\<And>T a T' i. P T \<Longrightarrow> sql_deleteFileByID i T = Inr (a, T') \<Longrightarrow> P T'"
    and df': "\<And>T a T' i. P T \<Longrightarrow> sql_delete_file i T = Inr (a, T') \<Longrightarrow> P T'"
    and dfs: "\<And>T a T' ids. P T \<Longrightarrow> sql_delete_files ids T = Inr (a, T') \<Longrightarrow> P T'"
  shows "P (store (snd (editChatByID i updated s)))"
    and "P (store (snd (deleteChatByID i s)))"
    and "P (store (snd (deleteFileByID i s)))"
    and "P (store (snd (deleteOldFiles maxDate s)))"
proof -
  have w: "\<And>q f x s1 s0. stmt_write q f s0 = (x, s1) \<Longrightarrow> P (store s0) \<Longrightarrow>
             (\<And>a T T'. P T \<Longrightarrow> f T = Inr (a, T') \<Longrightarrow> P T') \<Longrightarrow> P (store s1)"
    by (rule stmt_write_keeps_pair [where P = P]) auto
  show "P (store (snd (editChatByID i updated s)))"
  proof (cases "db s = None")
    case True
    with assms(1) show ?thesis by (simp add: editChatByID_def)
  next
    case False
    obtain x s1 where 1: "stmt_write ''editChatByID''
        (sql_editChatByID (or_null (upd_name updated)) (or_null (upd_creatorID updated))
           (case upd_createdAt updated of Value d \<Rightarrow> getTime d | _ \<Rightarrow> None) i) s = (x, s1)"
      by force
    have p1: "P (store s1)"
      using 1 assms(1) by (rule w) (rule e)
    then have "P (store (snd (getChatByID i s1)))"
      by (simp add: reads_keep_store)
    with False 1 p1 show ?thesis
      by (auto simp: editChatByID_def Let_def split: sum.splits)
  qed
  show "P (store (snd (deleteChatByID i s)))"
  proof (cases "db s = None")
    case True
    with assms(1) show ?thesis by (simp add: deleteChatByID_def)
  next
    case False
    obtain x s1 where 1: "stmt_write ''deleteChatByID'' (sql_deleteChatByID i) s = (x, s1)"
      by force
    have d1: "P (store s1)"
      using 1 assms(1) by (rule w) (rule dc)
    obtain y s2 where 2: "getChatByID i s1 = (y, s2)" by force
    then have d2: "P (store s2)"
      using d1 reads_keep_store(1) [of i s1] by simp
    obtain z s3 where 3: "stmt_write ''DELETE FROM chats WHERE id = ?'' (sql_delete_chat i) s2 = (z, s3)"
      by force
    have d3: "P (store s3)"
      using 3 d2 by (rule w) (rule dc')
    from False 1 2 3 d1 d2 d3 show ?thesis
      by (auto simp: deleteChatByID_def split: sum.splits option.splits)
  qed
  show "P (store (snd (deleteFileByID i s)))"
  proof (cases "db s = None")
    case True
    with assms(1) show ?thesis by (simp add: deleteFileByID_def)
  next
    case False
    obtain x s1 where 1: "stmt_write ''deleteFileByID'' (sql_deleteFileByID i) s = (x, s1)"
      by force
    have d1: "P (store s1)"
      using 1 assms(1) by (rule w) (rule df)
    obtain y s2 where 2: "getFileByID i s1 = (y, s2)" by force
    then have d2: "P (store s2)"
      using d1 reads_keep_store(8) [of i s1] by simp
    obtain z s3 where 3: "stmt_write ''DELETE FROM files WHERE id = ?'' (sql_delete_file i) s2 = (z, s3)"
      by force
    have d3: "P (store s3)"
      using 3 d2 by (rule w) (rule df')
    from False 1 2 3 d1 d2 d3 show ?thesis
      by (auto simp: deleteFileByID_def split: sum.splits option.splits)
  qed
  show "P (store (snd (deleteOldFiles maxDate s)))"
  proof (cases "db s = None")
    case True
    with assms(1) show ?thesis by (simp add: deleteOldFiles_def)
  next
    case False
    obtain x s1 where 1: "stmt_read ''deleteOldFiles'' (sql_deleteOldFiles (getTime maxDate)) s = (x, s1)"
      by force
    then have d1: "P (store s1)"
      using assms(1) stmt_read_store_pair by fastforce
    have d2: "\<And>q ids z s2. stmt_write q (sql_delete_files ids) s1 = (z, s2) \<Longrightarrow> P (store s2)"
      using d1 by (rule w [rotated]) (rule dfs)
    from False 1 d1 show ?thesis
      by (auto simp: deleteOldFiles_def dest: d2 split: sum.splits prod.splits)
  qed
qed

lemma compound_keep_ids_distinct:
  assumes "ids_distinct (store s)"
  shows "ids_distinct (store (snd (editChatByID i updated s)))"
    and "ids_distinct (store (snd (deleteChatByID i s)))"
    and "ids_distinct (store (snd (deleteFileByID i s)))"
    and "ids_distinct (store (snd (deleteOldFiles maxDate s)))"
  by (rule compound_keep [where P = ids_distinct, OF assms]; erule (1) sql_keeps_ids_distinct)+

lemma sql_keeps_messages:
  "sql_addChat i n c t T = Inr (u, T') \<Longrightarrow> messages T' = messages T"
  "sql_editChatByID on oc ot i T = Inr (u, T') \<Longrightarrow> messages T' = messages T"
  "sql_deleteChatByID i T = Inr (cr, T') \<Longrightarrow> messages T' = messages T"
  "sql_delete_chat i T = Inr (u, T') \<Longrightarrow> messages T' = messages T"
  "sql_addConfirmedStep i th2 mi sc2 st2 t T = Inr (u, T') \<Longrightarrow> messages T' = messages T"
  "sql_deleteOldConfirmedSteps t T = Inr (k, T') \<Longrightarrow> messages T' = messages T"
  "sql_addFile i n sz mt t T = Inr (u, T') \<Longrightarrow> messages T' = messages T"
  "sql_deleteFileByID i T = Inr (fr, T') \<Longrightarrow> messages T' = messages T"
  "sql_delete_file i T = Inr (u, T') \<Longrightarrow> messages T' = messages T"
  "sql_delete_files ids T = Inr (u, T') \<Longrightarrow> messages T' = messages T"
  by (auto simp: sql_addChat_def sql_editChatByID_def sql_deleteChatByID_def
      sql_delete_chat_def sql_addConfirmedStep_def sql_deleteOldConfirmedSteps_def sql_addFile_def
      sql_deleteFileByID_def sql_delete_file_def sql_delete_files_def
      split: option.splits if_splits)

lemma sql_keeps_times_in_range:
  assumes "times_in_range T"
  shows "valid_date d \<Longrightarrow> sql_addMessage i c sd rt th sc st b rr (getTime d) T = Inr (u, T') \<Longrightarrow> times_in_range T'"
    and "sql_deleteOldMessages t T = Inr (k, T') \<Longrightarrow> times_in_range T'"
    and "sql_deleteMessagesByChatID c T = Inr (k, T') \<Longrightarrow> times_in_range T'"
  using assms
  by (cases d; auto simp: times_in_range_def sql_addMessage_def sql_deleteOldMessages_def
      sql_deleteMessagesByChatID_def list_all_iff split: option.splits if_splits)+

lemma operations_keep_times_in_range:
  assumes "times_in_range (store s)"
  shows "valid_date (msg_createdAt msg) \<Longrightarrow> times_in_range (store (snd (addMessage msg s)))"
    and "times_in_range (store (snd (deleteOldMessages maxDate s)))"
    and "times_in_range (store (snd (deleteMessagesByChatID chatID s)))"
    and "times_in_range (store (snd (addChat chat s)))"
    and "times_in_range (store (snd (addConfirmedStep step s)))"
    and "times_in_range (store (snd (deleteOldConfirmedSteps maxDate s)))"
    and "times_in_range (store (snd (addFile data s)))"
    and "times_in_range (store (snd (editChatByID i updated s)))"
    and "times_in_range (store (snd (deleteChatByID i s)))"
    and "times_in_range (store (snd (deleteFileByID i s)))"
    and "times_in_range (store (snd (deleteOldFiles maxDate s)))"
proof -
  have m: "\<And>T T'. times_in_range T \<Longrightarrow> messages T' = messages T \<Longrightarrow> times_in_range T'"
    by (simp add: times_in_range_def)
  show "valid_date (msg_createdAt msg) \<Longrightarrow> times_in_range (store (snd (addMessage msg s)))"
    using assms
    by (auto simp: addMessage_def intro!: stmt_write_keeps [where P = times_in_range]
        dest: sql_keeps_times_in_range)
  show "times_in_range (store (snd (deleteOldMessages maxDate s)))"
    "times_in_range (store (snd (deleteMessagesByChatID chatID s)))"
    "times_in_range (store (snd (addChat chat s)))"
    "times_in_range (store (snd (addConfirmedStep step s)))"
    "times_in_range (store (snd (deleteOldConfirmedSteps maxDate s)))"
    "times_in_range (store (snd (addFile data s)))"
    using assms
    by (auto simp: deleteOldMessages_def deleteMessagesByChatID_def addChat_def addConfirmedStep_def
        deleteOldConfirmedSteps_def addFile_def
        intro!: stmt_write_keeps [where P = times_in_range]
        dest: sql_keeps_times_in_range sql_keeps_messages [THEN m [rotated]])
  show "times_in_range (store (snd (editChatByID i updated s)))"
    "times_in_range (store (snd (deleteChatByID i s)))"
    "times_in_range (store (snd (deleteFileByID i s)))"
    "times_in_range (store (snd (deleteOldFiles maxDate s)))"
    by (rule compound_keep [where P = times_in_range, OF assms];
        (drule sql_keeps_messages, erule (1) m))+
qed

lemma new_file_is_sound: "ids_distinct empty_tables" "times_in_range empty_tables"
  by (simp_all add: ids_distinct_def times_in_range_def empty_tables_def)

end
